(* ===== verification/Mesh_Prelude.thy ===== *)
theory Mesh_Prelude
  imports Main "HOL-Library.Word"
begin

text \<open>
  Shared vocabulary of the development: the C types the sources use, the part of the C string
  library they call (string.h, strings.h, ctype.h and the conversions of stdio.h), faults of
  undefined behaviour as values, and the generic list lemmas the components rely on.

  A \<^verbatim>\<open>const char *\<close> argument is modelled by its contents, the characters before the
  terminating NUL. A fixed-size array that the code writes is modelled by the whole list of its
  cells; \<^verbatim>\<open>cstr\<close> reads such an array as a C string.
\<close>

section \<open>Collections\<close>

named_theorems c_string_simps \<open>unfolding rules of the C string functions\<close>
named_theorems frame_simps \<open>what an operation leaves unchanged\<close>

section \<open>C types and faults\<close>

type_synonym byte = "8 word"
type_synonym uint16 = "16 word"
type_synonym uint32 = "32 word"
type_synonym uint64 = "64 word"
type_synonym time_t = int

text \<open>Undefined behaviour that the sources can reach is a value, so that no theorem talks past it.\<close>

datatype fault = Buffer_overflow | Out_of_bounds_read | Null_dereference | Self_deadlock | Double_release | Uninitialised_use

abbreviation NUL :: char where "NUL \<equiv> CHR 0x00"
abbreviation NL :: char where "NL \<equiv> CHR 0x0A"

section \<open>Strings and arrays\<close>

definition cstr :: "char list \<Rightarrow> string" where
  "cstr buf = takeWhile (\<lambda>c. c \<noteq> NUL) buf"

definition is_cstr :: "string \<Rightarrow> bool" where
  "is_cstr s = (NUL \<notin> set s)"

definition strnlen :: "string \<Rightarrow> nat \<Rightarrow> nat" where
  "strnlen s n = min (length s) n"

definition strncmp_eq :: "string \<Rightarrow> string \<Rightarrow> nat \<Rightarrow> bool" where
  "strncmp_eq a b n = (take n a = take n b)"

definition tolower :: "char \<Rightarrow> char" where
  "tolower c =
     (case map_of (zip ''ABCDEFGHIJKLMNOPQRSTUVWXYZ'' ''abcdefghijklmnopqrstuvwxyz'') c of
        Some d \<Rightarrow> d | None \<Rightarrow> c)"

definition strcasecmp_eq :: "string \<Rightarrow> string \<Rightarrow> bool" where
  "strcasecmp_eq a b = (map tolower a = map tolower b)"

definition isalnum :: "char \<Rightarrow> bool" where
  "isalnum c = (let k = of_char c :: nat in
     48 \<le> k \<and> k \<le> 57 \<or> 65 \<le> k \<and> k \<le> 90 \<or> 97 \<le> k \<and> k \<le> 122)"

definition isprint :: "char \<Rightarrow> bool" where
  "isprint c = (let k = of_char c :: nat in 32 \<le> k \<and> k \<le> 126)"

definition isspace :: "char \<Rightarrow> bool" where
  "isspace c = (let k = of_char c :: nat in 9 \<le> k \<and> k \<le> 13 \<or> k = 32)"

text \<open>\<^verbatim>\<open>strncpy(dst, src, n)\<close> writes exactly \<open>n\<close> cells: the source, then padding NULs.\<close>

definition strncpy :: "char list \<Rightarrow> string \<Rightarrow> nat \<Rightarrow> char list" where
  "strncpy dst src n = take n (src @ replicate n NUL) @ drop n dst"

text \<open>\<^verbatim>\<open>strcpy\<close> writes the source and its NUL, past the end of the array if it is longer.\<close>

definition strcpy :: "char list \<Rightarrow> string \<Rightarrow> fault + char list" where
  "strcpy dst src =
     (if length src < length dst then Inr (src @ NUL # drop (Suc (length src)) dst)
      else Inl Buffer_overflow)"

text \<open>\<^verbatim>\<open>strncat(dst, src, n)\<close> on the contents of \<open>dst\<close>.\<close>

definition strncat :: "string \<Rightarrow> string \<Rightarrow> nat \<Rightarrow> string" where
  "strncat dst src n = dst @ take n src"

text \<open>What \<^verbatim>\<open>snprintf(buf, size, ...)\<close> leaves in \<open>buf\<close> when the formatted text is \<open>s\<close>.\<close>

definition snprintf :: "nat \<Rightarrow> string \<Rightarrow> string" where
  "snprintf n s = take (n - 1) s"

definition poke :: "char list \<Rightarrow> nat \<Rightarrow> char \<Rightarrow> fault + char list" where
  "poke buf i c = (if i < length buf then Inr (buf[i := c]) else Inl Buffer_overflow)"

fun poke_all :: "char list \<Rightarrow> nat \<Rightarrow> string \<Rightarrow> fault + char list" where
  "poke_all buf i [] = Inr buf"
| "poke_all buf i (c # cs) =
     (case poke buf i c of Inl e \<Rightarrow> Inl e | Inr buf' \<Rightarrow> poke_all buf' (Suc i) cs)"

section \<open>Number formatting\<close>

definition hex_digit :: "nat \<Rightarrow> char" where
  "hex_digit d = ''0123456789abcdef'' ! (d mod 16)"

definition hex2 :: "byte \<Rightarrow> string" where
  "hex2 b = [hex_digit (unat b div 16), hex_digit (unat b mod 16)]"

definition dec_digit :: "nat \<Rightarrow> char" where
  "dec_digit d = ''0123456789'' ! (d mod 10)"

fun dec_nat :: "nat \<Rightarrow> string" where
  "dec_nat n = (if n < 10 then [dec_digit n] else dec_nat (n div 10) @ [dec_digit n])"

declare dec_nat.simps [simp del]

definition dec_int :: "int \<Rightarrow> string" where
  "dec_int i = (if i < 0 then CHR ''-'' # dec_nat (nat (- i)) else dec_nat (nat i))"

section \<open>Lemmas\<close>

lemma cstr_no_nul [simp]: "NUL \<notin> set (cstr buf)"
  by (auto simp: cstr_def dest: set_takeWhileD)

lemma is_cstr_cstr [simp]: "is_cstr (cstr buf)"
  by (simp add: is_cstr_def)

lemma cstr_append_nul [simp]: "is_cstr s \<Longrightarrow> cstr (s @ NUL # rest) = s"
  by (auto simp: cstr_def is_cstr_def takeWhile_append2 takeWhile_tail intro!: takeWhile_append2)

lemma cstr_idem [simp]: "is_cstr s \<Longrightarrow> cstr s = s"
  by (auto simp: cstr_def is_cstr_def takeWhile_eq_all_conv)

lemma length_cstr_le: "length (cstr buf) \<le> length buf"
  by (simp add: cstr_def length_takeWhile_le)

lemma cstr_replicate_nul [simp]: "cstr (replicate n NUL) = []"
  by (cases n) (simp_all add: cstr_def)

lemma is_cstr_simps [simp]:
  "is_cstr []" "is_cstr (c # s) = (c \<noteq> NUL \<and> is_cstr s)" "is_cstr (a @ b) = (is_cstr a \<and> is_cstr b)"
  by (auto simp: is_cstr_def)

lemma is_cstr_take: "is_cstr s \<Longrightarrow> is_cstr (take n s)"
  by (auto simp: is_cstr_def dest: in_set_takeD)

lemma is_cstr_filter: "is_cstr s \<Longrightarrow> is_cstr (filter P s)"
  by (auto simp: is_cstr_def)

lemma length_strncpy [simp]: "n \<le> length dst \<Longrightarrow> length (strncpy dst src n) = length dst"
  by (simp add: strncpy_def)

text \<open>
  A bounded copy that leaves at least one NUL cell behind it reads back as the source cut to the
  bound: the idiom \<^verbatim>\<open>strncpy(field, s, sizeof(field) - 1)\<close> on a zeroed field.
\<close>

lemma cstr_strncpy:
  assumes "is_cstr src" and "n < length dst" and "dst ! n = NUL"
  shows "cstr (strncpy dst src n) = take n src"
proof (cases "n \<le> length src")
  case True
  have "drop n dst = NUL # drop (Suc n) dst"
    using assms by (metis Cons_nth_drop_Suc)
  then show ?thesis
    using True assms(1) by (simp add: strncpy_def is_cstr_take)
next
  case False
  then have "take n (src @ replicate n NUL) = src @ NUL # replicate (n - length src - 1) NUL"
    by (cases "n - length src") (auto simp: take_Cons')
  then show ?thesis
    using False assms(1) by (simp add: strncpy_def)
qed

lemma nth_strncpy_last: "n < length dst \<Longrightarrow> strncpy dst src n ! n = dst ! n"
proof -
  assume "n < length dst"
  moreover have "length (take n (src @ replicate n NUL)) = n"
    by simp
  ultimately show ?thesis
    unfolding strncpy_def by (simp only: nth_append) simp
qed

lemma length_snprintf: "length (snprintf n s) \<le> n - 1"
  by (simp add: snprintf_def)

lemma snprintf_fits: "length s < n \<Longrightarrow> snprintf n s = s"
  by (simp add: snprintf_def)

lemma strncmp_eq_prefix: "n = length p \<Longrightarrow> strncmp_eq (p @ s) p n"
  by (simp add: strncmp_eq_def)

lemma length_hex2 [simp]: "length (hex2 b) = 2"
  by (simp add: hex2_def)

lemma hex_digit_in: "hex_digit d \<in> set ''0123456789abcdef''"
proof -
  have "d mod 16 < length ''0123456789abcdef''" by simp
  then show ?thesis unfolding hex_digit_def by (rule nth_mem)
qed

lemma hex_digit_class:
  "isalnum (hex_digit d)" "hex_digit d \<noteq> NUL" "\<not> isspace (hex_digit d)"
  using hex_digit_in [of d] by (auto simp: isalnum_def isspace_def)

lemma hex2_class: "c \<in> set (hex2 b) \<Longrightarrow> isalnum c \<and> c \<noteq> NUL \<and> \<not> isspace c"
  by (auto simp: hex2_def hex_digit_class)

lemma poke_all_ok:
  "i + length cs \<le> length buf \<Longrightarrow> poke_all buf i cs = Inr (take i buf @ cs @ drop (i + length cs) buf)"
proof (induction cs arbitrary: buf i)
  case Nil
  then show ?case by simp
next
  case (Cons c cs)
  then have "poke_all (buf[i := c]) (Suc i) cs =
      Inr (take (Suc i) (buf[i := c]) @ cs @ drop (Suc i + length cs) (buf[i := c]))"
    by simp
  with Cons.prems show ?case
    by (simp add: poke_def take_Suc_conv_app_nth)
qed

lemma poke_all_overflow:
  "cs \<noteq> [] \<Longrightarrow> length buf < i + length cs \<Longrightarrow> poke_all buf i cs = Inl Buffer_overflow"
proof (induction cs arbitrary: buf i)
  case Nil
  then show ?case by simp
next
  case (Cons c cs)
  show ?case
  proof (cases "i < length buf")
    case True
    with Cons.prems have "cs \<noteq> []" by auto
    with Cons.IH [of "buf[i := c]" "Suc i"] Cons.prems True show ?thesis
      by (simp add: poke_def)
  qed (simp add: poke_def)
qed

lemma map_sum_id_iff [simp]:
  "map_sum id f x = Inr y \<longleftrightarrow> (\<exists>z. x = Inr z \<and> y = f z)" "map_sum id f x = Inl e \<longleftrightarrow> x = Inl e"
  by (cases x; auto)+

lemma length_concat_const: "(\<And>x. x \<in> set xs \<Longrightarrow> length (f x) = k) \<Longrightarrow> length (concat (map f xs)) = k * length xs"
  by (induction xs) auto

end
