(* ===== verification/C_Scan.thy ===== *)
theory C_Scan
  imports Mesh_Prelude
begin

text \<open>
  The part of \<^verbatim>\<open>sscanf\<close> that the sources use to split a command line: literal characters,
  white space, \<^verbatim>\<open>%Ns\<close> and \<^verbatim>\<open>%N[^\n]\<close>, with or without a field width. The result is the
  list of assigned fields; its length is what \<^verbatim>\<open>sscanf\<close> returns when something was assigned.
\<close>

datatype directive =
    Lit char
  | Ws
  | Word_field "nat option"
  | Line_field "nat option"

definition upto :: "nat option \<Rightarrow> 'a list \<Rightarrow> 'a list" where
  "upto w xs = (case w of None \<Rightarrow> xs | Some n \<Rightarrow> take n xs)"

fun sscanf :: "directive list \<Rightarrow> string \<Rightarrow> string list" where
  "sscanf [] s = []"
| "sscanf (Lit c # ds) [] = []"
| "sscanf (Lit c # ds) (x # xs) = (if x = c then sscanf ds xs else [])"
| "sscanf (Ws # ds) s = sscanf ds (dropWhile isspace s)"
| "sscanf (Word_field w # ds) s =
     (let s' = dropWhile isspace s; tok = upto w (takeWhile (\<lambda>c. \<not> isspace c) s') in
      if tok = [] then [] else tok # sscanf ds (drop (length tok) s'))"
| "sscanf (Line_field w # ds) s =
     (let tok = upto w (takeWhile (\<lambda>c. c \<noteq> NL) s) in
      if tok = [] then [] else tok # sscanf ds (drop (length tok) s))"

abbreviation lits :: "string \<Rightarrow> directive list" where
  "lits s \<equiv> map Lit s"

text \<open>A word is what \<^verbatim>\<open>%s\<close> can read back: not empty and free of white space.\<close>

definition is_word :: "string \<Rightarrow> bool" where
  "is_word s = (s \<noteq> [] \<and> list_all (\<lambda>c. \<not> isspace c) s)"

section \<open>Lemmas\<close>

lemma sscanf_lits [simp]: "sscanf (lits p @ ds) (p @ s) = sscanf ds s"
  by (induction p) auto

lemma sscanf_lits_mismatch: "take (length p) s \<noteq> p \<Longrightarrow> sscanf (lits p @ ds) s = []"
proof (induction p arbitrary: s)
  case (Cons c p)
  then show ?case by (cases s) auto
qed simp

lemma isspace_blank [simp]: "isspace CHR '' ''"
  by (simp add: isspace_def)

lemma isspace_NL [simp]: "isspace NL"
  by (simp add: isspace_def)

lemma takeWhile_word: "list_all (\<lambda>c. \<not> isspace c) s \<Longrightarrow> takeWhile (\<lambda>c. \<not> isspace c) (s @ CHR '' '' # t) = s"
  by (induction s) auto

lemma takeWhile_word_end: "list_all (\<lambda>c. \<not> isspace c) s \<Longrightarrow> takeWhile (\<lambda>c. \<not> isspace c) s = s"
  by (induction s) auto

lemma dropWhile_word: "is_word s \<Longrightarrow> dropWhile isspace (s @ t) = s @ t"
  by (cases s) (auto simp: is_word_def)

lemma dropWhile_word_end: "is_word s \<Longrightarrow> dropWhile isspace s = s"
  by (cases s) (auto simp: is_word_def)

text \<open>A word of a command line followed by a blank, read with a width it fits.\<close>

lemma sscanf_word_blank:
  assumes "is_word s" "length s \<le> n"
  shows "sscanf (Word_field (Some n) # ds) (s @ CHR '' '' # t) = s # sscanf ds (CHR '' '' # t)"
proof -
  have "takeWhile (\<lambda>c. \<not> isspace c) (s @ CHR '' '' # t) = s" "s \<noteq> []"
    using assms(1) by (simp_all add: is_word_def takeWhile_word)
  with assms show ?thesis
    by (simp only: sscanf.simps Let_def upto_def option.case dropWhile_word) simp
qed

lemma sscanf_word_end:
  assumes "is_word s" "0 < n"
  shows "sscanf (Word_field (Some n) # ds) s = take n s # sscanf ds (drop n s)"
proof -
  have "takeWhile (\<lambda>c. \<not> isspace c) s = s" "s \<noteq> []"
    using assms(1) by (simp_all add: is_word_def takeWhile_word_end)
  then have "sscanf (Word_field (Some n) # ds) s = take n s # sscanf ds (drop (length (take n s)) s)"
    using assms by (simp only: sscanf.simps Let_def upto_def option.case dropWhile_word_end) simp
  then show ?thesis by (cases "length s \<le> n") simp_all
qed

lemma sscanf_ws_word:
  "is_word s \<Longrightarrow> sscanf (Ws # ds) (CHR '' '' # s) = sscanf ds s"
  "is_word s \<Longrightarrow> sscanf (Ws # ds) (CHR '' '' # s @ t) = sscanf ds (s @ t)"
  by (simp_all add: dropWhile_word_end dropWhile_word)

text \<open>Whatever the input, a field that was assigned respects its width and its character class.\<close>

lemma sscanf_word_hd:
  assumes "sscanf (Word_field (Some n) # ds) s = f # fs"
  shows "is_word f" "length f \<le> n" "fs = sscanf ds (drop (length f) (dropWhile isspace s))"
proof -
  let ?t = "takeWhile (\<lambda>c. \<not> isspace c) (dropWhile isspace s)"
  have f: "f = take n ?t" "f \<noteq> []"
    and fs: "fs = sscanf ds (drop (length f) (dropWhile isspace s))"
    using assms by (simp_all only: sscanf.simps Let_def upto_def option.case split: if_splits) auto
  have "list_all (\<lambda>c. \<not> isspace c) (take n ?t)"
    by (auto simp only: list_all_iff dest!: in_set_takeD set_takeWhileD)
  with f show "is_word f"
    by (simp add: is_word_def)
  show "length f \<le> n" unfolding f(1) by simp
  show "fs = sscanf ds (drop (length f) (dropWhile isspace s))" by (rule fs)
qed

lemma sscanf_line_hd:
  assumes "sscanf (Line_field (Some n) # ds) s = f # fs"
  shows "f \<noteq> []" "length f \<le> n" "NL \<notin> set f"
proof -
  have f: "f = take n (takeWhile (\<lambda>c. c \<noteq> NL) s)" "f \<noteq> []"
    using assms by (simp_all only: sscanf.simps Let_def upto_def option.case split: if_splits) auto
  show "f \<noteq> []" by (rule f(2))
  show "length f \<le> n" unfolding f(1) by simp
  show "NL \<notin> set f" unfolding f(1) by (blast dest: in_set_takeD set_takeWhileD)
qed

lemma sscanf_subset: "f \<in> set (sscanf ds s) \<Longrightarrow> set f \<subseteq> set s"
proof (induction ds s arbitrary: f rule: sscanf.induct)
  case (4 ds s)
  then show ?case by (auto dest: set_dropWhileD)
next
  case (5 w ds s)
  let ?s = "dropWhile isspace s" and ?tok = "upto w (takeWhile (\<lambda>c. \<not> isspace c) (dropWhile isspace s))"
  have "set ?tok \<subseteq> set ?s" "set (drop (length ?tok) ?s) \<subseteq> set ?s" "set ?s \<subseteq> set s"
    by (auto simp: upto_def split: option.splits dest: set_takeWhileD in_set_takeD in_set_dropD set_dropWhileD)
  with 5 show ?case by (simp add: Let_def split: if_splits) blast
next
  case (6 w ds s)
  let ?tok = "upto w (takeWhile (\<lambda>c. c \<noteq> NL) s)"
  have "set ?tok \<subseteq> set s" "set (drop (length ?tok) s) \<subseteq> set s"
    by (auto simp: upto_def split: option.splits dest: set_takeWhileD in_set_takeD in_set_dropD)
  with 6 show ?case by (simp add: Let_def split: if_splits) blast
qed (auto split: if_splits)

lemma sscanf_is_cstr: "is_cstr s \<Longrightarrow> f \<in> set (sscanf ds s) \<Longrightarrow> is_cstr f"
  using sscanf_subset [of f ds s] by (auto simp: is_cstr_def)

lemma sscanf_lits_fields:
  assumes "sscanf (lits p @ ds) s = f # fs"
  obtains t where "s = p @ t" "sscanf ds t = f # fs"
proof -
  have "take (length p) s = p"
    using assms sscanf_lits_mismatch [of p s ds] by (cases "take (length p) s = p") auto
  then have "s = p @ drop (length p) s" by (metis append_take_drop_id)
  with assms that [of "drop (length p) s"] show thesis by (metis sscanf_lits)
qed

lemma scan_word_line:
  assumes "is_word a" "length a \<le> n" "m \<noteq> []" "\<not> isspace (hd m)" "NL \<notin> set m" "upto v m = m"
  shows "sscanf (lits p @ [Ws, Word_field (Some n), Ws, Line_field v]) (p @ CHR '' '' # a @ CHR '' '' # m) = [a, m]"
proof -
  have "sscanf (lits p @ [Ws, Word_field (Some n), Ws, Line_field v]) (p @ CHR '' '' # a @ CHR '' '' # m) =
      sscanf [Ws, Word_field (Some n), Ws, Line_field v] (CHR '' '' # a @ CHR '' '' # m)"
    by (rule sscanf_lits)
  also have "\<dots> = sscanf [Word_field (Some n), Ws, Line_field v] (a @ CHR '' '' # m)"
    by (rule sscanf_ws_word(2)) (rule assms(1))
  also have "\<dots> = a # sscanf [Ws, Line_field v] (CHR '' '' # m)"
    by (rule sscanf_word_blank) (use assms in simp_all)
  also have "sscanf [Ws, Line_field v] (CHR '' '' # m) = [m]"
  proof -
    have "dropWhile isspace m = m" using assms(3,4) by (cases m) auto
    moreover have "takeWhile (\<lambda>c. c \<noteq> NL) m = m" using assms(5) by (auto simp: takeWhile_eq_all_conv)
    ultimately show ?thesis using assms(3,6) by (simp del: takeWhile_eq_all_conv)
  qed
  finally show ?thesis .
qed

lemma sscanf_command_word:
  assumes "sscanf (lits p @ [Ws, Word_field (Some n)]) s = [f]"
  shows "is_word f" "length f \<le> n"
proof -
  obtain t where "sscanf [Ws, Word_field (Some n)] t = [f]"
    using assms by (rule sscanf_lits_fields)
  then have "sscanf [Word_field (Some n)] (dropWhile isspace t) = [f]" by simp
  from sscanf_word_hd [OF this] show "is_word f" "length f \<le> n" by simp_all
qed

end
