(* ===== verification/Secure_Utils.thy ===== *)
theory Secure_Utils
  imports Mesh_Prelude C_Scan
begin

unbundle bit_operations_syntax

text \<open>
  The utilities at the head of \<^verbatim>\<open>src/src/server.c\<close>: wiping memory, comparing tokens,
  generating a token, validating nicknames and messages, and removing shell and markup characters
  from the input. Buffers are lists of cells and a write or read outside one is a fault.
\<close>

section \<open>Limits\<close>

definition TOKEN_LENGTH :: nat where "TOKEN_LENGTH = 64"
definition MAX_NICK_LENGTH :: nat where "MAX_NICK_LENGTH = 31"
definition MAX_MESSAGE_LENGTH :: nat where "MAX_MESSAGE_LENGTH = 2048"

lemmas limit_defs = TOKEN_LENGTH_def MAX_NICK_LENGTH_def MAX_MESSAGE_LENGTH_def

section \<open>Operations\<close>

text \<open>\<open>secure_memzero z p n\<close>: the byte loop; \<open>z\<close> is the zero of the cell type.\<close>

fun memzero_loop :: "'a \<Rightarrow> 'a list \<Rightarrow> nat \<Rightarrow> nat \<Rightarrow> fault + 'a list" where
  "memzero_loop z v p 0 = Inr v"
| "memzero_loop z v p (Suc n) =
     (if p < length v then memzero_loop z (v[p := z]) (Suc p) n else Inl Buffer_overflow)"

definition secure_memzero :: "'a \<Rightarrow> 'a list \<Rightarrow> nat \<Rightarrow> fault + 'a list" where
  "secure_memzero z v n = memzero_loop z v 0 n"

definition byte_of :: "char \<Rightarrow> byte" where
  "byte_of c = word_of_nat (of_char c)"

text \<open>The loop of \<open>constant_time_compare\<close> over the arrays, \<open>k\<close> iterations to go at index \<open>i\<close>.\<close>

fun compare_loop :: "char list \<Rightarrow> char list \<Rightarrow> nat \<Rightarrow> nat \<Rightarrow> byte \<Rightarrow> fault + byte" where
  "compare_loop a b i 0 result = Inr result"
| "compare_loop a b i (Suc k) result =
     (if i < length a \<and> i < length b
      then compare_loop a b (Suc i) k (result OR (byte_of (a ! i) XOR byte_of (b ! i)))
      else Inl Out_of_bounds_read)"

definition constant_time_compare :: "char list \<Rightarrow> char list \<Rightarrow> nat \<Rightarrow> fault + bool" where
  "constant_time_compare a b len = map_sum id (\<lambda>r. r = 0) (compare_loop a b 0 len 0)"

text \<open>
  The result of \<^verbatim>\<open>RAND_bytes\<close>: its return value and the bytes it wrote. The callers test
  \<^verbatim>\<open>!RAND_bytes(...)\<close>, so only 0 counts as failure.
\<close>

type_synonym rand_result = "int \<times> byte list"

text \<open>
  The formatting loop of \<open>generate_secure_token\<close>: \<^verbatim>\<open>snprintf(buffer + i * 2, 3, "%02x", b)\<close>
  writes two digits and a NUL.
\<close>

fun token_loop :: "char list \<Rightarrow> nat \<Rightarrow> byte list \<Rightarrow> fault + char list" where
  "token_loop buf i [] = Inr buf"
| "token_loop buf i (b # bs) =
     (case poke_all buf (i * 2) (hex2 b @ [NUL]) of
        Inl e \<Rightarrow> Inl e
      | Inr buf' \<Rightarrow> token_loop buf' (Suc i) bs)"

definition generate_secure_token :: "rand_result \<Rightarrow> char list \<Rightarrow> nat \<Rightarrow> fault + bool \<times> char list" where
  "generate_secure_token rnd buffer len =
     (if len < TOKEN_LENGTH + 1 then Inr (False, buffer)
      else if fst rnd = 0 then Inr (False, buffer)
      else case token_loop buffer 0 (snd rnd) of
             Inl e \<Rightarrow> Inl e
           | Inr buf \<Rightarrow> map_sum id (\<lambda>b. (True, b)) (poke buf TOKEN_LENGTH NUL))"

definition nick_char :: "char \<Rightarrow> bool" where
  "nick_char c = (isalnum c \<or> c = CHR ''_'' \<or> c = CHR ''-'' \<or> c = CHR ''.'')"

definition forbidden :: "string list" where
  "forbidden = [''admin'', ''root'', ''system'', ''server'', ''null'', ''undefined'']"

definition validate_nickname :: "string \<Rightarrow> bool" where
  "validate_nickname nick =
     (let len = strnlen nick MAX_NICK_LENGTH in
      if len < 3 \<or> len > MAX_NICK_LENGTH then False
      else if \<not> list_all nick_char (take len nick) then False
      else \<not> list_ex (strcasecmp_eq nick) forbidden)"

definition validate_message :: "string \<Rightarrow> bool" where
  "validate_message message =
     (let len = strnlen message MAX_MESSAGE_LENGTH in len > 0 \<and> len \<le> MAX_MESSAGE_LENGTH)"

definition unsafe_char :: "char \<Rightarrow> bool" where
  "unsafe_char c = (c = CHR ''<'' \<or> c = CHR ''>'' \<or> c = CHR 0x22 \<or> c = CHR 0x27 \<or>
     c = CHR 0x5C \<or> c = CHR '';'' \<or> c = CHR ''&'' \<or> c = CHR ''|'')"

text \<open>The two pointers of \<open>sanitize_input\<close> as indices into the one buffer they walk over.\<close>

function sanitize_loop :: "char list \<Rightarrow> nat \<Rightarrow> nat \<Rightarrow> fault + char list" where
  "sanitize_loop str src dst =
     (if src < length str then
        if str ! src = NUL then Inr (str[dst := NUL])
        else if unsafe_char (str ! src) then sanitize_loop str (Suc src) dst
        else sanitize_loop (str[dst := str ! src]) (Suc src) (Suc dst)
      else Inl Out_of_bounds_read)"
  by pat_completeness auto
termination
  by (relation "measure (\<lambda>(str, src, dst). length str - src)") auto

declare sanitize_loop.simps [simp del]

definition sanitize_input :: "char list \<Rightarrow> fault + char list" where
  "sanitize_input str = sanitize_loop str 0 0"

section \<open>Wiping\<close>

lemma memzero_loop_ok:
  "p + n \<le> length v \<Longrightarrow> memzero_loop z v p n = Inr (take p v @ replicate n z @ drop (p + n) v)"
proof (induction n arbitrary: v p)
  case (Suc n)
  then have "memzero_loop z (v[p := z]) (Suc p) n =
      Inr (take (Suc p) (v[p := z]) @ replicate n z @ drop (Suc p + n) (v[p := z]))"
    by simp
  with Suc.prems show ?case
    by (simp add: take_Suc_conv_app_nth)
qed simp

lemma secure_memzero_all [simp]: "secure_memzero z v (length v) = Inr (replicate (length v) z)"
  by (simp add: secure_memzero_def memzero_loop_ok)

section \<open>Comparing\<close>

lemma byte_of_eq [simp]: "byte_of c = byte_of d \<longleftrightarrow> c = d"
proof
  assume "byte_of c = byte_of d"
  then have "unat (byte_of c) = unat (byte_of d)" by simp
  then have "of_char c = (of_char d :: nat)"
    by (simp add: byte_of_def unat_of_nat)
  then show "c = d" by simp
qed simp

lemma word_xor_eq_0: "(x XOR y = 0) = (x = (y :: byte))"
  by (metis xor.assoc xor.right_neutral xor_self_eq)

lemma word_or_eq_0: "(x OR y = 0) = (x = 0 \<and> y = (0 :: byte))"
  by (metis or.right_neutral or_eq_0_iff)

lemma compare_loop_eq:
  "i + k \<le> length a \<Longrightarrow> i + k \<le> length b \<Longrightarrow>
   \<exists>r'. compare_loop a b i k r = Inr r' \<and> (r' = 0 \<longleftrightarrow> r = 0 \<and> take k (drop i a) = take k (drop i b))"
proof (induction k arbitrary: i r)
  case (Suc k)
  let ?r = "r OR (byte_of (a ! i) XOR byte_of (b ! i))"
  obtain r' where r': "compare_loop a b (Suc i) k ?r = Inr r'"
    "r' = 0 \<longleftrightarrow> ?r = 0 \<and> take k (drop (Suc i) a) = take k (drop (Suc i) b)"
    using Suc.IH [of "Suc i" ?r] Suc.prems by auto
  have "drop i a = a ! i # drop (Suc i) a" "drop i b = b ! i # drop (Suc i) b"
    using Suc.prems by (simp_all add: Cons_nth_drop_Suc)
  with r' Suc.prems show ?case
    by (auto simp: word_or_eq_0 word_xor_eq_0)
qed simp

lemma constant_time_compare_eq:
  assumes "len \<le> length a" "len \<le> length b"
  shows "constant_time_compare a b len = Inr (take len a = take len b)"
proof -
  obtain r where "compare_loop a b 0 len 0 = Inr r" "r = 0 \<longleftrightarrow> take len a = take len b"
    using compare_loop_eq [of 0 len a b 0] assms by auto
  then show ?thesis by (simp add: constant_time_compare_def)
qed

text \<open>On C strings the loop also reads the terminator, so one length more is still in bounds.\<close>

lemma constant_time_compare_cstr:
  assumes "is_cstr a" "is_cstr b" "length b \<le> length a"
  shows "constant_time_compare (a @ [NUL]) (b @ [NUL]) (length b) = Inr (take (length b) a = b)"
  using assms by (simp add: constant_time_compare_eq)

section \<open>Tokens\<close>

lemma token_loop_ok:
  "bs \<noteq> [] \<Longrightarrow> 2 * (i + length bs) < length buf \<Longrightarrow>
   token_loop buf i bs =
     Inr (take (2 * i) buf @ concat (map hex2 bs) @ NUL # drop (Suc (2 * (i + length bs))) buf)"
proof (induction bs arbitrary: buf i)
  case (Cons b bs)
  let ?buf = "take (2 * i) buf @ hex2 b @ NUL # drop (2 * i + 3) buf"
  have poke: "poke_all buf (i * 2) (hex2 b @ [NUL]) = Inr ?buf"
    using Cons.prems by (simp add: poke_all_ok mult.commute)
  show ?case
  proof (cases "bs = []")
    case True
    with poke show ?thesis by (simp add: numeral_3_eq_3)
  next
    case False
    have "2 * (Suc i + length bs) < length ?buf"
      using Cons.prems by simp
    then have "token_loop ?buf (Suc i) bs =
        Inr (take (2 * Suc i) ?buf @ concat (map hex2 bs) @ NUL # drop (Suc (2 * (Suc i + length bs))) ?buf)"
      using Cons.IH False by blast
    moreover have "take (2 * Suc i) ?buf = take (2 * i) buf @ hex2 b"
      using Cons.prems by (simp add: min_def)
    moreover have "drop (Suc (2 * (Suc i + length bs))) ?buf = drop (Suc (2 * (i + length (b # bs)))) buf"
      using Cons.prems False by (cases bs) (simp_all add: min_def drop_Cons' add.commute numeral_3_eq_3)
    ultimately show ?thesis using poke by simp
  qed
qed simp

lemma token_loop_overflow:
  "bs \<noteq> [] \<Longrightarrow> length buf \<le> 2 * (i + length bs) \<Longrightarrow> token_loop buf i bs = Inl Buffer_overflow"
proof (induction bs arbitrary: buf i)
  case (Cons b bs)
  show ?case
  proof (cases "2 * i + 3 \<le> length buf")
    case True
    then have poke: "poke_all buf (i * 2) (hex2 b @ [NUL]) =
        Inr (take (2 * i) buf @ hex2 b @ NUL # drop (2 * i + 3) buf)" (is "_ = Inr ?buf")
      by (simp add: poke_all_ok mult.commute)
    have "length ?buf = length buf"
      using True by simp
    moreover have "bs \<noteq> []"
      using True Cons.prems by auto
    ultimately have "token_loop ?buf (Suc i) bs = Inl Buffer_overflow"
      using Cons.IH [of ?buf "Suc i"] Cons.prems by simp
    with poke show ?thesis by simp
  next
    case False
    then have "poke_all buf (i * 2) (hex2 b @ [NUL]) = Inl Buffer_overflow"
      by (intro poke_all_overflow) (simp_all add: mult.commute)
    then show ?thesis by simp
  qed
qed simp

section \<open>Validation\<close>

lemma validate_message_iff: "validate_message m \<longleftrightarrow> m \<noteq> []"
  by (auto simp: validate_message_def strnlen_def Let_def limit_defs)

lemma validate_nickname_iff:
  "length nick \<le> MAX_NICK_LENGTH \<Longrightarrow>
   validate_nickname nick \<longleftrightarrow>
     3 \<le> length nick \<and> list_all nick_char nick \<and> map tolower nick \<notin> set forbidden"
proof -
  assume "length nick \<le> MAX_NICK_LENGTH"
  moreover have "list_ex (strcasecmp_eq nick) forbidden \<longleftrightarrow> map tolower nick \<in> set forbidden"
    by (simp add: forbidden_def strcasecmp_eq_def tolower_def)
  ultimately show ?thesis
    by (auto simp: validate_nickname_def strnlen_def Let_def)
qed

lemma nick_char_not_unsafe: "nick_char c \<Longrightarrow> \<not> unsafe_char c \<and> \<not> isspace c \<and> c \<noteq> NUL"
  by (auto simp: nick_char_def unsafe_char_def isalnum_def isspace_def Let_def)

section \<open>Sanitizing\<close>

lemma cstr_drop_cons:
  "i < length s \<Longrightarrow> s ! i \<noteq> NUL \<Longrightarrow> cstr (drop i s) = s ! i # cstr (drop (Suc i) s)"
  by (simp add: cstr_def Cons_nth_drop_Suc [symmetric])

lemma cstr_drop_nul: "i < length s \<Longrightarrow> s ! i = NUL \<Longrightarrow> cstr (drop i s) = []"
  by (simp add: cstr_def Cons_nth_drop_Suc [symmetric])

lemma sanitize_loop_correct:
  "dst \<le> src \<Longrightarrow> NUL \<in> set (drop src str) \<Longrightarrow>
   \<exists>str'. sanitize_loop str src dst = Inr str' \<and> length str' = length str \<and>
     take dst str' = take dst str \<and>
     cstr (drop dst str') = filter (\<lambda>c. \<not> unsafe_char c) (cstr (drop src str)) \<and>
     NUL \<in> set (drop dst str')"
proof (induction str src dst rule: sanitize_loop.induct)
  case (1 str src dst)
  have src: "src < length str"
    using "1.prems"(2) by (cases "src < length str") auto
  have hd: "drop src str = str ! src # drop (Suc src) str"
    using src by (simp add: Cons_nth_drop_Suc)
  consider (stop) "str ! src = NUL" | (skip) "str ! src \<noteq> NUL" "unsafe_char (str ! src)"
    | (copy) "str ! src \<noteq> NUL" "\<not> unsafe_char (str ! src)" by blast
  then show ?case
  proof cases
    case stop
    have "drop dst (str[dst := NUL]) = NUL # drop (Suc dst) str"
      using src "1.prems"(1) by (simp add: Cons_nth_drop_Suc [symmetric])
    with stop src "1.prems"(1) show ?thesis
      by (simp add: sanitize_loop.simps [of str src dst] cstr_drop_nul) (simp add: cstr_def)
  next
    case skip
    have "NUL \<in> set (drop (Suc src) str)"
      using "1.prems"(2) skip hd by auto
    with "1.IH"(1) src skip "1.prems"(1) show ?thesis
      by (simp add: sanitize_loop.simps [of str src dst] cstr_drop_cons)
  next
    case copy
    let ?str = "str[dst := str ! src]"
    have "NUL \<in> set (drop (Suc src) ?str)"
      using "1.prems" copy hd by auto
    then obtain str' where str': "sanitize_loop ?str (Suc src) (Suc dst) = Inr str'"
      "length str' = length str" "take (Suc dst) str' = take (Suc dst) ?str"
      "cstr (drop (Suc dst) str') = filter (\<lambda>c. \<not> unsafe_char c) (cstr (drop (Suc src) str))"
      "NUL \<in> set (drop (Suc dst) str')"
      using "1.IH"(2) src copy "1.prems"(1) by auto
    have dst: "dst < length str'" using src "1.prems"(1) str'(2) by simp
    have at: "str' ! dst = str ! src"
    proof -
      have "take (Suc dst) str' ! dst = take (Suc dst) ?str ! dst" using str'(3) by simp
      then show ?thesis using dst str'(2) by simp
    qed
    have front: "take dst str' = take dst str"
    proof -
      have "take dst (take (Suc dst) str') = take dst (take (Suc dst) ?str)" using str'(3) by simp
      then show ?thesis by simp
    qed
    show ?thesis
      using str' copy src dst at front
      by (simp add: sanitize_loop.simps [of str src dst] cstr_drop_cons)
        (simp add: Cons_nth_drop_Suc [symmetric])
  qed
qed

lemma sanitize_input_cstr:
  assumes "NUL \<in> set str"
  obtains str' where "sanitize_input str = Inr str'" "length str' = length str" "NUL \<in> set str'"
    "cstr str' = filter (\<lambda>c. \<not> unsafe_char c) (cstr str)"
  using sanitize_loop_correct [of 0 0 str] assms that unfolding sanitize_input_def by auto

section \<open>Lemmas of the properties\<close>

lemma compare_loop_short:
  "length a < i + k \<or> length b < i + k \<Longrightarrow> i \<le> length a \<Longrightarrow> i \<le> length b \<Longrightarrow>
   compare_loop a b i k r = Inl Out_of_bounds_read"
proof (induction k arbitrary: i r)
  case (Suc k)
  then show ?case by (cases "i < length a \<and> i < length b") auto
qed simp

lemma cstr_hex: "is_cstr (concat (map hex2 bs))"
  by (auto simp: is_cstr_def dest: hex2_class)

lemma take_hex: "take (2 * k) (concat (map hex2 bs)) = concat (map hex2 (take k bs))"
proof (induction bs arbitrary: k)
  case (Cons b bs)
  then show ?case by (cases k) (simp_all add: hex2_def)
qed simp

lemma token_array_ok:
  assumes "length bs = 64" "129 \<le> length buffer"
  shows "\<exists>buf. token_loop buffer 0 bs = Inr buf \<and> cstr (buf[64 := NUL]) = concat (map hex2 (take 32 bs)) \<and> 64 < length buf"
proof -
  let ?h = "concat (map hex2 bs)"
  let ?buf = "?h @ NUL # drop 129 buffer"
  have "bs \<noteq> []" using assms(1) by auto
  then have loop: "token_loop buffer 0 bs = Inr ?buf"
    using token_loop_ok [of bs 0 buffer] assms by simp
  have len: "length ?h = 128" using assms(1) by (simp add: length_concat_const)
  then have "?buf[64 := NUL] = take 64 ?h @ NUL # drop 65 ?buf"
    using upd_conv_take_nth_drop [of 64 ?buf NUL] by simp
  moreover have "take 64 ?h = concat (map hex2 (take 32 bs))"
    using take_hex [of 32 bs] by simp
  ultimately have "cstr (?buf[64 := NUL]) = concat (map hex2 (take 32 bs))"
    by (simp add: cstr_hex)
  with loop len show ?thesis by auto
qed

section \<open>Properties\<close>

text \<open>
  C11. Removing unsafe characters in place is the filter it is meant to be: on a buffer that holds a NUL,
  \<open>sanitize_input\<close> stays inside the buffer and leaves the string of the safe characters in their
  order, still terminated.
\<close>

theorem sanitize_input_refines:
  assumes "NUL \<in> set str"
  shows "\<exists>str'. sanitize_input str = Inr str' \<and> length str' = length str \<and> NUL \<in> set str' \<and>
    cstr str' = filter (\<lambda>c. \<not> unsafe_char c) (cstr str)"
  using sanitize_input_cstr [OF assms] by metis

theorem sanitize_input_refines_witness:
  "\<exists>str'. sanitize_input (''a<b;c'' @ [NUL]) = Inr str' \<and> length str' = 6 \<and> NUL \<in> set str' \<and> cstr str' = ''abc''"
  using sanitize_input_refines [of "''a<b;c'' @ [NUL]"] by (simp add: cstr_def unsafe_char_def numeral_eq_Suc)

text \<open>
  The constant-time comparison decides equality of the first \<open>len\<close> bytes, for every pair of arrays
  that have that many, and reads out of bounds otherwise: the accumulated XOR loses nothing.
\<close>

theorem constant_time_compare_correct:
  "constant_time_compare a b len =
     (if len \<le> length a \<and> len \<le> length b then Inr (take len a = take len b)
      else Inl Out_of_bounds_read)"
proof (cases "len \<le> length a \<and> len \<le> length b")
  case False
  then have "compare_loop a b 0 len 0 = Inl Out_of_bounds_read"
    by (intro compare_loop_short) auto
  with False show ?thesis by (auto simp: constant_time_compare_def)
qed (simp add: constant_time_compare_eq)

text \<open>
  A nickname that validation accepts passes unchanged through everything the server does with it:
  sanitizing keeps it, \<^verbatim>\<open>%31s\<close> reads it as one word, it holds no quote that could end a JSON
  string, and it is not a reserved name in any case.
\<close>

theorem valid_nickname_survives:
  assumes "validate_nickname nick" "length nick \<le> 31" "rest = NUL # r"
  shows "3 \<le> length nick \<and> map tolower nick \<notin> set forbidden \<and> is_word nick \<and> CHR 0x22 \<notin> set nick \<and>
    (\<exists>str'. sanitize_input (nick @ rest) = Inr str' \<and> cstr str' = nick)"
proof -
  have nick: "3 \<le> length nick" "list_all nick_char nick" "map tolower nick \<notin> set forbidden"
    using assms validate_nickname_iff by (auto simp: MAX_NICK_LENGTH_def)
  have inert: "c \<in> set nick \<Longrightarrow> \<not> unsafe_char c \<and> \<not> isspace c \<and> c \<noteq> NUL" for c
    using nick(2) nick_char_not_unsafe by (auto simp: list_all_iff)
  then have "is_cstr nick" "is_word nick" "CHR 0x22 \<notin> set nick"
    using nick(1) by (force simp: is_cstr_def is_word_def list_all_iff unsafe_char_def)+
  moreover from this inert obtain str' where "sanitize_input (nick @ rest) = Inr str'" "cstr str' = nick"
    using sanitize_input_cstr [of "nick @ rest"] assms(3) by (auto simp: filter_id_conv)
  ultimately show ?thesis using nick by blast
qed

theorem valid_nickname_survives_witness:
  "is_word ''alice'' \<and> (\<exists>str'. sanitize_input (''alice'' @ [NUL]) = Inr str' \<and> cstr str' = ''alice'')"
proof -
  have "validate_nickname ''alice''" by code_simp
  then show ?thesis using valid_nickname_survives [of "''alice''" "[NUL]" "[]"] by simp
qed

text \<open>
  Printing the token takes 129 bytes. Below that, in particular in the 65 bytes that registration
  passes with the length it checks, the loop writes past the array; with room enough the token is
  the 64 hex digits of the first 32 random bytes.
\<close>

theorem token_needs_129_bytes:
  assumes "fst rnd \<noteq> 0" "length (snd rnd) = 64" "65 \<le> len" "len \<le> length buffer"
  shows "if length buffer < 129 then generate_secure_token rnd buffer len = Inl Buffer_overflow
    else \<exists>buf. generate_secure_token rnd buffer len = Inr (True, buf) \<and>
      cstr buf = concat (map hex2 (take 32 (snd rnd)))"
proof (cases "length buffer < 129")
  case True
  then have "token_loop buffer 0 (snd rnd) = Inl Buffer_overflow"
    by (intro token_loop_overflow) (use assms(2) in auto)
  with True assms show ?thesis by (simp add: generate_secure_token_def TOKEN_LENGTH_def)
next
  case False
  then obtain buf where "token_loop buffer 0 (snd rnd) = Inr buf" "64 < length buf"
    "cstr (buf[64 := NUL]) = concat (map hex2 (take 32 (snd rnd)))"
    using token_array_ok [OF assms(2), of buffer] by (auto simp: not_less)
  with False assms show ?thesis
    by (auto simp: generate_secure_token_def TOKEN_LENGTH_def poke_def)
qed

theorem token_needs_129_bytes_witness:
  "generate_secure_token (1, replicate 64 0) (replicate 65 NUL) 65 = Inl Buffer_overflow"
  using token_needs_129_bytes [of "(1, replicate 64 0)" 65 "replicate 65 NUL"] by simp

end
