(* ===== verification/Server_State.thy ===== *)
theory Server_State
  imports Secure_Utils
begin

text \<open>
  The data of \<^verbatim>\<open>src/src/server.c\<close>: its limits, its structs as records (fixed arrays as
  lists of cells, pointers to library objects as optional handles, \<^verbatim>\<open>int\<close> flags used only
  as truth values as \<open>bool\<close>), the zeroed initial state of the static variable
  \<^verbatim>\<open>server\<close>, and the world in which the handlers run: the server state, the database and
  the trace of calls to the outside.
\<close>

section \<open>Limits\<close>

definition BUFFER_SIZE :: nat where "BUFFER_SIZE = 8192"
definition MAX_CLIENTS :: nat where "MAX_CLIENTS = 1000"
definition MAX_RATE_LIMIT :: nat where "MAX_RATE_LIMIT = 10"
definition RATE_LIMIT_WINDOW :: int where "RATE_LIMIT_WINDOW = 60"
definition CONNECTION_TIMEOUT :: int where "CONNECTION_TIMEOUT = 300"
definition MASTER_KEY_LENGTH :: nat where "MASTER_KEY_LENGTH = 32"
definition QUANTUM_KEY_LENGTH :: nat where "QUANTUM_KEY_LENGTH = 64"
definition AUDIT_SLOTS :: nat where "AUDIT_SLOTS = 1000"
definition INET6_ADDRSTRLEN :: nat where "INET6_ADDRSTRLEN = 46"

section \<open>Structs\<close>

record sockaddr_in =
  sin_family :: uint16
  sin_port :: uint16
  sin_addr :: uint32

record quantum_keypair_t =
  qk_traditional_key :: "byte list"
  qk_quantum_resistant :: "byte list"
  qk_combined_key :: "byte list"
  qk_key_generation_time :: time_t
  qk_key_id :: uint64

record ip_reputation_t =
  ir_ip :: "char list"
  ir_threat_score :: uint32
  ir_first_seen :: time_t
  ir_last_seen :: time_t
  ir_connection_attempts :: uint32
  ir_behavior_flags :: byte
  ir_country_code :: "char list"
  ir_asn :: "char list"
  ir_is_tor_exit :: int
  ir_is_vpn :: int
  ir_is_proxy :: int

record secure_peer_t =
  pr_peer_id :: "char list"
  pr_addr :: sockaddr_in
  pr_last_seen :: time_t
  pr_public_key :: "byte list"
  pr_quantum_key :: "byte list"
  pr_is_connected :: bool
  pr_latency :: uint32
  pr_bandwidth :: uint64
  pr_relay_node :: int
  pr_geo_location :: "char list"

record secure_network_t =
  nw_peers :: "secure_peer_t list"
  nw_count :: nat
  nw_network_id :: uint32
  nw_network_key :: "byte list"

record secure_config_t =
  cf_db_path :: "char list"
  cf_max_ip_connections :: int
  cf_enable_ratelimit :: int
  cf_enable_tor :: int
  cf_enable_obfuscation :: int
  cf_encryption_mode :: int
  cf_enable_quantum :: int
  cf_enable_honeypot :: int
  cf_enable_ip_intel :: int
  cf_enable_audit_log :: int
  cf_enable_memory_protection :: int
  cf_tor_proxy :: "char list"
  cf_i2p_proxy :: "char list"
  cf_security_level :: uint32

record advanced_rate_limit_t =
  rl_window_start :: time_t
  rl_count :: nat
  rl_penalty_score :: uint32
  rl_penalty_until :: time_t
  rl_behavior_pattern :: "char list"

record audit_log_t =
  al_event_type :: "char list"
  al_user_nick :: "char list"
  al_ip_address :: "char list"
  al_details :: "char list"
  al_timestamp :: time_t
  al_hash :: "byte list"

record secure_client_t =
  c_fd :: int
  c_ssl :: "nat option"
  c_nick :: "char list"
  c_token :: "char list"
  c_session_key :: "byte list"
  c_chacha_key :: "byte list"
  c_twofish_key :: "byte list"
  c_quantum_key :: "byte list"
  c_authorized :: bool
  c_connect_time :: time_t
  c_last_activity :: time_t
  c_addr :: sockaddr_in
  c_rate_limit :: advanced_rate_limit_t
  c_store :: "nat option"
  c_cipher :: "nat option"
  c_reg_id :: uint32
  c_peer_id :: "char list"
  c_public_key :: "byte list"
  c_shared_secret :: "byte list"
  c_is_p2p_connected :: int
  c_p2p_addr :: sockaddr_in
  c_ip_reputation :: ip_reputation_t
  c_quantum_keys :: quantum_keypair_t
  c_security_level :: int
  c_session_id :: uint64
  c_session_token :: "byte list"
  c_two_factor_enabled :: int
  c_two_factor_secret :: "char list"

record ultra_server_state_t =
  s_clients :: "secure_client_t list"
  s_ssl_ctx :: "nat option"
  s_db :: "nat option"
  s_running :: bool
  s_config :: secure_config_t
  s_epoll_fd :: int
  s_p2p :: secure_network_t
  s_global_ctx :: "nat option"
  s_master_key :: "byte list"
  s_quantum_master_key :: "byte list"
  s_audit_logs :: "audit_log_t list"
  s_audit_log_count :: nat
  s_honeypot_fd :: int
  s_total_connections :: uint64
  s_blocked_attacks :: uint64
  s_server_start_time :: time_t

section \<open>Zeroed objects\<close>

abbreviation zeros :: "nat \<Rightarrow> byte list" where "zeros n \<equiv> replicate n 0"
abbreviation nuls :: "nat \<Rightarrow> char list" where "nuls n \<equiv> replicate n NUL"

definition zero_addr :: sockaddr_in where
  "zero_addr = \<lparr>sin_family = 0, sin_port = 0, sin_addr = 0\<rparr>"

definition zero_rate_limit :: advanced_rate_limit_t where
  "zero_rate_limit = \<lparr>rl_window_start = 0, rl_count = 0, rl_penalty_score = 0, rl_penalty_until = 0,
     rl_behavior_pattern = nuls 256\<rparr>"

definition zero_reputation :: ip_reputation_t where
  "zero_reputation = \<lparr>ir_ip = nuls INET6_ADDRSTRLEN, ir_threat_score = 0, ir_first_seen = 0,
     ir_last_seen = 0, ir_connection_attempts = 0, ir_behavior_flags = 0, ir_country_code = nuls 3,
     ir_asn = nuls 16, ir_is_tor_exit = 0, ir_is_vpn = 0, ir_is_proxy = 0\<rparr>"

definition zero_keypair :: quantum_keypair_t where
  "zero_keypair = \<lparr>qk_traditional_key = zeros 32, qk_quantum_resistant = zeros QUANTUM_KEY_LENGTH,
     qk_combined_key = zeros 96, qk_key_generation_time = 0, qk_key_id = 0\<rparr>"

definition zero_peer :: secure_peer_t where
  "zero_peer = \<lparr>pr_peer_id = nuls 64, pr_addr = zero_addr, pr_last_seen = 0, pr_public_key = zeros 32,
     pr_quantum_key = zeros QUANTUM_KEY_LENGTH, pr_is_connected = False, pr_latency = 0,
     pr_bandwidth = 0, pr_relay_node = 0, pr_geo_location = nuls 3\<rparr>"

definition zero_config :: secure_config_t where
  "zero_config = \<lparr>cf_db_path = nuls 256, cf_max_ip_connections = 0, cf_enable_ratelimit = 0,
     cf_enable_tor = 0, cf_enable_obfuscation = 0, cf_encryption_mode = 0, cf_enable_quantum = 0,
     cf_enable_honeypot = 0, cf_enable_ip_intel = 0, cf_enable_audit_log = 0,
     cf_enable_memory_protection = 0, cf_tor_proxy = nuls 256, cf_i2p_proxy = nuls 256,
     cf_security_level = 0\<rparr>"

definition zero_log :: audit_log_t where
  "zero_log = \<lparr>al_event_type = nuls 32, al_user_nick = nuls MAX_NICK_LENGTH,
     al_ip_address = nuls INET6_ADDRSTRLEN, al_details = nuls 512, al_timestamp = 0, al_hash = zeros 32\<rparr>"

text \<open>What \<^verbatim>\<open>memset(client, 0, sizeof(secure_client_t))\<close> leaves.\<close>

definition zero_client :: secure_client_t where
  "zero_client = \<lparr>c_fd = 0, c_ssl = None, c_nick = nuls (MAX_NICK_LENGTH + 1),
     c_token = nuls (TOKEN_LENGTH + 1), c_session_key = zeros 32, c_chacha_key = zeros 32,
     c_twofish_key = zeros 32, c_quantum_key = zeros QUANTUM_KEY_LENGTH, c_authorized = False,
     c_connect_time = 0, c_last_activity = 0, c_addr = zero_addr, c_rate_limit = zero_rate_limit,
     c_store = None, c_cipher = None, c_reg_id = 0, c_peer_id = nuls 64, c_public_key = zeros 32,
     c_shared_secret = zeros 32, c_is_p2p_connected = 0, c_p2p_addr = zero_addr,
     c_ip_reputation = zero_reputation, c_quantum_keys = zero_keypair, c_security_level = 0,
     c_session_id = 0, c_session_token = zeros 32, c_two_factor_enabled = 0,
     c_two_factor_secret = nuls 16\<rparr>"

text \<open>\<^verbatim>\<open>static ultra_server_state_t server = {0};\<close>\<close>

definition server_init :: ultra_server_state_t where
  "server_init = \<lparr>s_clients = replicate MAX_CLIENTS zero_client, s_ssl_ctx = None, s_db = None,
     s_running = False, s_config = zero_config, s_epoll_fd = 0,
     s_p2p = \<lparr>nw_peers = replicate MAX_CLIENTS zero_peer, nw_count = 0, nw_network_id = 0,
       nw_network_key = zeros 32\<rparr>,
     s_global_ctx = None, s_master_key = zeros MASTER_KEY_LENGTH,
     s_quantum_master_key = zeros QUANTUM_KEY_LENGTH,
     s_audit_logs = replicate AUDIT_SLOTS zero_log, s_audit_log_count = 0, s_honeypot_fd = 0,
     s_total_connections = 0, s_blocked_attacks = 0, s_server_start_time = 0\<rparr>"

section \<open>The world of the handlers\<close>

text \<open>
  Calls whose effect is outside the server state, in the order they are made. A handle is the
  number of the library object; \<^verbatim>\<open>Ssl_safe_write\<close> is a call of the function of that name.
\<close>

datatype mutex_name = Audit_mutex | P2p_mutex

datatype event =
    Ssl_safe_write "nat option" string
  | Ssl_shutdown nat
  | Ssl_free nat
  | Close_fd int
  | Cipher_free nat
  | Store_destroy nat
  | Ssl_ctx_free nat
  | Db_close nat
  | Signal_ctx_destroy nat
  | Mutex_lock mutex_name
  | Mutex_unlock mutex_name
  | Thread_create nat

record 'db world =
  w_srv :: ultra_server_state_t
  w_db :: 'db
  w_trace :: "event list"

abbreviation client :: "'db world \<Rightarrow> nat \<Rightarrow> secure_client_t" where
  "client w i \<equiv> s_clients (w_srv w) ! i"

definition emit :: "event list \<Rightarrow> 'db world \<Rightarrow> 'db world" where
  "emit es w = w\<lparr>w_trace := w_trace w @ es\<rparr>"

definition set_client :: "nat \<Rightarrow> secure_client_t \<Rightarrow> 'db world \<Rightarrow> 'db world" where
  "set_client i c w = w\<lparr>w_srv := (w_srv w)\<lparr>s_clients := (s_clients (w_srv w))[i := c]\<rparr>\<rparr>"

definition set_srv :: "ultra_server_state_t \<Rightarrow> 'db world \<Rightarrow> 'db world" where
  "set_srv s w = w\<lparr>w_srv := s\<rparr>"

definition set_db :: "'db \<Rightarrow> 'db world \<Rightarrow> 'db world" where
  "set_db d w = w\<lparr>w_db := d\<rparr>"

definition send :: "nat \<Rightarrow> string \<Rightarrow> 'db world \<Rightarrow> 'db world" where
  "send i msg w = emit [Ssl_safe_write (c_ssl (client w i)) msg] w"

text \<open>\<^verbatim>\<open>inet_ntop\<close> for an IPv4 address (most significant byte first).\<close>

definition inet_ntop :: "uint32 \<Rightarrow> string" where
  "inet_ntop a = (let k = unat a in
     dec_nat (k div 2 ^ 24) @ CHR ''.'' # dec_nat (k div 2 ^ 16 mod 256) @ CHR ''.'' #
     dec_nat (k div 2 ^ 8 mod 256) @ CHR ''.'' # dec_nat (k mod 256))"

section \<open>Well-formed states\<close>

text \<open>
  The array sizes of the structs, and the NUL that ends every string field: the last cell of each
  is never written.
\<close>

definition wf_client :: "secure_client_t \<Rightarrow> bool" where
  "wf_client c = (length (c_nick c) = MAX_NICK_LENGTH + 1 \<and> c_nick c ! MAX_NICK_LENGTH = NUL \<and>
     length (c_token c) = TOKEN_LENGTH + 1 \<and> c_token c ! TOKEN_LENGTH = NUL \<and>
     length (c_peer_id c) = 64 \<and> c_peer_id c ! 63 = NUL \<and>
     length (c_session_key c) = 32 \<and> length (c_chacha_key c) = 32 \<and> length (c_public_key c) = 32 \<and>
     length (c_shared_secret c) = 32 \<and> length (c_session_token c) = 32 \<and>
     rl_count (c_rate_limit c) \<le> MAX_RATE_LIMIT)"

definition wf_log :: "audit_log_t \<Rightarrow> bool" where
  "wf_log l = (length (al_event_type l) = 32 \<and> al_event_type l ! 31 = NUL \<and>
     length (al_user_nick l) = MAX_NICK_LENGTH \<and> al_user_nick l ! (MAX_NICK_LENGTH - 1) = NUL \<and>
     length (al_ip_address l) = INET6_ADDRSTRLEN \<and> al_ip_address l ! (INET6_ADDRSTRLEN - 1) = NUL \<and>
     length (al_details l) = 512 \<and> al_details l ! 511 = NUL)"

definition wf_peer :: "secure_peer_t \<Rightarrow> bool" where
  "wf_peer p = (length (pr_peer_id p) = 64 \<and> pr_peer_id p ! 63 = NUL \<and>
     length (pr_public_key p) = 32 \<and> length (pr_quantum_key p) = QUANTUM_KEY_LENGTH)"

definition wf_network :: "secure_network_t \<Rightarrow> bool" where
  "wf_network n = (length (nw_peers n) = MAX_CLIENTS \<and> nw_count n \<le> MAX_CLIENTS \<and>
     list_all wf_peer (nw_peers n))"

definition wf_server :: "ultra_server_state_t \<Rightarrow> bool" where
  "wf_server s = (length (s_clients s) = MAX_CLIENTS \<and> list_all wf_client (s_clients s) \<and>
     wf_network (s_p2p s) \<and>
     length (s_audit_logs s) = AUDIT_SLOTS \<and> list_all wf_log (s_audit_logs s) \<and>
     s_audit_log_count s \<le> AUDIT_SLOTS \<and>
     length (s_master_key s) = MASTER_KEY_LENGTH \<and>
     length (s_quantum_master_key s) = QUANTUM_KEY_LENGTH)"

section \<open>Lemmas\<close>

lemma wf_client_zero [simp]: "wf_client zero_client"
  by (simp add: wf_client_def zero_client_def zero_rate_limit_def limit_defs MAX_RATE_LIMIT_def)

lemma wf_log_zero [simp]: "wf_log zero_log"
  by (simp add: wf_log_def zero_log_def limit_defs INET6_ADDRSTRLEN_def)

lemma wf_peer_zero [simp]: "wf_peer zero_peer"
  by (simp add: wf_peer_def zero_peer_def)

lemma wf_server_init: "wf_server server_init"
  by (simp add: wf_server_def server_init_def wf_network_def list_all_iff)

lemma world_access [simp, frame_simps]:
  "w_srv (emit es w) = w_srv w" "w_db (emit es w) = w_db w" "w_trace (emit es w) = w_trace w @ es"
  "w_srv (set_srv s w) = s" "w_db (set_srv s w) = w_db w" "w_trace (set_srv s w) = w_trace w"
  "w_srv (set_db d w) = w_srv w" "w_db (set_db d w) = d" "w_trace (set_db d w) = w_trace w"
  "w_db (set_client i c w) = w_db w" "w_trace (set_client i c w) = w_trace w"
  "s_clients (w_srv (set_client i c w)) = (s_clients (w_srv w))[i := c]"
  "w_srv (send i m w) = w_srv w" "w_db (send i m w) = w_db w"
  "w_trace (send i m w) = w_trace w @ [Ssl_safe_write (c_ssl (client w i)) m]"
  by (simp_all add: emit_def set_srv_def set_db_def set_client_def send_def)

lemma set_client_frame [simp, frame_simps]:
  "s_p2p (w_srv (set_client i c w)) = s_p2p (w_srv w)"
  "s_audit_logs (w_srv (set_client i c w)) = s_audit_logs (w_srv w)"
  "s_audit_log_count (w_srv (set_client i c w)) = s_audit_log_count (w_srv w)"
  "s_master_key (w_srv (set_client i c w)) = s_master_key (w_srv w)"
  "s_quantum_master_key (w_srv (set_client i c w)) = s_quantum_master_key (w_srv w)"
  "s_running (w_srv (set_client i c w)) = s_running (w_srv w)"
  "s_total_connections (w_srv (set_client i c w)) = s_total_connections (w_srv w)"
  by (simp_all add: set_client_def)

lemma wf_server_set_client:
  "wf_server (w_srv w) \<Longrightarrow> wf_client c \<Longrightarrow> wf_server (w_srv (set_client i c w))"
  by (auto simp: wf_server_def list_all_iff dest: set_update_subset_insert [THEN subsetD])

lemma wf_server_client: "wf_server (w_srv w) \<Longrightarrow> i < MAX_CLIENTS \<Longrightarrow> wf_client (client w i)"
  by (simp add: wf_server_def list_all_iff)

lemma server_init_client [simp]: "i < 1000 \<Longrightarrow> s_clients server_init ! i = zero_client"
  by (simp add: server_init_def MAX_CLIENTS_def)

lemma zero_client_fields [simp]: "\<not> c_authorized zero_client" "c_ssl zero_client = None" "c_fd zero_client = 0"
  by (simp_all add: zero_client_def)

lemma set_client_twice [simp]: "set_client i c2 (set_client i c1 w) = set_client i c2 w"
  by (simp add: set_client_def)

lemma set_client_same [simp]: "set_client i (client w i) w = w"
  by (simp add: set_client_def)

lemma emit_nil [simp]: "emit [] w = w"
  by (simp add: emit_def)

end
