(* ===== verification/Sqlite_Engine.thy ===== *)
theory Sqlite_Engine
  imports Mesh_Prelude
begin

text \<open>
  SQLite is a library the sources only call. The model takes it as a parameter of type
  \<open>'db sqlite\<close>: whether a statement prepares, what a step of a statement with its bound values
  gives, and what a direct execution gives. The texts of the statements are those of
  \<^verbatim>\<open>src/src/server.c\<close>.

  The locale \<open>user_store\<close> names what the server relies on for the table of accounts, in the words
  of the schema: nicknames unique without regard to case, tokens unique, and no other statement
  touches the table. \<open>table_engine\<close> runs exactly these statements over tables held as lists of
  rows, following the columns, defaults and constraints that the CREATE TABLE texts declare, and
  interprets the locale.
\<close>

datatype sql_value = Sql_null | Sql_int int | Sql_text string | Sql_blob "byte list"

datatype step_result = Row "sql_value list" | Done | Step_error

record 'db sqlite =
  sq_prepare :: "'db \<Rightarrow> string \<Rightarrow> bool"
  sq_step :: "'db \<Rightarrow> string \<Rightarrow> sql_value list \<Rightarrow> step_result \<times> 'db"
  sq_exec :: "'db \<Rightarrow> string \<Rightarrow> bool \<times> 'db"

section \<open>Columns\<close>

definition column :: "sql_value list \<Rightarrow> nat \<Rightarrow> sql_value" where
  "column r i = (if i < length r then r ! i else Sql_null)"

fun column_text :: "sql_value \<Rightarrow> string option" where
  "column_text (Sql_text t) = Some t"
| "column_text _ = None"

fun column_int :: "sql_value \<Rightarrow> int" where
  "column_int (Sql_int k) = k"
| "column_int _ = 0"

fun column_blob :: "sql_value \<Rightarrow> byte list option" where
  "column_blob (Sql_blob b) = Some b"
| "column_blob _ = None"

section \<open>Statements of the server\<close>

definition SQL_NICK_EXISTS :: string where
  "SQL_NICK_EXISTS = ''SELECT 1 FROM secure_users WHERE nick = ?''"

definition SQL_INSERT_USER :: string where
  "SQL_INSERT_USER = ''INSERT INTO secure_users (nick, token, ip_address, reg_id, public_key, security_level) VALUES (?, ?, ?, ?, ?, ?)''"

definition SQL_AUTH :: string where
  "SQL_AUTH = ''SELECT token, reg_id, public_key, security_level FROM secure_users WHERE nick = ? AND is_locked = 0''"

definition SQL_LAST_LOGIN :: string where
  "SQL_LAST_LOGIN = ''UPDATE secure_users SET last_login = datetime('' @ [CHR 0x27] @ ''now'' @ [CHR 0x27] @ ''), login_attempts = 0 WHERE nick = ?''"

definition SQL_AUDIT :: string where
  "SQL_AUDIT = ''INSERT INTO audit_logs (event_type, user_nick, ip_address, details, timestamp) VALUES (?, ?, ?, ?, datetime(?, '' @ [CHR 0x27] @ ''unixepoch'' @ [CHR 0x27] @ ''))''"

definition SQL_MESSAGE :: string where
  "SQL_MESSAGE = ''INSERT INTO secure_messages(from_user, to_user, group_name, data, is_group) VALUES(?, ?, ?, ?, ?)''"

definition SQL_INTEGRITY :: string where
  "SQL_INTEGRITY = ''PRAGMA integrity_check;''"

definition SQL_ROTATE :: string where
  "SQL_ROTATE = ''DELETE FROM audit_logs WHERE timestamp < datetime(?, '' @ [CHR 0x27] @ ''unixepoch'' @ [CHR 0x27] @ '')''"

lemmas sql_texts = SQL_NICK_EXISTS_def SQL_INSERT_USER_def SQL_AUTH_def SQL_LAST_LOGIN_def
  SQL_AUDIT_def SQL_MESSAGE_def SQL_INTEGRITY_def SQL_ROTATE_def

definition server_statements :: "string list" where
  "server_statements = [SQL_NICK_EXISTS, SQL_INSERT_USER, SQL_AUTH, SQL_LAST_LOGIN, SQL_AUDIT,
     SQL_MESSAGE, SQL_INTEGRITY, SQL_ROTATE]"

lemma server_statements_distinct: "distinct server_statements"
  by (simp add: server_statements_def sql_texts)

section \<open>Rows\<close>

text \<open>A row of \<^verbatim>\<open>secure_users\<close>: the columns a statement of the server writes or reads.\<close>

record user_row =
  u_nick :: string
  u_token :: string
  u_ip :: string
  u_reg_id :: int
  u_public_key :: "byte list"
  u_security_level :: int
  u_login_attempts :: int
  u_is_locked :: int

text \<open>\<^verbatim>\<open>nick TEXT UNIQUE NOT NULL COLLATE NOCASE\<close>: equality of nicknames folds ASCII case.\<close>

definition same_nick :: "string \<Rightarrow> user_row \<Rightarrow> bool" where
  "same_nick n u = strcasecmp_eq (u_nick u) n"

definition new_user :: "sql_value list \<Rightarrow> user_row" where
  "new_user vs = \<lparr>u_nick = the (column_text (column vs 0)), u_token = the (column_text (column vs 1)),
     u_ip = the (column_text (column vs 2)), u_reg_id = column_int (column vs 3),
     u_public_key = the (column_blob (column vs 4)), u_security_level = column_int (column vs 5),
     u_login_attempts = 0, u_is_locked = 0\<rparr>"

definition user_columns :: "user_row \<Rightarrow> sql_value list" where
  "user_columns u = [Sql_text (u_token u), Sql_int (u_reg_id u), Sql_blob (u_public_key u),
     Sql_int (u_security_level u)]"

definition logged_in :: "string \<Rightarrow> user_row \<Rightarrow> user_row" where
  "logged_in n u = (if same_nick n u then u\<lparr>u_login_attempts := 0\<rparr> else u)"

section \<open>The interface\<close>

locale user_store =
  fixes E :: "'db sqlite"
    and users :: "'db \<Rightarrow> user_row list"
    and ready :: "'db \<Rightarrow> bool"
  assumes prepare: "ready d \<Longrightarrow> q \<in> set server_statements \<Longrightarrow> sq_prepare E d q"
    and exists_step: "ready d \<Longrightarrow> sq_step E d SQL_NICK_EXISTS [Sql_text n] =
      (if list_ex (same_nick n) (users d) then Row [Sql_int 1] else Done, d)"
    and insert_done: "ready d \<Longrightarrow> u = new_user [Sql_text n, Sql_text t, ip, rid, Sql_blob pk, lvl] \<Longrightarrow>
      \<not> list_ex (same_nick n) (users d) \<Longrightarrow> t \<notin> u_token ` set (users d) \<Longrightarrow>
      fst (sq_step E d SQL_INSERT_USER [Sql_text n, Sql_text t, ip, rid, Sql_blob pk, lvl]) = Done \<and>
      users (snd (sq_step E d SQL_INSERT_USER [Sql_text n, Sql_text t, ip, rid, Sql_blob pk, lvl])) =
        users d @ [u]"
    and insert_conflict: "ready d \<Longrightarrow>
      list_ex (same_nick n) (users d) \<or> t \<in> u_token ` set (users d) \<Longrightarrow>
      fst (sq_step E d SQL_INSERT_USER [Sql_text n, Sql_text t, ip, rid, Sql_blob pk, lvl]) = Step_error \<and>
      users (snd (sq_step E d SQL_INSERT_USER [Sql_text n, Sql_text t, ip, rid, Sql_blob pk, lvl])) = users d"
    and auth_step: "ready d \<Longrightarrow> sq_step E d SQL_AUTH [Sql_text n] =
      (case find (\<lambda>u. same_nick n u \<and> u_is_locked u = 0) (users d) of
         None \<Rightarrow> Done | Some u \<Rightarrow> Row (user_columns u), d)"
    and last_login_step: "ready d \<Longrightarrow>
      users (snd (sq_step E d SQL_LAST_LOGIN [Sql_text n])) = map (logged_in n) (users d)"
    and other_step: "ready d \<Longrightarrow> q \<in> {SQL_AUDIT, SQL_MESSAGE, SQL_INTEGRITY, SQL_ROTATE} \<Longrightarrow>
      users (snd (sq_step E d q vs)) = users d"
    and ready_step: "ready d \<Longrightarrow> q \<in> set server_statements \<Longrightarrow> ready (snd (sq_step E d q vs))"

section \<open>Tables as lists of rows\<close>

record message_row =
  m_from :: string
  m_to :: string
  m_group :: string
  m_data :: "byte list"
  m_is_group :: int

record audit_row =
  a_event_type :: string
  a_user_nick :: string
  a_ip :: string
  a_details :: string
  a_timestamp :: int

record tables =
  t_users :: "user_row list"
  t_messages :: "message_row list"
  t_audit :: "audit_row list"

definition text_of :: "sql_value \<Rightarrow> string" where
  "text_of v = (case column_text v of None \<Rightarrow> [] | Some t \<Rightarrow> t)"

definition blob_of :: "sql_value \<Rightarrow> byte list" where
  "blob_of v = (case column_blob v of None \<Rightarrow> [] | Some b \<Rightarrow> b)"

definition table_step :: "tables \<Rightarrow> string \<Rightarrow> sql_value list \<Rightarrow> step_result \<times> tables" where
  "table_step d q vs =
     (if q = SQL_NICK_EXISTS then
        (if list_ex (same_nick (text_of (column vs 0))) (t_users d) then Row [Sql_int 1] else Done, d)
      else if q = SQL_INSERT_USER then
        (let u = new_user vs in
         if list_ex (same_nick (u_nick u)) (t_users d) \<or> u_token u \<in> u_token ` set (t_users d)
         then (Step_error, d) else (Done, d\<lparr>t_users := t_users d @ [u]\<rparr>))
      else if q = SQL_AUTH then
        (case find (\<lambda>u. same_nick (text_of (column vs 0)) u \<and> u_is_locked u = 0) (t_users d) of
           None \<Rightarrow> (Done, d) | Some u \<Rightarrow> (Row (user_columns u), d))
      else if q = SQL_LAST_LOGIN then
        (Done, d\<lparr>t_users := map (logged_in (text_of (column vs 0))) (t_users d)\<rparr>)
      else if q = SQL_AUDIT then
        (Done, d\<lparr>t_audit := t_audit d @ [\<lparr>a_event_type = text_of (column vs 0),
           a_user_nick = text_of (column vs 1), a_ip = text_of (column vs 2),
           a_details = text_of (column vs 3), a_timestamp = column_int (column vs 4)\<rparr>]\<rparr>)
      else if q = SQL_MESSAGE then
        (Done, d\<lparr>t_messages := t_messages d @ [\<lparr>m_from = text_of (column vs 0),
           m_to = text_of (column vs 1), m_group = text_of (column vs 2),
           m_data = blob_of (column vs 3), m_is_group = column_int (column vs 4)\<rparr>]\<rparr>)
      else if q = SQL_INTEGRITY then (Row [Sql_text ''ok''], d)
      else if q = SQL_ROTATE then
        (Done, d\<lparr>t_audit := filter (\<lambda>a. \<not> a_timestamp a < column_int (column vs 0)) (t_audit d)\<rparr>)
      else (Step_error, d))"

definition table_engine :: "tables sqlite" where
  "table_engine = \<lparr>sq_prepare = (\<lambda>d q. q \<in> set server_statements), sq_step = table_step,
     sq_exec = (\<lambda>d q. (True, d))\<rparr>"

definition no_tables :: tables where
  "no_tables = \<lparr>t_users = [], t_messages = [], t_audit = []\<rparr>"

section \<open>Interpretation\<close>

lemma sql_neq [simp]:
  "SQL_INSERT_USER \<noteq> SQL_NICK_EXISTS" "SQL_AUTH \<noteq> SQL_NICK_EXISTS" "SQL_LAST_LOGIN \<noteq> SQL_NICK_EXISTS"
  "SQL_AUDIT \<noteq> SQL_NICK_EXISTS" "SQL_MESSAGE \<noteq> SQL_NICK_EXISTS" "SQL_INTEGRITY \<noteq> SQL_NICK_EXISTS"
  "SQL_ROTATE \<noteq> SQL_NICK_EXISTS" "SQL_AUTH \<noteq> SQL_INSERT_USER" "SQL_LAST_LOGIN \<noteq> SQL_INSERT_USER"
  "SQL_AUDIT \<noteq> SQL_INSERT_USER" "SQL_MESSAGE \<noteq> SQL_INSERT_USER" "SQL_INTEGRITY \<noteq> SQL_INSERT_USER"
  "SQL_ROTATE \<noteq> SQL_INSERT_USER" "SQL_LAST_LOGIN \<noteq> SQL_AUTH" "SQL_AUDIT \<noteq> SQL_AUTH"
  "SQL_MESSAGE \<noteq> SQL_AUTH" "SQL_INTEGRITY \<noteq> SQL_AUTH" "SQL_ROTATE \<noteq> SQL_AUTH"
  "SQL_AUDIT \<noteq> SQL_LAST_LOGIN" "SQL_MESSAGE \<noteq> SQL_LAST_LOGIN" "SQL_INTEGRITY \<noteq> SQL_LAST_LOGIN"
  "SQL_ROTATE \<noteq> SQL_LAST_LOGIN" "SQL_MESSAGE \<noteq> SQL_AUDIT" "SQL_INTEGRITY \<noteq> SQL_AUDIT"
  "SQL_ROTATE \<noteq> SQL_AUDIT" "SQL_INTEGRITY \<noteq> SQL_MESSAGE" "SQL_ROTATE \<noteq> SQL_MESSAGE"
  "SQL_ROTATE \<noteq> SQL_INTEGRITY"
  using server_statements_distinct by (auto simp: server_statements_def)

lemma in_server_statements [simp]:
  "SQL_NICK_EXISTS \<in> set server_statements" "SQL_INSERT_USER \<in> set server_statements"
  "SQL_AUTH \<in> set server_statements" "SQL_LAST_LOGIN \<in> set server_statements"
  "SQL_AUDIT \<in> set server_statements" "SQL_MESSAGE \<in> set server_statements"
  "SQL_INTEGRITY \<in> set server_statements" "SQL_ROTATE \<in> set server_statements"
  by (simp_all add: server_statements_def)

lemma table_engine_access [simp]:
  "sq_prepare table_engine d q = (q \<in> set server_statements)"
  "sq_step table_engine = table_step" "sq_exec table_engine d q = (True, d)"
  by (simp_all add: table_engine_def)

interpretation tab: user_store table_engine t_users "\<lambda>_. True"
proof unfold_locales
  fix d :: tables and q vs
  assume "q \<in> {SQL_AUDIT, SQL_MESSAGE, SQL_INTEGRITY, SQL_ROTATE}"
  then show "t_users (snd (sq_step table_engine d q vs)) = t_users d"
    by (auto simp: table_step_def)
qed (auto simp: table_step_def column_def text_of_def new_user_def split: option.splits)

end
