(* ===== verification/Database.thy ===== *)
theory Database
  imports Server_State Sqlite_Engine
begin

text \<open>
  The database layer of \<^verbatim>\<open>src/src/server.c\<close>: accounts, messages, audit records, health check
  and rotation, over the engine parameter \<open>E\<close>. Every function follows its C body: a statement
  that does not prepare takes the early return, and the values bound are those of the source.
\<close>

section \<open>Accounts\<close>

definition check_nickname_exists :: "'db sqlite \<Rightarrow> string \<Rightarrow> 'db \<Rightarrow> bool \<times> 'db" where
  "check_nickname_exists E nick d =
     (if \<not> sq_prepare E d SQL_NICK_EXISTS then (False, d)
      else let (r, d') = sq_step E d SQL_NICK_EXISTS [Sql_text nick]
           in (case r of Row _ \<Rightarrow> True | _ \<Rightarrow> False, d'))"

definition save_user_to_database ::
  "'db sqlite \<Rightarrow> string \<Rightarrow> string \<Rightarrow> string \<Rightarrow> secure_client_t \<Rightarrow> 'db \<Rightarrow> bool \<times> 'db" where
  "save_user_to_database E nick token ip c d =
     (if \<not> sq_prepare E d SQL_INSERT_USER then (False, d)
      else let (r, d') = sq_step E d SQL_INSERT_USER
             [Sql_text nick, Sql_text token, Sql_text ip, Sql_int (sint (c_reg_id c)),
              Sql_blob (take 32 (c_public_key c)), Sql_int (c_security_level c)]
           in (r = Done, d'))"

definition update_last_login :: "'db sqlite \<Rightarrow> string \<Rightarrow> 'db \<Rightarrow> 'db" where
  "update_last_login E nick d =
     (if sq_prepare E d SQL_LAST_LOGIN then snd (sq_step E d SQL_LAST_LOGIN [Sql_text nick]) else d)"

text \<open>\<^verbatim>\<open>if (pub_key) memcpy(client->public_key, pub_key, 32)\<close>: 32 bytes are read.\<close>

definition load_public_key :: "byte list option \<Rightarrow> secure_client_t \<Rightarrow> fault + secure_client_t" where
  "load_public_key pub c =
     (case pub of
        None \<Rightarrow> Inr c
      | Some b \<Rightarrow> if 32 \<le> length b
                 then Inr (c\<lparr>c_public_key := take 32 b @ drop 32 (c_public_key c)\<rparr>)
                 else Inl Out_of_bounds_read)"

definition authenticate_user ::
  "'db sqlite \<Rightarrow> string \<Rightarrow> string \<Rightarrow> secure_client_t \<Rightarrow> 'db \<Rightarrow>
   fault + bool \<times> secure_client_t \<times> 'db" where
  "authenticate_user E nick token c d =
     (if \<not> sq_prepare E d SQL_AUTH then Inr (False, c, d)
      else case sq_step E d SQL_AUTH [Sql_text nick] of
        (Row cols, d1) \<Rightarrow>
          (case column_text (column cols 0) of
             None \<Rightarrow> Inr (False, c, d1)
           | Some db_token \<Rightarrow>
               (case constant_time_compare (db_token @ [NUL]) (token @ [NUL]) (length token) of
                  Inl e \<Rightarrow> Inl e
                | Inr False \<Rightarrow> Inr (False, c, d1)
                | Inr True \<Rightarrow>
                    (case load_public_key (column_blob (column cols 2))
                            (c\<lparr>c_reg_id := word_of_int (column_int (column cols 1))\<rparr>) of
                       Inl e \<Rightarrow> Inl e
                     | Inr c' \<Rightarrow> Inr (True, c'\<lparr>c_security_level := column_int (column cols 3)\<rparr>,
                                    update_last_login E nick d1))))
      | (_, d1) \<Rightarrow> Inr (False, c, d1))"

section \<open>Audit records and messages\<close>

definition save_audit_log_to_db :: "'db sqlite \<Rightarrow> audit_log_t \<Rightarrow> 'db \<Rightarrow> 'db" where
  "save_audit_log_to_db E log d =
     (if sq_prepare E d SQL_AUDIT
      then snd (sq_step E d SQL_AUDIT
             [Sql_text (cstr (al_event_type log)), Sql_text (cstr (al_user_nick log)),
              Sql_text (cstr (al_ip_address log)), Sql_text (cstr (al_details log)),
              Sql_int (al_timestamp log)])
      else d)"

text \<open>\<open>to\<close> and \<open>group\<close> are NULL (\<open>None\<close>) or strings; NULL is stored as the empty text.\<close>

definition save_message ::
  "'db sqlite \<Rightarrow> string \<Rightarrow> string option \<Rightarrow> string option \<Rightarrow> byte list \<Rightarrow> int \<Rightarrow> 'db \<Rightarrow> int \<times> 'db" where
  "save_message E sender to grp data is_group d =
     (if \<not> sq_prepare E d SQL_MESSAGE then (-1, d)
      else (0, snd (sq_step E d SQL_MESSAGE
             [Sql_text sender, Sql_text (case to of None \<Rightarrow> [] | Some t \<Rightarrow> t),
              Sql_text (case grp of None \<Rightarrow> [] | Some g \<Rightarrow> g), Sql_blob data, Sql_int is_group])))"

section \<open>Monitoring\<close>

datatype health = Check_failed | Healthy | Corrupt string | No_result

definition check_database_health :: "'db sqlite \<Rightarrow> 'db \<Rightarrow> fault + health \<times> 'db" where
  "check_database_health E d =
     (if \<not> sq_prepare E d SQL_INTEGRITY then Inr (Check_failed, d)
      else case sq_step E d SQL_INTEGRITY [] of
        (Row cols, d') \<Rightarrow>
          (case column_text (column cols 0) of
             None \<Rightarrow> Inl Null_dereference
           | Some t \<Rightarrow> Inr (if t = ''ok'' then Healthy else Corrupt t, d'))
      | (_, d') \<Rightarrow> Inr (No_result, d'))"

definition rotate_audit_logs :: "'db sqlite \<Rightarrow> time_t \<Rightarrow> 'db \<Rightarrow> 'db" where
  "rotate_audit_logs E now d =
     (let cutoff = now - (7 * 24 * 60 * 60) in
      if sq_prepare E d SQL_ROTATE then snd (sq_step E d SQL_ROTATE [Sql_int cutoff]) else d)"

section \<open>Opening the database\<close>

definition hex_bytes :: "byte list \<Rightarrow> string" where
  "hex_bytes bs = concat (map hex2 bs)"

text \<open>\<^verbatim>\<open>snprintf(pragma, sizeof(pragma), "PRAGMA key = 'x'%s'';", key_hex)\<close>\<close>

definition key_pragma :: "byte list \<Rightarrow> string" where
  "key_pragma key = snprintf 256
     (''PRAGMA key = '' @ [CHR 0x27] @ ''x'' @ [CHR 0x27] @ hex_bytes key @ [CHR 0x27, CHR 0x27] @ '';'')"

definition security_settings :: "string list" where
  "security_settings =
    [''PRAGMA cipher_page_size = 4096;'', ''PRAGMA kdf_iter = 640000;'',
     ''PRAGMA cipher_hmac_algorithm = HMAC_SHA512;'',
     ''PRAGMA cipher_kdf_algorithm = PBKDF2_HMAC_SHA512;'', ''PRAGMA cipher_use_hmac = ON;'',
     ''PRAGMA secure_delete = ON;'', ''PRAGMA auto_vacuum = FULL;'', ''PRAGMA journal_mode = WAL;'',
     ''PRAGMA synchronous = NORMAL;'']"

definition schema :: "string list" where
  "schema =
    [''CREATE TABLE IF NOT EXISTS secure_users (id INTEGER PRIMARY KEY AUTOINCREMENT,nick TEXT UNIQUE NOT NULL COLLATE NOCASE,token TEXT UNIQUE NOT NULL,reg_id INTEGER,ip_address TEXT,public_key BLOB,quantum_key BLOB,security_level INTEGER DEFAULT 1,two_factor_secret TEXT,created_at DATETIME DEFAULT CURRENT_TIMESTAMP,last_login DATETIME NULL,login_attempts INTEGER DEFAULT 0,is_locked INTEGER DEFAULT 0)'',
     ''CREATE TABLE IF NOT EXISTS secure_messages (id INTEGER PRIMARY KEY AUTOINCREMENT,from_user TEXT NOT NULL,to_user TEXT,group_name TEXT,data BLOB NOT NULL,encryption_type INTEGER DEFAULT 0,is_group INTEGER DEFAULT 0,timestamp DATETIME DEFAULT CURRENT_TIMESTAMP,hash BLOB)'',
     ''CREATE TABLE IF NOT EXISTS ip_security (id INTEGER PRIMARY KEY AUTOINCREMENT,ip_address TEXT NOT NULL UNIQUE,connection_count INTEGER DEFAULT 0,threat_score INTEGER DEFAULT 0,last_attempt DATETIME DEFAULT CURRENT_TIMESTAMP,is_blocked INTEGER DEFAULT 0,block_reason TEXT,country_code TEXT,asn TEXT)'',
     ''CREATE TABLE IF NOT EXISTS signal_sessions (id INTEGER PRIMARY KEY AUTOINCREMENT,user_nick TEXT NOT NULL,device_id INTEGER,record BLOB,created_at DATETIME DEFAULT CURRENT_TIMESTAMP,last_used DATETIME DEFAULT CURRENT_TIMESTAMP)'',
     ''CREATE TABLE IF NOT EXISTS p2p_network (id INTEGER PRIMARY KEY AUTOINCREMENT,peer_id TEXT UNIQUE NOT NULL,public_key BLOB,quantum_key BLOB,ip_address TEXT,port INTEGER,last_seen DATETIME DEFAULT CURRENT_TIMESTAMP,latency INTEGER DEFAULT 0,is_trusted INTEGER DEFAULT 0)'',
     ''CREATE TABLE IF NOT EXISTS audit_logs (id INTEGER PRIMARY KEY AUTOINCREMENT,event_type TEXT NOT NULL,user_nick TEXT,ip_address TEXT,details TEXT,timestamp DATETIME DEFAULT CURRENT_TIMESTAMP,event_hash BLOB)'',
     ''CREATE TABLE IF NOT EXISTS quantum_keys (id INTEGER PRIMARY KEY AUTOINCREMENT,key_id INTEGER UNIQUE NOT NULL,public_key BLOB,quantum_key BLOB,combined_key BLOB,generation_time DATETIME DEFAULT CURRENT_TIMESTAMP,is_active INTEGER DEFAULT 1)'']"

text \<open>Settings: a failure is only reported. Tables: the first failure stops the loop.\<close>

fun exec_settings :: "'db sqlite \<Rightarrow> string list \<Rightarrow> 'db \<Rightarrow> 'db" where
  "exec_settings E [] d = d"
| "exec_settings E (q # qs) d = exec_settings E qs (snd (sq_exec E d q))"

fun exec_tables :: "'db sqlite \<Rightarrow> string list \<Rightarrow> 'db \<Rightarrow> bool \<times> 'db" where
  "exec_tables E [] d = (True, d)"
| "exec_tables E (q # qs) d =
     (let (ok, d') = sq_exec E d q in if ok then exec_tables E qs d' else (False, d'))"

text \<open>
  The two key generations, then \<^verbatim>\<open>sqlite3_open\<close>: \<open>opened\<close> is the handle and whether it
  answered \<^verbatim>\<open>SQLITE_OK\<close>. A key generation counts as failed only when
  \<^verbatim>\<open>RAND_bytes\<close> returns 0; the bytes land in the server state either way.
\<close>

definition init_secure_database ::
  "'db sqlite \<Rightarrow> rand_result \<Rightarrow> rand_result \<Rightarrow> nat \<times> bool \<Rightarrow> 'db world \<Rightarrow> bool \<times> 'db world" where
  "init_secure_database E rnd1 rnd2 opened w =
     (let w1 = set_srv ((w_srv w)\<lparr>s_master_key := take MASTER_KEY_LENGTH (snd rnd1)\<rparr>) w in
      if fst rnd1 = 0 then (False, w1)
      else let w2 = set_srv ((w_srv w1)\<lparr>s_quantum_master_key := take QUANTUM_KEY_LENGTH (snd rnd2)\<rparr>) w1 in
      if fst rnd2 = 0 then (False, w2)
      else let w3 = set_srv ((w_srv w2)\<lparr>s_db := Some (fst opened)\<rparr>) w2 in
      if \<not> snd opened then (False, w3)
      else let (ok, d) = sq_exec E (w_db w3) (key_pragma (s_master_key (w_srv w3))); w4 = set_db d w3 in
      if \<not> ok then (False, emit [Db_close (fst opened)] w4)
      else let w5 = set_db (exec_settings E security_settings (w_db w4)) w4;
               (ok', d') = exec_tables E schema (w_db w5); w6 = set_db d' w5 in
      if \<not> ok' then (False, emit [Db_close (fst opened)] w6)
      else (True, w6))"

section \<open>Lemmas inside the interface\<close>

lemma load_public_key_32 [simp]:
  "length b = 32 \<Longrightarrow> length (c_public_key c) = 32 \<Longrightarrow>
   load_public_key (Some b) c = Inr (c\<lparr>c_public_key := b\<rparr>)"
  by (simp add: load_public_key_def)

lemma load_public_key_cases:
  "load_public_key pub c = Inr c' \<Longrightarrow> length (c_public_key c) = 32 \<Longrightarrow>
   \<exists>k. length k = 32 \<and> c' = c\<lparr>c_public_key := k\<rparr>"
proof (cases pub)
  case None
  then show "load_public_key pub c = Inr c' \<Longrightarrow> length (c_public_key c) = 32 \<Longrightarrow> ?thesis"
    by (auto simp: load_public_key_def intro!: exI [of _ "c_public_key c"])
next
  case (Some b)
  then show "load_public_key pub c = Inr c' \<Longrightarrow> length (c_public_key c) = 32 \<Longrightarrow> ?thesis"
    by (auto simp: load_public_key_def split: if_splits intro!: exI [of _ "take 32 b"])
qed

context user_store
begin

lemma check_nickname_exists_eq:
  "ready d \<Longrightarrow> check_nickname_exists E nick d = (list_ex (same_nick nick) (users d), d)"
  by (simp add: check_nickname_exists_def prepare exists_step)

text \<open>An account is stored exactly when neither its nickname nor its token is taken.\<close>

lemma save_user_ok:
  assumes "ready d" "\<not> list_ex (same_nick nick) (users d)" "token \<notin> u_token ` set (users d)"
  obtains d' where "save_user_to_database E nick token ip c d = (True, d')" "ready d'"
    "users d' = users d @ [\<lparr>u_nick = nick, u_token = token, u_ip = ip, u_reg_id = sint (c_reg_id c),
       u_public_key = take 32 (c_public_key c), u_security_level = c_security_level c,
       u_login_attempts = 0, u_is_locked = 0\<rparr>]"
proof -
  let ?vs = "[Sql_text nick, Sql_text token, Sql_text ip, Sql_int (sint (c_reg_id c)),
              Sql_blob (take 32 (c_public_key c)), Sql_int (c_security_level c)]"
  obtain r d' where step: "sq_step E d SQL_INSERT_USER ?vs = (r, d')" by fastforce
  have "r = Done" "users d' = users d @ [new_user ?vs]"
    using insert_done [OF assms(1) refl assms(2,3), of "Sql_text ip" "Sql_int (sint (c_reg_id c))"
        "take 32 (c_public_key c)" "Sql_int (c_security_level c)"] step by auto
  moreover have "ready d'"
    using ready_step [OF assms(1), of SQL_INSERT_USER ?vs] step by simp
  ultimately show thesis
    using that [of d'] step assms(1)
    by (simp add: save_user_to_database_def prepare new_user_def column_def)
qed

lemma save_user_conflict:
  assumes "ready d" "list_ex (same_nick nick) (users d) \<or> token \<in> u_token ` set (users d)"
  shows "\<exists>d'. save_user_to_database E nick token ip c d = (False, d') \<and> users d' = users d \<and> ready d'"
proof -
  let ?vs = "[Sql_text nick, Sql_text token, Sql_text ip, Sql_int (sint (c_reg_id c)),
              Sql_blob (take 32 (c_public_key c)), Sql_int (c_security_level c)]"
  obtain r d' where step: "sq_step E d SQL_INSERT_USER ?vs = (r, d')" by fastforce
  then show ?thesis
    using insert_conflict [OF assms, of "Sql_text ip" "Sql_int (sint (c_reg_id c))"
        "take 32 (c_public_key c)" "Sql_int (c_security_level c)"]
      ready_step [OF assms(1), of SQL_INSERT_USER ?vs] assms(1)
    by (auto simp: save_user_to_database_def prepare)
qed

lemma update_last_login_users:
  "ready d \<Longrightarrow> users (update_last_login E nick d) = map (logged_in nick) (users d) \<and>
     ready (update_last_login E nick d)"
  by (simp add: update_last_login_def prepare last_login_step ready_step)

lemma save_message_users:
  "ready d \<Longrightarrow> users (snd (save_message E a b c e f d)) = users d \<and> ready (snd (save_message E a b c e f d))"
  by (simp add: save_message_def prepare other_step ready_step)

lemma save_audit_users:
  "ready d \<Longrightarrow> users (save_audit_log_to_db E l d) = users d \<and> ready (save_audit_log_to_db E l d)"
  by (simp add: save_audit_log_to_db_def prepare other_step ready_step)

lemma rotate_users:
  "ready d \<Longrightarrow> users (rotate_audit_logs E now d) = users d \<and> ready (rotate_audit_logs E now d)"
  by (simp add: rotate_audit_logs_def prepare other_step ready_step Let_def)

text \<open>
  Authentication against the account found for the nickname: success exactly when the token given
  is a prefix of the stored one.
\<close>

lemma authenticate_found:
  assumes "ready d" and found: "find (\<lambda>u. same_nick nick u \<and> u_is_locked u = 0) (users d) = Some u"
    and "is_cstr (u_token u)" "is_cstr token" "length token \<le> length (u_token u)"
    and pk: "length (u_public_key u) = 32" "length (c_public_key c) = 32"
  shows "authenticate_user E nick token c d =
    (if take (length token) (u_token u) = token
     then Inr (True, c\<lparr>c_reg_id := word_of_int (u_reg_id u), c_public_key := u_public_key u,
                 c_security_level := u_security_level u\<rparr>, update_last_login E nick d)
     else Inr (False, c, d))"
  using assms
  by (auto simp: authenticate_user_def prepare auth_step user_columns_def column_def
        constant_time_compare_cstr)

lemma authenticate_missing:
  assumes "ready d" "find (\<lambda>u. same_nick nick u \<and> u_is_locked u = 0) (users d) = None"
  shows "authenticate_user E nick token c d = Inr (False, c, d)"
  using assms by (simp add: authenticate_user_def prepare auth_step)

end

end
