(* ===== verification/Evp_Crypto.thy ===== *)
theory Evp_Crypto
  imports Mesh_Prelude
begin

text \<open>
  The wrappers of \<^verbatim>\<open>src/src/server.c\<close> around OpenSSL's EVP and HMAC interfaces. OpenSSL is
  outside the sources: each wrapper takes the outcome of every library call it makes as a field of
  a parameter record, and returns its own result together with the allocations and releases it
  performed, in order. The SG codes are those of libsignal-protocol-c.
\<close>

section \<open>Resources and results\<close>

datatype evp_event = Ctx_new | Ctx_free | Buffer_alloc | Buffer_free

definition SG_ERR_NOMEM :: int where "SG_ERR_NOMEM = -12"
definition SG_ERR_UNKNOWN :: int where "SG_ERR_UNKNOWN = -1000"

lemma sg_err_nonzero [simp]: "SG_ERR_NOMEM \<noteq> 0" "SG_ERR_UNKNOWN \<noteq> 0"
  by (simp_all add: SG_ERR_NOMEM_def SG_ERR_UNKNOWN_def)

fun live_contexts :: "evp_event list \<Rightarrow> int" where
  "live_contexts [] = 0"
| "live_contexts (e # es) =
     (case e of Ctx_new \<Rightarrow> 1 | Ctx_free \<Rightarrow> -1 | _ \<Rightarrow> 0) + live_contexts es"

fun live_buffers :: "evp_event list \<Rightarrow> int" where
  "live_buffers [] = 0"
| "live_buffers (e # es) =
     (case e of Buffer_alloc \<Rightarrow> 1 | Buffer_free \<Rightarrow> -1 | _ \<Rightarrow> 0) + live_buffers es"

section \<open>Random bytes and HMAC\<close>

definition crypto_random :: "int \<Rightarrow> int" where
  "crypto_random rand_ret = (if rand_ret = 1 then 0 else SG_ERR_UNKNOWN)"

text \<open>\<open>new\<close>: \<^verbatim>\<open>HMAC_CTX_new\<close> gave a context; \<open>ini\<close>: \<^verbatim>\<open>HMAC_Init_ex\<close> answered non-zero.\<close>

definition crypto_hmac_sha256_init :: "bool \<Rightarrow> bool \<Rightarrow> int \<times> bool \<times> evp_event list" where
  "crypto_hmac_sha256_init new ini =
     (if \<not> new then (SG_ERR_NOMEM, False, [])
      else if \<not> ini then (SG_ERR_UNKNOWN, False, [Ctx_new, Ctx_free])
      else (0, True, [Ctx_new]))"

definition crypto_hmac_sha256_update :: "bool \<Rightarrow> int" where
  "crypto_hmac_sha256_update upd = (if upd then 0 else SG_ERR_UNKNOWN)"

text \<open>\<open>md\<close>: the digest \<^verbatim>\<open>HMAC_Final\<close> wrote, if it answered non-zero; \<open>buf\<close>: whether
  \<^verbatim>\<open>signal_buffer_create\<close> gave a buffer.\<close>

definition crypto_hmac_sha256_final ::
  "byte list option \<Rightarrow> bool \<Rightarrow> int \<times> byte list option \<times> evp_event list" where
  "crypto_hmac_sha256_final md buf =
     (case md of
        None \<Rightarrow> (SG_ERR_UNKNOWN, None, [Ctx_free])
      | Some digest \<Rightarrow>
          if buf then (0, Some digest, [Buffer_alloc, Ctx_free])
          else (SG_ERR_NOMEM, None, [Ctx_free]))"

definition crypto_hmac_sha256_cleanup :: "evp_event list" where
  "crypto_hmac_sha256_cleanup = []"

section \<open>One-shot encryption\<close>

text \<open>
  The outcomes of the EVP calls of one encryption. \<open>ev_update\<close> and \<open>ev_final\<close> give the bytes
  written for a key, a nonce and a plaintext; the return value of \<^verbatim>\<open>RAND_bytes\<close> for the
  nonce is not looked at, so only the bytes matter.
\<close>

record evp =
  ev_new :: bool
  ev_init :: bool
  ev_set_ivlen :: bool
  ev_nonce :: "byte list"
  ev_init_key :: bool
  ev_update :: "byte list \<Rightarrow> byte list \<Rightarrow> byte list \<Rightarrow> byte list option"
  ev_final :: "byte list \<Rightarrow> byte list \<Rightarrow> byte list \<Rightarrow> byte list option"
  ev_tag :: "byte list \<Rightarrow> byte list \<Rightarrow> byte list \<Rightarrow> byte list option"

record cipher_out =
  co_ct :: "byte list"
  co_iv :: "byte list"
  co_tag :: "byte list"

definition crypto_encrypt_aes_gcm ::
  "evp \<Rightarrow> byte list \<Rightarrow> byte list \<Rightarrow> int \<times> cipher_out option \<times> evp_event list" where
  "crypto_encrypt_aes_gcm P pt key =
     (let err = (-1, None, [Ctx_new, Ctx_free]) in
      if \<not> ev_new P then (-1, None, [])
      else if \<not> ev_init P then err
      else if \<not> ev_set_ivlen P then err
      else let iv = take 12 (ev_nonce P) in
      if \<not> ev_init_key P then err
      else case ev_update P key iv pt of
        None \<Rightarrow> err
      | Some ct1 \<Rightarrow>
          (case ev_final P key iv pt of
             None \<Rightarrow> err
           | Some ct2 \<Rightarrow>
               (case ev_tag P key iv pt of
                  None \<Rightarrow> err
                | Some tag \<Rightarrow>
                    (int (length ct1 + length ct2),
                     Some \<lparr>co_ct = ct1 @ ct2, co_iv = iv, co_tag = take 16 tag\<rparr>,
                     [Ctx_new, Ctx_free]))))"

definition crypto_encrypt_chacha20 ::
  "evp \<Rightarrow> byte list \<Rightarrow> byte list \<Rightarrow> int \<times> cipher_out option \<times> evp_event list" where
  "crypto_encrypt_chacha20 P pt key =
     (let err = (-1, None, [Ctx_new, Ctx_free]) in
      if \<not> ev_new P then (-1, None, [])
      else if \<not> ev_init P then err
      else let nonce = take 12 (ev_nonce P) in
      if \<not> ev_init_key P then err
      else case ev_update P key nonce pt of
        None \<Rightarrow> err
      | Some ct1 \<Rightarrow>
          (case ev_final P key nonce pt of
             None \<Rightarrow> err
           | Some ct2 \<Rightarrow>
               (case ev_tag P key nonce pt of
                  None \<Rightarrow> err
                | Some tag \<Rightarrow>
                    (int (length ct1 + length ct2),
                     Some \<lparr>co_ct = ct1 @ ct2, co_iv = nonce, co_tag = take 16 tag\<rparr>,
                     [Ctx_new, Ctx_free]))))"

text \<open>AES-CBC has no tag.\<close>

definition crypto_encrypt_aes_cbc ::
  "evp \<Rightarrow> byte list \<Rightarrow> byte list \<Rightarrow> int \<times> cipher_out option \<times> evp_event list" where
  "crypto_encrypt_aes_cbc P pt key =
     (let err = (-1, None, [Ctx_new, Ctx_free]) in
      if \<not> ev_new P then (-1, None, [])
      else if \<not> ev_init P then err
      else let iv = take 16 (ev_nonce P) in
      if \<not> ev_init_key P then err
      else case ev_update P key iv pt of
        None \<Rightarrow> err
      | Some ct1 \<Rightarrow>
          (case ev_final P key iv pt of
             None \<Rightarrow> err
           | Some ct2 \<Rightarrow>
               (int (length ct1 + length ct2),
                Some \<lparr>co_ct = ct1 @ ct2, co_iv = iv, co_tag = []\<rparr>, [Ctx_new, Ctx_free])))"

section \<open>The callbacks given to libsignal\<close>

datatype cbc_cipher = Aes_256_cbc | Aes_128_cbc

definition select_cipher :: "nat \<Rightarrow> cbc_cipher" where
  "select_cipher key_len = (if key_len = 32 then Aes_256_cbc else Aes_128_cbc)"

text \<open>
  The outcomes for one direction: the two halves of the output for a cipher, key, iv and input,
  and whether the two \<^verbatim>\<open>signal_buffer_alloc\<close> calls gave a buffer. \<open>cb_block\<close> is
  \<^verbatim>\<open>EVP_CIPHER_block_size\<close>.
\<close>

record cbc_calls =
  cb_new :: bool
  cb_init :: "cbc_cipher \<Rightarrow> byte list \<Rightarrow> byte list \<Rightarrow> bool"
  cb_block :: "cbc_cipher \<Rightarrow> nat"
  cb_alloc1 :: bool
  cb_update :: "cbc_cipher \<Rightarrow> byte list \<Rightarrow> byte list \<Rightarrow> byte list \<Rightarrow> byte list option"
  cb_final :: "cbc_cipher \<Rightarrow> byte list \<Rightarrow> byte list \<Rightarrow> byte list \<Rightarrow> byte list option"
  cb_alloc2 :: bool

text \<open>
  The key bytes that \<^verbatim>\<open>EVP_EncryptInit_ex\<close> and \<^verbatim>\<open>EVP_DecryptInit_ex\<close> read through the pointer they are given; the
  initialisation vector of both ciphers has 16 bytes. The callbacks hand the pointers on without a look at the lengths
  they were given: a shorter array is read past its end.
\<close>

fun cipher_key_len :: "cbc_cipher \<Rightarrow> nat" where
  "cipher_key_len Aes_256_cbc = 32"
| "cipher_key_len Aes_128_cbc = 16"

text \<open>
  The callbacks. The library writes into a work buffer: \<^verbatim>\<open>crypto_encrypt\<close> makes room for one block more than the
  plaintext, \<^verbatim>\<open>crypto_decrypt\<close> for as much as the ciphertext; more output than that is an overflow.
\<close>

definition crypto_encrypt ::
  "cbc_calls \<Rightarrow> byte list \<Rightarrow> byte list \<Rightarrow> byte list \<Rightarrow> fault + int \<times> byte list option \<times> evp_event list" where
  "crypto_encrypt P key iv pt =
     (let cipher = select_cipher (length key) in
      if \<not> cb_new P then Inr (SG_ERR_NOMEM, None, [])
      else if length key < cipher_key_len cipher \<or> length iv < 16 then Inl Out_of_bounds_read
      else if \<not> cb_init P cipher key iv then Inr (SG_ERR_UNKNOWN, None, [Ctx_new, Ctx_free])
      else let out_len = length pt + cb_block P cipher in
      if \<not> cb_alloc1 P then Inr (SG_ERR_NOMEM, None, [Ctx_new, Ctx_free])
      else let err = (SG_ERR_UNKNOWN, None, [Ctx_new, Buffer_alloc, Buffer_free, Ctx_free]) in
      case cb_update P cipher key iv pt of
        None \<Rightarrow> Inr err
      | Some o1 \<Rightarrow>
          if out_len < length o1 then Inl Buffer_overflow
          else (case cb_final P cipher key iv pt of
            None \<Rightarrow> Inr err
          | Some o2 \<Rightarrow>
              if out_len < length o1 + length o2 then Inl Buffer_overflow
              else if \<not> cb_alloc2 P
              then Inr (SG_ERR_NOMEM, None, [Ctx_new, Buffer_alloc, Buffer_free, Ctx_free])
              else Inr (0, Some (o1 @ o2), [Ctx_new, Buffer_alloc, Buffer_alloc, Buffer_free, Ctx_free])))"

definition crypto_decrypt ::
  "cbc_calls \<Rightarrow> byte list \<Rightarrow> byte list \<Rightarrow> byte list \<Rightarrow> fault + int \<times> byte list option \<times> evp_event list" where
  "crypto_decrypt P key iv ct =
     (let cipher = select_cipher (length key) in
      if \<not> cb_new P then Inr (SG_ERR_NOMEM, None, [])
      else if length key < cipher_key_len cipher \<or> length iv < 16 then Inl Out_of_bounds_read
      else if \<not> cb_init P cipher key iv then Inr (SG_ERR_UNKNOWN, None, [Ctx_new, Ctx_free])
      else let out_len = length ct in
      if \<not> cb_alloc1 P then Inr (SG_ERR_NOMEM, None, [Ctx_new, Ctx_free])
      else let err = (SG_ERR_UNKNOWN, None, [Ctx_new, Buffer_alloc, Buffer_free, Ctx_free]) in
      case cb_update P cipher key iv ct of
        None \<Rightarrow> Inr err
      | Some o1 \<Rightarrow>
          if out_len < length o1 then Inl Buffer_overflow
          else (case cb_final P cipher key iv ct of
            None \<Rightarrow> Inr err
          | Some o2 \<Rightarrow>
              if out_len < length o1 + length o2 then Inl Buffer_overflow
              else if \<not> cb_alloc2 P
              then Inr (SG_ERR_NOMEM, None, [Ctx_new, Buffer_alloc, Buffer_free, Ctx_free])
              else Inr (0, Some (o1 @ o2), [Ctx_new, Buffer_alloc, Buffer_alloc, Buffer_free, Ctx_free])))"

datatype provider_slot = Random | Hmac_init | Hmac_update | Hmac_final | Hmac_cleanup | Encrypt | Decrypt

datatype wrapper = W_random | W_hmac_init | W_hmac_update | W_hmac_final | W_hmac_cleanup
  | W_encrypt | W_decrypt

text \<open>The table handed to \<^verbatim>\<open>signal_context_set_crypto_provider\<close>; no digest callback is set.\<close>

definition setup_signal_crypto_provider :: "(provider_slot \<times> wrapper) list" where
  "setup_signal_crypto_provider =
    [(Random, W_random), (Hmac_init, W_hmac_init), (Hmac_update, W_hmac_update),
     (Hmac_final, W_hmac_final), (Hmac_cleanup, W_hmac_cleanup), (Encrypt, W_encrypt),
     (Decrypt, W_decrypt)]"

section \<open>The cipher contract\<close>

text \<open>
  What OpenSSL documents of the two directions of a CBC cipher with padding, for keys and initialisation vectors of
  the sizes it reads: decryption with the same cipher, key and iv gives the plaintext back, encryption produces at
  most one block more than its input.
\<close>

definition cbc_sizes :: "cbc_cipher \<Rightarrow> byte list \<Rightarrow> byte list \<Rightarrow> bool" where
  "cbc_sizes c key iv = (cipher_key_len c \<le> length key \<and> 16 \<le> length iv)"

definition cbc_ready :: "cbc_calls \<Rightarrow> bool" where
  "cbc_ready P = (cb_new P \<and> (\<forall>c k v. cbc_sizes c k v \<longrightarrow> cb_init P c k v) \<and> cb_alloc1 P \<and> cb_alloc2 P)"

definition cbc_encrypts :: "cbc_calls \<Rightarrow> bool" where
  "cbc_encrypts P = (\<forall>c k v p. cbc_sizes c k v \<longrightarrow>
     (\<exists>o1 o2. cb_update P c k v p = Some o1 \<and> cb_final P c k v p = Some o2 \<and>
       length p < length o1 + length o2 \<and> length o1 + length o2 \<le> length p + cb_block P c))"

definition cbc_inverts :: "cbc_calls \<Rightarrow> cbc_calls \<Rightarrow> bool" where
  "cbc_inverts enc dec = (\<forall>c k v p o1 o2. cbc_sizes c k v \<longrightarrow>
     cb_update enc c k v p = Some o1 \<longrightarrow> cb_final enc c k v p = Some o2 \<longrightarrow>
     (\<exists>p1 p2. cb_update dec c k v (o1 @ o2) = Some p1 \<and> cb_final dec c k v (o1 @ o2) = Some p2 \<and> p1 @ p2 = p))"

text \<open>Two outcome records that satisfy the contract: a marker byte stands for the padding.\<close>

definition mark_enc :: cbc_calls where
  "mark_enc = \<lparr>cb_new = True, cb_init = (\<lambda>_ _ _. True), cb_block = (\<lambda>_. 16), cb_alloc1 = True,
     cb_update = (\<lambda>_ _ _ p. Some p), cb_final = (\<lambda>_ _ _ p. Some [1]), cb_alloc2 = True\<rparr>"

definition mark_dec :: cbc_calls where
  "mark_dec = \<lparr>cb_new = True, cb_init = (\<lambda>_ _ _. True), cb_block = (\<lambda>_. 16), cb_alloc1 = True,
     cb_update = (\<lambda>_ _ _ p. Some (butlast p)), cb_final = (\<lambda>_ _ _ p. Some []), cb_alloc2 = True\<rparr>"

section \<open>Lemmas\<close>

lemma mark_contract:
  "cbc_ready mark_enc" "cbc_ready mark_dec" "cbc_encrypts mark_enc" "cbc_inverts mark_enc mark_dec"
  by (auto simp: cbc_ready_def cbc_encrypts_def cbc_inverts_def mark_enc_def mark_dec_def)

lemma crypto_encrypt_ok:
  assumes "cbc_ready P" "cbc_encrypts P" "cbc_sizes (select_cipher (length k)) k v"
  obtains o1 o2 ev where "crypto_encrypt P k v p = Inr (0, Some (o1 @ o2), ev)"
    "cb_update P (select_cipher (length k)) k v p = Some o1"
    "cb_final P (select_cipher (length k)) k v p = Some o2" "length p < length (o1 @ o2)"
proof -
  obtain o1 o2 where out: "cb_update P (select_cipher (length k)) k v p = Some o1"
    "cb_final P (select_cipher (length k)) k v p = Some o2" "length p < length (o1 @ o2)"
    "length o1 + length o2 \<le> length p + cb_block P (select_cipher (length k))"
    using assms(2,3) unfolding cbc_encrypts_def by fastforce
  then have "\<exists>ev. crypto_encrypt P k v p = Inr (0, Some (o1 @ o2), ev)"
    using assms(1,3) by (auto simp: crypto_encrypt_def cbc_ready_def cbc_sizes_def Let_def)
  with that out(1-3) show thesis by blast
qed

lemma crypto_decrypt_ok:
  assumes "cbc_ready P" "cbc_sizes (select_cipher (length k)) k v" "cb_update P (select_cipher (length k)) k v ct = Some p1"
    "cb_final P (select_cipher (length k)) k v ct = Some p2" "length (p1 @ p2) \<le> length ct"
  shows "\<exists>ev. crypto_decrypt P k v ct = Inr (0, Some (p1 @ p2), ev)"
  using assms by (auto simp: crypto_decrypt_def cbc_ready_def cbc_sizes_def Let_def)

lemma one_shot_balanced:
  "live_contexts (snd (snd (crypto_encrypt_aes_gcm P pt key))) = 0"
  "live_contexts (snd (snd (crypto_encrypt_chacha20 P pt key))) = 0"
  "live_contexts (snd (snd (crypto_encrypt_aes_cbc P pt key))) = 0"
  by (auto simp: crypto_encrypt_aes_gcm_def crypto_encrypt_chacha20_def crypto_encrypt_aes_cbc_def Let_def
        split: option.splits)

lemma callbacks_balanced:
  "crypto_encrypt P key iv inp = Inr (ret, out, ev) \<Longrightarrow>
   live_contexts ev = 0 \<and> live_buffers ev = (if ret = 0 then 1 else 0) \<and> (out \<noteq> None \<longleftrightarrow> ret = 0)"
  "crypto_decrypt P key iv inp = Inr (ret, out, ev) \<Longrightarrow>
   live_contexts ev = 0 \<and> live_buffers ev = (if ret = 0 then 1 else 0) \<and> (out \<noteq> None \<longleftrightarrow> ret = 0)"
  by (auto simp: crypto_encrypt_def crypto_decrypt_def Let_def split: option.splits if_splits)

lemma aes_gcm_result:
  "crypto_encrypt_aes_gcm P pt key = (n, Some r, ev) \<Longrightarrow> n = int (length (co_ct r))"
  by (auto simp: crypto_encrypt_aes_gcm_def Let_def split: option.splits if_splits)

section \<open>Properties\<close>

text \<open>
  The two callbacks installed for libsignal are inverse to each other where OpenSSL's two directions are: with a key
  and an iv that have the bytes OpenSSL reads, encryption returns 0 with a ciphertext and decryption of that
  ciphertext returns 0 with the plaintext, without overflowing the work buffers.
\<close>

theorem crypto_callbacks_round_trip:
  assumes "cbc_ready enc" "cbc_ready dec" "cbc_encrypts enc" "cbc_inverts enc dec" "16 \<le> length key" "16 \<le> length iv"
  shows "\<exists>ct ev1 ev2. crypto_encrypt enc key iv pt = Inr (0, Some ct, ev1) \<and>
    crypto_decrypt dec key iv ct = Inr (0, Some pt, ev2)"
proof -
  have sizes: "cbc_sizes (select_cipher (length key)) key iv"
    using assms(5,6) by (simp add: cbc_sizes_def select_cipher_def)
  obtain o1 o2 ev1 where e: "crypto_encrypt enc key iv pt = Inr (0, Some (o1 @ o2), ev1)"
    "cb_update enc (select_cipher (length key)) key iv pt = Some o1"
    "cb_final enc (select_cipher (length key)) key iv pt = Some o2" "length pt < length (o1 @ o2)"
    using crypto_encrypt_ok [OF assms(1,3) sizes] by metis
  obtain p1 p2 where "cb_update dec (select_cipher (length key)) key iv (o1 @ o2) = Some p1"
    "cb_final dec (select_cipher (length key)) key iv (o1 @ o2) = Some p2" "p1 @ p2 = pt"
    using assms(4) sizes e(2,3) unfolding cbc_inverts_def by blast
  with crypto_decrypt_ok [OF assms(2) sizes] e(1,4) show ?thesis by (metis less_imp_le)
qed

theorem crypto_callbacks_round_trip_witness:
  "cbc_ready mark_enc \<and> (\<exists>ct ev1 ev2. crypto_encrypt mark_enc (replicate 32 0) (replicate 16 0) [1, 2, 3] = Inr (0, Some ct, ev1) \<and>
    crypto_decrypt mark_dec (replicate 32 0) (replicate 16 0) ct = Inr (0, Some [1, 2, 3], ev2))"
  using crypto_callbacks_round_trip [OF mark_contract, of "replicate 32 0" "replicate 16 0" "[1, 2, 3]"] mark_contract(1)
  by simp

text \<open>
  A key or an iv that is too short is read past its end: both callbacks do so as soon as they have a context, whatever
  the rest of the library does.
\<close>

theorem short_keys_overread:
  assumes "cb_new P" "length key < 16 \<or> length iv < 16"
  shows "crypto_encrypt P key iv pt = Inl Out_of_bounds_read \<and> crypto_decrypt P key iv pt = Inl Out_of_bounds_read"
  using assms by (auto simp: crypto_encrypt_def crypto_decrypt_def select_cipher_def Let_def)

theorem short_keys_overread_witness:
  "crypto_encrypt mark_enc [7] (replicate 16 0) [1, 2, 3] = Inl Out_of_bounds_read"
  using short_keys_overread [of mark_enc "[7]" "replicate 16 0" "[1, 2, 3]"] by (simp add: mark_enc_def)

text \<open>
  C26. No wrapper leaks a cipher context or a work buffer on any path, whichever library call fails:
  the one-shot encryptions release every context they create, and the two callbacks release theirs
  and every buffer but the one they hand out, which exists exactly when they return 0.
\<close>

theorem crypto_wrappers_release:
  "live_contexts (snd (snd (crypto_encrypt_aes_gcm P pt key))) = 0 \<and>
   live_contexts (snd (snd (crypto_encrypt_chacha20 P pt key))) = 0 \<and>
   live_contexts (snd (snd (crypto_encrypt_aes_cbc P pt key))) = 0 \<and>
   (case crypto_encrypt Q key iv pt of Inl _ \<Rightarrow> True | Inr (ret, out, ev) \<Rightarrow>
      live_contexts ev = 0 \<and> live_buffers ev = (if ret = 0 then 1 else 0) \<and> (out \<noteq> None \<longleftrightarrow> ret = 0)) \<and>
   (case crypto_decrypt Q key iv pt of Inl _ \<Rightarrow> True | Inr (ret, out, ev) \<Rightarrow>
      live_contexts ev = 0 \<and> live_buffers ev = (if ret = 0 then 1 else 0) \<and> (out \<noteq> None \<longleftrightarrow> ret = 0))"
  using callbacks_balanced by (auto simp: one_shot_balanced split: sum.splits prod.splits)

end
