(* ===== verification/Messaging.thy ===== *)
theory Messaging
  imports Database Evp_Crypto
begin

text \<open>
  Message delivery in \<^verbatim>\<open>src/src/server.c\<close>: looking a client up by nickname, broadcasting,
  private and encrypted messages, and the list of users online. The loops over the client array
  are recursions over the list of its slots.
\<close>

section \<open>Frames\<close>

definition json_message :: "string \<Rightarrow> string \<Rightarrow> string" where
  \<open>json_message sender text =
     ''{"type":"message","from":"'' @ sender @ ''","text":"'' @ text @ ''"}'' @ [NL]\<close>

definition json_private :: "string \<Rightarrow> string \<Rightarrow> string \<Rightarrow> string" where
  \<open>json_private sender target text =
     ''{"type":"private","from":"'' @ sender @ ''","to":"'' @ target @ ''","text":"'' @ text @ ''"}'' @ [NL]\<close>

definition json_encrypted :: "string \<Rightarrow> string \<Rightarrow> string \<Rightarrow> string" where
  \<open>json_encrypted sender target data =
     ''{"type":"encrypted","from":"'' @ sender @ ''","to":"'' @ target @ ''","data":"'' @ data @ ''"}'' @ [NL]\<close>

definition online_open :: string where
  \<open>online_open = ''{"type":"online","users":[''\<close>

definition online_close :: string where
  \<open>online_close = '']}'' @ [NL]\<close>

section \<open>Operations\<close>

definition reachable_client :: "secure_client_t \<Rightarrow> bool" where
  "reachable_client c = (c_fd c \<ge> 0 \<and> c_authorized c)"

fun find_from :: "secure_client_t list \<Rightarrow> nat \<Rightarrow> string \<Rightarrow> nat option" where
  "find_from [] i nick = None"
| "find_from (c # cs) i nick =
     (if reachable_client c \<and> cstr (c_nick c) = nick then Some i else find_from cs (Suc i) nick)"

definition find_client_by_nick :: "ultra_server_state_t \<Rightarrow> string \<Rightarrow> nat option" where
  "find_client_by_nick s nick = find_from (s_clients s) 0 nick"

fun broadcast_loop :: "secure_client_t list \<Rightarrow> string \<Rightarrow> event list" where
  "broadcast_loop [] json = []"
| "broadcast_loop (c # cs) json =
     (if reachable_client c then Ssl_safe_write (c_ssl c) json # broadcast_loop cs json
      else broadcast_loop cs json)"

definition broadcast_message :: "'db sqlite \<Rightarrow> string \<Rightarrow> string \<Rightarrow> 'db world \<Rightarrow> 'db world" where
  "broadcast_message E sender_nick message w =
     (let w1 = set_db (snd (save_message E sender_nick None None (map byte_of message) 0 (w_db w))) w;
          json = snprintf BUFFER_SIZE (json_message sender_nick message)
      in emit (broadcast_loop (s_clients (w_srv w1)) json) w1)"

definition send_private_message ::
  "'db sqlite \<Rightarrow> string \<Rightarrow> string \<Rightarrow> string \<Rightarrow> 'db world \<Rightarrow> 'db world" where
  "send_private_message E sender_nick target_nick message w =
     (case find_client_by_nick (w_srv w) target_nick of
        None \<Rightarrow> w
      | Some t \<Rightarrow>
          let w1 = set_db (snd (save_message E sender_nick (Some target_nick) None
                     (map byte_of message) 0 (w_db w))) w;
              json = snprintf BUFFER_SIZE (json_private sender_nick target_nick message)
          in if reachable_client (client w1 t) then send t json w1 else w1)"

text \<open>
  The ciphertext array has room for the plaintext and 128 bytes more. Only the ciphertext is
  encoded: the nonce and the tag that came with it go out of scope here. \<open>b64\<close> is the encoding
  that the BIO chain produces.
\<close>

definition encrypt_message_for_user ::
  "evp \<Rightarrow> (byte list \<Rightarrow> string) \<Rightarrow> ultra_server_state_t \<Rightarrow> nat \<Rightarrow> string \<Rightarrow> string \<Rightarrow>
   fault + int \<times> string option" where
  "encrypt_message_for_user P b64 s sender recipient_nick plaintext =
     (case find_client_by_nick s recipient_nick of
        None \<Rightarrow> Inr (-1, None)
      | Some _ \<Rightarrow>
          (case crypto_encrypt_aes_gcm P (map byte_of plaintext) (c_session_key (s_clients s ! sender)) of
             (n, Some r, _) \<Rightarrow>
               if length plaintext + 128 < length (co_ct r) then Inl Buffer_overflow
               else if n \<le> 0 then Inr (-1, None)
               else Inr (0, Some (cstr (b64 (take (nat n) (co_ct r)))))
           | (n, None, _) \<Rightarrow> Inr (-1, None)))"

definition cat_online :: "string \<Rightarrow> string \<Rightarrow> string" where
  "cat_online l s = strncat l s (BUFFER_SIZE - length l - 1)"

fun online_loop :: "secure_client_t list \<Rightarrow> bool \<Rightarrow> string \<Rightarrow> string" where
  "online_loop [] first l = l"
| "online_loop (c # cs) first l =
     (if reachable_client c then
        let l1 = (if \<not> first then cat_online l '','' else l);
            l2 = cat_online l1 [CHR 0x22];
            l3 = cat_online l2 (cstr (c_nick c));
            l4 = cat_online l3 [CHR 0x22]
        in online_loop cs False l4
      else online_loop cs first l)"

definition online_list :: "ultra_server_state_t \<Rightarrow> string" where
  "online_list s = cat_online (online_loop (s_clients s) True online_open) online_close"

definition send_online_users :: "nat \<Rightarrow> 'db world \<Rightarrow> 'db world" where
  "send_online_users i w = send i (online_list (w_srv w)) w"

section \<open>The reference list\<close>

fun quoted_names :: "bool \<Rightarrow> string list \<Rightarrow> string" where
  "quoted_names first [] = []"
| "quoted_names first (n # ns) =
     (if first then [] else '','') @ CHR 0x22 # n @ CHR 0x22 # quoted_names False ns"

definition online_names :: "ultra_server_state_t \<Rightarrow> string list" where
  "online_names s = map (\<lambda>c. cstr (c_nick c)) (filter reachable_client (s_clients s))"

definition online_reference :: "string list \<Rightarrow> string" where
  "online_reference names = online_open @ quoted_names True names @ online_close"

definition carries :: "string \<Rightarrow> secure_client_t \<Rightarrow> bool" where
  "carries nick c = (reachable_client c \<and> cstr (c_nick c) = nick)"

section \<open>Lemmas\<close>

lemma find_from_Some:
  "find_from cs i nick = Some k \<longleftrightarrow>
     (\<exists>j < length cs. k = i + j \<and> reachable_client (cs ! j) \<and> cstr (c_nick (cs ! j)) = nick \<and>
        (\<forall>m < j. \<not> (reachable_client (cs ! m) \<and> cstr (c_nick (cs ! m)) = nick)))"
proof (induction cs arbitrary: i)
  case (Cons c cs)
  show ?case
    by (cases "reachable_client c \<and> cstr (c_nick c) = nick")
       (auto simp: Cons.IH All_less_Suc2 Ex_less_Suc2)
qed simp

lemma find_from_None:
  "find_from cs i nick = None \<longleftrightarrow> (\<forall>c \<in> set cs. \<not> (reachable_client c \<and> cstr (c_nick c) = nick))"
  by (induction cs arbitrary: i) auto

lemma broadcast_loop_eq:
  "broadcast_loop cs json = map (\<lambda>c. Ssl_safe_write (c_ssl c) json) (filter reachable_client cs)"
  by (induction cs) auto

lemma cat_online_take:
  "cat_online (take (BUFFER_SIZE - 1) x) s = take (BUFFER_SIZE - 1) (x @ s)"
  by (simp add: cat_online_def strncat_def BUFFER_SIZE_def min_def)

lemma online_loop_eq:
  "online_loop cs first (take (BUFFER_SIZE - 1) x) =
     take (BUFFER_SIZE - 1) (x @ quoted_names first (map (\<lambda>c. cstr (c_nick c)) (filter reachable_client cs)))"
proof (induction cs arbitrary: first x)
  case (Cons c cs)
  show ?case
  proof (cases "reachable_client c")
    case True
    have "online_loop (c # cs) first (take (BUFFER_SIZE - 1) x) = online_loop cs False
        (take (BUFFER_SIZE - 1) (x @ (if first then [] else '','') @ CHR 0x22 # cstr (c_nick c) @ [CHR 0x22]))"
      using True by (cases first)
        (simp_all only: online_loop.simps Let_def if_True if_False not_False_eq_True not_True_eq_False
           cat_online_take append_assoc append.simps)
    with True show ?thesis
      by (simp only: Cons.IH filter.simps list.map quoted_names.simps if_True append_assoc append.simps)
  next
    case False
    then show ?thesis by (simp only: online_loop.simps if_False Cons.IH filter.simps)
  qed
qed simp

lemma messaging_frame [simp, frame_simps]:
  "w_srv (broadcast_message E a b w) = w_srv w"
  "w_srv (send_private_message E a b c w) = w_srv w"
  "w_srv (send_online_users i w) = w_srv w"
  "w_db (send_online_users i w) = w_db w"
  by (simp_all add: broadcast_message_def send_private_message_def send_online_users_def Let_def
      split: option.splits)

lemma length_json_message: "length (json_message a b) = length a + length b + 39"
  by (simp add: json_message_def)

lemma length_json_private: "length (json_private a b c) = length a + length b + length c + 47"
  by (simp add: json_private_def)

lemma find_from_fields:
  "map (\<lambda>c. (reachable_client c, cstr (c_nick c))) cs = map (\<lambda>c. (reachable_client c, cstr (c_nick c))) ds \<Longrightarrow>
   find_from cs i n = find_from ds i n"
proof (induction cs arbitrary: ds i)
  case (Cons c cs)
  then obtain d ds' where "ds = d # ds'" by (cases ds) auto
  with Cons show ?case by auto
qed simp

lemma find_client_set_client:
  "i < length (s_clients (w_srv w)) \<Longrightarrow> reachable_client c = reachable_client (client w i) \<Longrightarrow> c_nick c = c_nick (client w i) \<Longrightarrow>
   find_client_by_nick (w_srv (set_client i c w)) n = find_client_by_nick (w_srv w) n"
  unfolding find_client_by_nick_def
  by (rule find_from_fields) (auto simp: nth_list_update intro!: nth_equalityI)


lemma private_message_trace:
  assumes "length from \<le> 31" "length to \<le> 31" "length m \<le> 2047" "find_client_by_nick (w_srv w) to = Some j"
  shows "w_trace (send_private_message E from to m w) =
    w_trace w @ [Ssl_safe_write (c_ssl (client w j)) (json_private from to m)]"
proof -
  have "reachable_client (client w j)"
    using assms(4) unfolding find_client_by_nick_def find_from_Some by auto
  with assms show ?thesis
    by (simp add: send_private_message_def Let_def snprintf_fits length_json_private BUFFER_SIZE_def)
qed

lemma append_quote_inj:
  "CHR 0x22 \<notin> set a \<Longrightarrow> CHR 0x22 \<notin> set b \<Longrightarrow>
   a @ CHR 0x22 # s = b @ CHR 0x22 # t \<longleftrightarrow> a = b \<and> s = t"
proof (induction a arbitrary: b)
  case Nil
  then show ?case by (cases b) auto
next
  case (Cons c a)
  then show ?case by (cases b) auto
qed

context user_store
begin

lemma messaging_users:
  assumes "ready (w_db w)"
  shows "users (w_db (broadcast_message E a b w)) = users (w_db w)" "ready (w_db (broadcast_message E a b w))"
    "users (w_db (send_private_message E a b c w)) = users (w_db w)"
    "ready (w_db (send_private_message E a b c w))"
  using assms save_message_users
  by (auto simp: broadcast_message_def send_private_message_def Let_def split: option.splits)

end

lemma online_list_cut:
  "online_list s = snprintf BUFFER_SIZE (online_reference (online_names s))"
proof -
  have "online_open = take (BUFFER_SIZE - 1) online_open"
    by (simp add: online_open_def BUFFER_SIZE_def)
  then have "online_loop (s_clients s) True online_open =
      take (BUFFER_SIZE - 1) (online_open @ quoted_names True (online_names s))"
    using online_loop_eq [of "s_clients s" True online_open] by (simp only: online_names_def)
  then show ?thesis
    by (simp only: online_list_def cat_online_take online_reference_def snprintf_def append_assoc)
qed

section \<open>Properties\<close>

text \<open>
  \<open>find_client_by_nick\<close> returns the first slot, in array order, that is connected, logged in and
  carries exactly that nickname, and NULL only when there is no such slot.
\<close>

theorem find_client_by_nick_first:
  "(find_client_by_nick s nick = Some k \<longleftrightarrow>
      k < length (s_clients s) \<and> carries nick (s_clients s ! k) \<and>
      \<not> list_ex (carries nick) (take k (s_clients s))) \<and>
   (find_client_by_nick s nick = None \<longleftrightarrow> \<not> list_ex (carries nick) (s_clients s))"
  unfolding find_client_by_nick_def find_from_Some find_from_None
  by (auto simp: carries_def list_ex_length in_set_conv_nth dest: nth_mem)

text \<open>
  C15. The list of users online, built with at most four bounded appends per user, is the full list of the
  quoted nicknames of all connected and logged-in clients in slot order, cut at 8191 characters:
  it never overflows the array and is complete whenever it fits.
\<close>

theorem online_list_refines:
  "online_list s = snprintf BUFFER_SIZE (online_reference (online_names s))"
  by (rule online_list_cut)

text \<open>
  A broadcast by a logged-in user is written to every connected and logged-in client, in slot
  order and to nobody else, after the message was stored once; and as long as nickname and text
  have at most 8152 characters together, each of them gets the whole frame.
\<close>

theorem broadcast_reaches_all:
  assumes "length sender + length message \<le> 8152" "sq_prepare E (w_db w) SQL_MESSAGE"
  shows "w_trace (broadcast_message E sender message w) =
      w_trace w @ map (\<lambda>c. Ssl_safe_write (c_ssl c) (json_message sender message))
        (filter reachable_client (s_clients (w_srv w))) \<and>
    w_srv (broadcast_message E sender message w) = w_srv w \<and>
    w_db (broadcast_message E sender message w) = snd (sq_step E (w_db w) SQL_MESSAGE
      [Sql_text sender, Sql_text [], Sql_text [], Sql_blob (map byte_of message), Sql_int 0])"
  using assms
  by (simp add: broadcast_message_def Let_def broadcast_loop_eq snprintf_fits length_json_message
      BUFFER_SIZE_def save_message_def)

theorem broadcast_reaches_all_witness:
  "w_trace (broadcast_message table_engine ''ann'' ''hi'' \<lparr>w_srv = server_init, w_db = no_tables, w_trace = []\<rparr>) = []"
proof -
  have "length ''ann'' + length ''hi'' \<le> 8152" by simp
  moreover have "filter reachable_client (s_clients server_init) = []"
    by (simp add: server_init_def reachable_client_def zero_client_def)
  ultimately show ?thesis
    using broadcast_reaches_all [of "''ann''" "''hi''" table_engine "\<lparr>w_srv = server_init, w_db = no_tables, w_trace = []\<rparr>"]
    by simp
qed

text \<open>
  A private message goes to exactly one client, the one \<open>find_client_by_nick\<close> names, and its
  frame is never cut: nicknames of at most 31 and a text of at most 2047 characters always fit.
  With no such client nothing is stored and nothing is written.
\<close>

theorem private_message_delivery:
  assumes "length sender \<le> 31" "length target \<le> 31" "length message \<le> 2047"
  shows "case find_client_by_nick (w_srv w) target of
      None \<Rightarrow> send_private_message E sender target message w = w
    | Some t \<Rightarrow>
        w_trace (send_private_message E sender target message w) =
          w_trace w @ [Ssl_safe_write (c_ssl (client w t)) (json_private sender target message)]"
proof (cases "find_client_by_nick (w_srv w) target")
  case None
  then show ?thesis by (simp add: send_private_message_def)
next
  case (Some t)
  with private_message_trace [OF assms Some] show ?thesis by simp
qed

definition one_client :: "nat \<Rightarrow> string \<Rightarrow> secure_client_t" where
  "one_client h n = zero_client\<lparr>c_fd := 9, c_ssl := Some h, c_authorized := True, c_nick := n @ nuls (32 - length n)\<rparr>"

theorem private_message_delivery_witness:
  "w_trace (send_private_message table_engine ''ann'' ''bob'' ''hi''
      \<lparr>w_srv = server_init\<lparr>s_clients := [one_client 5 ''bob'']\<rparr>, w_db = no_tables, w_trace = []\<rparr>) =
   [Ssl_safe_write (Some 5) (json_private ''ann'' ''bob'' ''hi'')]"
proof -
  let ?w = "\<lparr>w_srv = server_init\<lparr>s_clients := [one_client 5 ''bob'']\<rparr>, w_db = no_tables, w_trace = []\<rparr>"
  have "find_client_by_nick (w_srv ?w) ''bob'' = Some 0"
    by (simp add: find_client_by_nick_def reachable_client_def one_client_def cstr_def numeral_eq_Suc)
  then show ?thesis
    using private_message_delivery [of "''ann''" "''bob''" "''hi''" table_engine ?w]
    by (simp add: one_client_def)
qed

text \<open>
  Frames are unambiguous: when the names in two private (or broadcast) frames hold no double
  quote, which registration and sanitizing ensure, equal frames carry equal names and equal texts,
  so no nickname or text can make one frame look like another.
\<close>

theorem frames_unambiguous:
  assumes "CHR 0x22 \<notin> set s1" "CHR 0x22 \<notin> set s2" "CHR 0x22 \<notin> set t1" "CHR 0x22 \<notin> set t2"
  shows "(json_private s1 t1 m1 = json_private s2 t2 m2 \<longleftrightarrow> s1 = s2 \<and> t1 = t2 \<and> m1 = m2) \<and>
    (json_message s1 m1 = json_message s2 m2 \<longleftrightarrow> s1 = s2 \<and> m1 = m2)"
  using assms by (auto simp: json_private_def json_message_def append_quote_inj)

theorem frames_unambiguous_witness: "json_private ''ann'' ''bob'' ''x'' \<noteq> json_private ''ann'' ''bo'' ''x''"
  using frames_unambiguous [of "''ann''" "''ann''" "''bob''" "''bo''" "''x''" "''x''"] by simp

text \<open>
  What an encrypted message carries does not depend on the nonce or on the authentication tag:
  any two encryptions with the same ciphertext give the same payload, so the recipient cannot
  learn the nonce and tag it would need to decrypt and authenticate the message.
\<close>

theorem encrypted_payload_omits_nonce_and_tag:
  assumes "crypto_encrypt_aes_gcm P (map byte_of plain) (c_session_key (s_clients s ! i)) = (n, Some r, ev)"
    "crypto_encrypt_aes_gcm P' (map byte_of plain) (c_session_key (s_clients s ! i)) = (n', Some r', ev')"
    "co_ct r = co_ct r'"
  shows "encrypt_message_for_user P b64 s i target plain = encrypt_message_for_user P' b64 s i target plain"
proof -
  have "n = n'" using aes_gcm_result [OF assms(1)] aes_gcm_result [OF assms(2)] assms(3) by simp
  then show ?thesis
    using assms by (simp add: encrypt_message_for_user_def split: option.splits)
qed

definition plain_evp :: "byte list \<Rightarrow> byte list \<Rightarrow> evp" where
  "plain_evp nonce tag = \<lparr>ev_new = True, ev_init = True, ev_set_ivlen = True, ev_nonce = nonce,
     ev_init_key = True, ev_update = (\<lambda>k v p. Some p), ev_final = (\<lambda>k v p. Some []),
     ev_tag = (\<lambda>k v p. Some tag)\<rparr>"

theorem encrypted_payload_omits_nonce_and_tag_witness:
  "encrypt_message_for_user (plain_evp [1] [2]) (\<lambda>b. ''QQ'') (server_init\<lparr>s_clients := [one_client 5 ''bob'']\<rparr>) 0 ''bob'' ''A'' =
   encrypt_message_for_user (plain_evp [3] [4]) (\<lambda>b. ''QQ'') (server_init\<lparr>s_clients := [one_client 5 ''bob'']\<rparr>) 0 ''bob'' ''A''"
proof -
  have enc: "crypto_encrypt_aes_gcm (plain_evp nc tg) p k =
      (int (length p), Some \<lparr>co_ct = p, co_iv = take 12 nc, co_tag = take 16 tg\<rparr>, [Ctx_new, Ctx_free])" for nc tg p k
    by (simp add: crypto_encrypt_aes_gcm_def plain_evp_def)
  show ?thesis
    by (rule encrypted_payload_omits_nonce_and_tag [OF enc enc]) simp
qed

end
