(* ===== verification/Audit_Log.thy ===== *)
theory Audit_Log
  imports Database
begin

text \<open>
  The audit ring of \<^verbatim>\<open>src/src/server.c\<close>: \<open>log_security_event\<close> takes the next of the
  1000 slots, starting over when they are used up, copies the four texts into the fixed fields of
  the slot under the audit mutex, and then stores the record in the database.
\<close>

definition next_slot :: "ultra_server_state_t \<Rightarrow> nat" where
  "next_slot s = (if s_audit_log_count s \<ge> 1000 then 0 else s_audit_log_count s)"

text \<open>A NULL nickname empties the field; a NULL address or text leaves what the slot held.\<close>

definition fill_log ::
  "string \<Rightarrow> string option \<Rightarrow> string option \<Rightarrow> string option \<Rightarrow> time_t \<Rightarrow> audit_log_t \<Rightarrow> audit_log_t" where
  "fill_log event_type user_nick ip details now log =
     log\<lparr>al_event_type := strncpy (al_event_type log) event_type (32 - 1),
        al_user_nick := (case user_nick of
          Some n \<Rightarrow> strncpy (al_user_nick log) n (MAX_NICK_LENGTH - 1)
        | None \<Rightarrow> (al_user_nick log)[0 := NUL]),
        al_ip_address := (case ip of
          Some a \<Rightarrow> strncpy (al_ip_address log) a (INET6_ADDRSTRLEN - 1)
        | None \<Rightarrow> al_ip_address log),
        al_details := (case details of
          Some t \<Rightarrow> strncpy (al_details log) t (512 - 1)
        | None \<Rightarrow> al_details log),
        al_timestamp := now\<rparr>"

definition log_security_event ::
  "'db sqlite \<Rightarrow> string \<Rightarrow> string option \<Rightarrow> string option \<Rightarrow> string option \<Rightarrow> time_t \<Rightarrow>
   'db world \<Rightarrow> 'db world" where
  "log_security_event E event_type user_nick ip details now w =
     (let s = w_srv w; k = next_slot s;
          log = fill_log event_type user_nick ip details now (s_audit_logs s ! k);
          w1 = set_srv (s\<lparr>s_audit_logs := (s_audit_logs s)[k := log], s_audit_log_count := Suc k\<rparr>)
                 (emit [Mutex_lock Audit_mutex] w);
          w2 = emit [Mutex_unlock Audit_mutex] w1
      in set_db (save_audit_log_to_db E log (w_db w2)) w2)"

section \<open>Lemmas\<close>

lemma fill_log_wf: "wf_log l \<Longrightarrow> wf_log (fill_log t n i d now l)"
  by (auto simp: wf_log_def fill_log_def limit_defs INET6_ADDRSTRLEN_def nth_strncpy_last split: option.splits)

lemma next_slot_less: "next_slot s < AUDIT_SLOTS"
  by (simp add: next_slot_def AUDIT_SLOTS_def)

lemma log_event_frame [simp, frame_simps]:
  "s_clients (w_srv (log_security_event E t n i d now w)) = s_clients (w_srv w)"
  "s_p2p (w_srv (log_security_event E t n i d now w)) = s_p2p (w_srv w)"
  "s_running (w_srv (log_security_event E t n i d now w)) = s_running (w_srv w)"
  "s_total_connections (w_srv (log_security_event E t n i d now w)) = s_total_connections (w_srv w)"
  "w_trace (log_security_event E t n i d now w) =
     w_trace w @ [Mutex_lock Audit_mutex, Mutex_unlock Audit_mutex]"
  by (simp_all add: log_security_event_def Let_def)

lemma log_event_slot:
  "s_audit_logs (w_srv (log_security_event E t n i d now w)) =
     (s_audit_logs (w_srv w))[next_slot (w_srv w) :=
        fill_log t n i d now (s_audit_logs (w_srv w) ! next_slot (w_srv w))]"
  "s_audit_log_count (w_srv (log_security_event E t n i d now w)) = Suc (next_slot (w_srv w))"
  "w_db (log_security_event E t n i d now w) =
     save_audit_log_to_db E (fill_log t n i d now (s_audit_logs (w_srv w) ! next_slot (w_srv w))) (w_db w)"
  by (simp_all add: log_security_event_def Let_def)

lemma fill_log_timestamp [simp]: "al_timestamp (fill_log t n i d now l) = now"
  by (simp add: fill_log_def)

lemma log_event_wf: "wf_server (w_srv w) \<Longrightarrow> wf_server (w_srv (log_security_event E t n i d now w))"
proof -
  assume wf: "wf_server (w_srv w)"
  have "wf_log (s_audit_logs (w_srv w) ! next_slot (w_srv w))"
    using wf next_slot_less [of "w_srv w"] by (simp add: wf_server_def list_all_iff)
  then show ?thesis
    using wf next_slot_less [of "w_srv w"]
    by (auto simp: log_security_event_def Let_def wf_server_def list_all_iff fill_log_wf
        dest: set_update_subset_insert [THEN subsetD])
qed

lemma fill_log_cstr:
  assumes "wf_log l" "is_cstr t" "is_cstr n" "is_cstr i" "is_cstr d"
  shows "cstr (al_event_type (fill_log t (Some n) (Some i) (Some d) now l)) = take 31 t"
    "cstr (al_user_nick (fill_log t (Some n) (Some i) (Some d) now l)) = take 30 n"
    "cstr (al_ip_address (fill_log t (Some n) (Some i) (Some d) now l)) = take 45 i"
    "cstr (al_details (fill_log t (Some n) (Some i) (Some d) now l)) = take 511 d"
  using assms by (simp_all add: fill_log_def wf_log_def limit_defs INET6_ADDRSTRLEN_def cstr_strncpy)

context user_store
begin

lemma log_event_users:
  "ready (w_db w) \<Longrightarrow> users (w_db (log_security_event E t n i d now w)) = users (w_db w) \<and>
     ready (w_db (log_security_event E t n i d now w))"
  by (simp add: log_security_event_def Let_def save_audit_users)

end

section \<open>Properties\<close>

text \<open>
  C27. Logging an event never leaves the ring of 1000 slots: it fills the slot the counter points to, or the first
  one when the counter has reached the end, leaves every other slot as it was, sets the counter to the slot after
  it and keeps the state well formed; and both that slot and the row stored in the database hold the four texts
  cut to their fields (31, 30, 45 and 511 characters), whatever their length, and the time.
\<close>

theorem log_security_event_ring:
  assumes "wf_server (w_srv w)" "is_cstr t" "is_cstr n" "is_cstr i" "is_cstr d"
    "sq_prepare E (w_db w) SQL_AUDIT"
    and k: "k = (if s_audit_log_count (w_srv w) < 1000 then s_audit_log_count (w_srv w) else 0)"
    and w': "w' = log_security_event E t (Some n) (Some i) (Some d) now w"
    and log: "log = s_audit_logs (w_srv w') ! k"
  shows "k < length (s_audit_logs (w_srv w)) \<and> length (s_audit_logs (w_srv w')) = 1000 \<and> wf_server (w_srv w') \<and>
    s_audit_log_count (w_srv w') = Suc k \<and>
    (\<forall>j. j \<noteq> k \<longrightarrow> s_audit_logs (w_srv w') ! j = s_audit_logs (w_srv w) ! j) \<and>
    cstr (al_event_type log) = take 31 t \<and> cstr (al_user_nick log) = take 30 n \<and>
    cstr (al_ip_address log) = take 45 i \<and> cstr (al_details log) = take 511 d \<and> al_timestamp log = now \<and>
    w_db w' = snd (sq_step E (w_db w) SQL_AUDIT [Sql_text (take 31 t), Sql_text (take 30 n),
      Sql_text (take 45 i), Sql_text (take 511 d), Sql_int now])"
proof -
  have slot: "next_slot (w_srv w) = k" using k by (simp add: next_slot_def)
  have len: "k < length (s_audit_logs (w_srv w))" "length (s_audit_logs (w_srv w)) = 1000"
    using assms(1) next_slot_less [of "w_srv w"] slot by (simp_all add: wf_server_def AUDIT_SLOTS_def)
  then have wfl: "wf_log (s_audit_logs (w_srv w) ! k)"
    using assms(1) by (simp add: wf_server_def list_all_iff)
  have "log = fill_log t (Some n) (Some i) (Some d) now (s_audit_logs (w_srv w) ! k)"
    using len by (simp add: log w' log_event_slot slot)
  then show ?thesis
    using len log_event_wf [OF assms(1)] assms(6) fill_log_cstr [OF wfl assms(2-5)]
    by (simp add: w' log_event_slot slot save_audit_log_to_db_def)
qed

theorem log_security_event_ring_witness:
  "al_timestamp (s_audit_logs (w_srv (log_security_event table_engine ''USER_LOGIN'' (Some ''ann'')
     (Some ''127.0.0.1'') (Some ''ok'') 5 \<lparr>w_srv = server_init\<lparr>s_audit_log_count := 1000\<rparr>, w_db = no_tables, w_trace = []\<rparr>)) ! 0) = 5 \<and>
   s_audit_log_count (w_srv (log_security_event table_engine ''USER_LOGIN'' (Some ''ann'')
     (Some ''127.0.0.1'') (Some ''ok'') 5 \<lparr>w_srv = server_init\<lparr>s_audit_log_count := 1000\<rparr>, w_db = no_tables, w_trace = []\<rparr>)) = 1"
proof -
  let ?w = "\<lparr>w_srv = server_init\<lparr>s_audit_log_count := 1000\<rparr>, w_db = no_tables, w_trace = []\<rparr>"
  have "wf_server (w_srv ?w)" using wf_server_init by (simp add: wf_server_def AUDIT_SLOTS_def)
  moreover have "sq_prepare table_engine (w_db ?w) SQL_AUDIT" by simp
  moreover have "is_cstr ''USER_LOGIN''" "is_cstr ''ann''" "is_cstr ''127.0.0.1''" "is_cstr ''ok''" by simp_all
  ultimately show ?thesis
    using log_security_event_ring [of ?w "''USER_LOGIN''" "''ann''" "''127.0.0.1''" "''ok''" table_engine 0 _ 5, OF _ _ _ _ _ _ _ refl refl]
    by simp
qed

end
