(* ===== verification/Peer_Network.thy ===== *)
theory Peer_Network
  imports Server_State
begin

text \<open>
  The table of peers of \<^verbatim>\<open>src/src/server.c\<close>. A login appends a peer; nothing removes one.
  The file defines \<open>add_peer_to_network\<close> twice; the second copy does not test the public key
  for NULL.
\<close>

definition init_p2p_network :: "ultra_server_state_t \<Rightarrow> ultra_server_state_t" where
  "init_p2p_network s = s\<lparr>s_p2p := (s_p2p s)\<lparr>nw_count := 0\<rparr>\<rparr>"

definition fill_peer ::
  "string \<Rightarrow> sockaddr_in \<Rightarrow> byte list option \<Rightarrow> byte list option \<Rightarrow> time_t \<Rightarrow> secure_peer_t \<Rightarrow> secure_peer_t" where
  "fill_peer peer_id addr pub_key quantum_key now p =
     p\<lparr>pr_peer_id := strncpy (pr_peer_id p) peer_id (64 - 1),
       pr_addr := addr,
       pr_last_seen := now,
       pr_public_key := (case pub_key of None \<Rightarrow> pr_public_key p | Some k \<Rightarrow> take 32 k),
       pr_quantum_key := (case quantum_key of None \<Rightarrow> pr_quantum_key p
                          | Some q \<Rightarrow> take QUANTUM_KEY_LENGTH q),
       pr_is_connected := True\<rparr>"

definition add_peer_to_network ::
  "string \<Rightarrow> sockaddr_in \<Rightarrow> byte list option \<Rightarrow> byte list option \<Rightarrow> time_t \<Rightarrow> 'db world \<Rightarrow> int \<times> 'db world" where
  "add_peer_to_network peer_id addr pub_key quantum_key now w =
     (let w1 = emit [Mutex_lock P2p_mutex] w; n = s_p2p (w_srv w1) in
      if nw_count n \<ge> MAX_CLIENTS then (-1, emit [Mutex_unlock P2p_mutex] w1)
      else
        let p = fill_peer peer_id addr pub_key quantum_key now (nw_peers n ! nw_count n);
            n' = n\<lparr>nw_peers := (nw_peers n)[nw_count n := p], nw_count := nw_count n + 1\<rparr>;
            w2 = set_srv ((w_srv w1)\<lparr>s_p2p := n'\<rparr>) w1
        in (0, emit [Mutex_unlock P2p_mutex] w2))"

definition add_peer_to_network_2 ::
  "string \<Rightarrow> sockaddr_in \<Rightarrow> byte list option \<Rightarrow> byte list option \<Rightarrow> time_t \<Rightarrow> 'db world \<Rightarrow>
   fault + int \<times> 'db world" where
  "add_peer_to_network_2 peer_id addr pub_key quantum_key now w =
     (let w1 = emit [Mutex_lock P2p_mutex] w; n = s_p2p (w_srv w1) in
      if nw_count n \<ge> MAX_CLIENTS then Inr (-1, emit [Mutex_unlock P2p_mutex] w1)
      else case pub_key of
        None \<Rightarrow> Inl Null_dereference
      | Some k \<Rightarrow>
        let p = fill_peer peer_id addr (Some k) quantum_key now (nw_peers n ! nw_count n);
            n' = n\<lparr>nw_peers := (nw_peers n)[nw_count n := p], nw_count := nw_count n + 1\<rparr>;
            w2 = set_srv ((w_srv w1)\<lparr>s_p2p := n'\<rparr>) w1
        in Inr (0, emit [Mutex_unlock P2p_mutex] w2))"

text \<open>The peers the table holds, and the abstract operation: append below the capacity.\<close>

definition known_peers :: "'db world \<Rightarrow> secure_peer_t list" where
  "known_peers w = take (nw_count (s_p2p (w_srv w))) (nw_peers (s_p2p (w_srv w)))"

section \<open>Lemmas\<close>

lemma wf_fill_peer:
  "wf_peer p \<Longrightarrow> (\<forall>k. pub = Some k \<longrightarrow> length k = 32) \<Longrightarrow> (\<forall>q. quantum = Some q \<longrightarrow> length q = 64) \<Longrightarrow>
   wf_peer (fill_peer i a pub quantum now p)"
  by (auto simp: wf_peer_def fill_peer_def QUANTUM_KEY_LENGTH_def nth_strncpy_last split: option.splits)

lemma add_peer_frame [simp, frame_simps]:
  "s_clients (w_srv (snd (add_peer_to_network i a p q now w))) = s_clients (w_srv w)"
  "s_audit_logs (w_srv (snd (add_peer_to_network i a p q now w))) = s_audit_logs (w_srv w)"
  "s_audit_log_count (w_srv (snd (add_peer_to_network i a p q now w))) = s_audit_log_count (w_srv w)"
  "s_running (w_srv (snd (add_peer_to_network i a p q now w))) = s_running (w_srv w)"
  "s_master_key (w_srv (snd (add_peer_to_network i a p q now w))) = s_master_key (w_srv w)"
  "s_quantum_master_key (w_srv (snd (add_peer_to_network i a p q now w))) = s_quantum_master_key (w_srv w)"
  "s_total_connections (w_srv (snd (add_peer_to_network i a p q now w))) = s_total_connections (w_srv w)"
  "w_db (snd (add_peer_to_network i a p q now w)) = w_db w"
  "w_trace (snd (add_peer_to_network i a p q now w)) =
     w_trace w @ [Mutex_lock P2p_mutex, Mutex_unlock P2p_mutex]"
  by (simp_all add: add_peer_to_network_def Let_def)

lemma add_peer_wf_network:
  assumes "wf_network (s_p2p (w_srv w))" "\<forall>k. pub = Some k \<longrightarrow> length k = 32"
    "\<forall>q. quantum = Some q \<longrightarrow> length q = 64"
  shows "wf_network (s_p2p (w_srv (snd (add_peer_to_network i a pub quantum now w))))"
proof (cases "nw_count (s_p2p (w_srv w)) \<ge> MAX_CLIENTS")
  case True
  with assms show ?thesis by (simp add: add_peer_to_network_def Let_def)
next
  case False
  let ?n = "s_p2p (w_srv w)"
  have "wf_peer (nw_peers ?n ! nw_count ?n)"
    using assms(1) False by (simp add: wf_network_def list_all_iff)
  with assms False show ?thesis
    by (auto simp: add_peer_to_network_def Let_def wf_network_def list_all_iff wf_fill_peer
        dest: set_update_subset_insert [THEN subsetD])
qed

lemma add_peer_wf:
  assumes "wf_server (w_srv w)" "\<forall>k. pub = Some k \<longrightarrow> length k = 32" "\<forall>q. quantum = Some q \<longrightarrow> length q = 64"
  shows "wf_server (w_srv (snd (add_peer_to_network i a pub quantum now w)))"
  using assms add_peer_wf_network [of w pub quantum i a now] by (simp add: wf_server_def)

section \<open>Properties\<close>

text \<open>
  The peer table refines a list that grows at its end and is capped at 1000 entries: below the
  cap adding a peer returns 0 and appends exactly that peer, keeping all earlier ones; at the cap it
  returns -1 and changes nothing; and the p2p mutex is released on both paths. Since no operation
  removes a peer, the table accepts at most 1000 logins in the life of the server.
\<close>

theorem add_peer_appends:
  assumes "wf_network (s_p2p (w_srv w))" "add_peer_to_network pid addr pub quantum now w = (ret, w')"
  shows "(if length (known_peers w) < 1000
          then ret = 0 \<and> known_peers w' = known_peers w @
            [fill_peer pid addr pub quantum now (nw_peers (s_p2p (w_srv w)) ! length (known_peers w))]
          else ret = -1 \<and> known_peers w' = known_peers w \<and> w_srv w' = w_srv w) \<and>
    w_trace w' = w_trace w @ [Mutex_lock P2p_mutex, Mutex_unlock P2p_mutex]"
proof -
  let ?n = "s_p2p (w_srv w)"
  have len: "length (nw_peers ?n) = 1000" "nw_count ?n \<le> 1000"
    using assms(1) by (simp_all add: wf_network_def MAX_CLIENTS_def)
  show ?thesis
    using assms(2) len
    by (auto simp: add_peer_to_network_def Let_def known_peers_def MAX_CLIENTS_def
        take_Suc_conv_app_nth min_absorb2)
qed

theorem add_peer_appends_witness:
  "let w = \<lparr>w_srv = server_init, w_db = (), w_trace = []\<rparr> in
   fst (add_peer_to_network ''p1'' zero_addr None None 3 w) = 0 \<and>
   length (known_peers (snd (add_peer_to_network ''p1'' zero_addr None None 3 w))) = 1"
proof -
  let ?w = "\<lparr>w_srv = server_init, w_db = (), w_trace = []\<rparr>"
  obtain r w' where a: "add_peer_to_network ''p1'' zero_addr None None 3 ?w = (r, w')" by fastforce
  have "wf_network (s_p2p (w_srv ?w))" using wf_server_init by (simp add: wf_server_def)
  moreover have "length (known_peers ?w) = 0" by (simp add: known_peers_def server_init_def)
  ultimately show ?thesis using add_peer_appends [OF _ a] a by simp
qed

text \<open>
  The two definitions of \<open>add_peer_to_network\<close> in the file agree on every call with a public
  key, which is how the server calls it.
\<close>

theorem add_peer_definitions_agree:
  "add_peer_to_network_2 pid addr (Some k) quantum now w =
     Inr (add_peer_to_network pid addr (Some k) quantum now w)"
  by (simp add: add_peer_to_network_2_def add_peer_to_network_def Let_def)

end
