(* ===== verification/Commands.thy ===== *)
theory Commands
  imports Messaging Audit_Log Peer_Network
begin

text \<open>
  The command handlers of \<^verbatim>\<open>src/src/server.c\<close>: registration, login, help, and the commands of
  a logged-in user. A handler takes the index of the client's slot, the command line (a C string),
  and the world, and returns the world after it, or the fault that undefined behaviour leads to.
\<close>

section \<open>Replies\<close>

definition msg_auth_required :: string where
  \<open>msg_auth_required = ''{"type":"error","message":"Authentication required"}'' @ [NL]\<close>

definition msg_nick_exists :: string where
  \<open>msg_nick_exists = ''{"type":"register","status":"error","message":"Nickname already exists"}'' @ [NL]\<close>

definition msg_db_error :: string where
  \<open>msg_db_error = ''{"type":"register","status":"error","message":"Database error"}'' @ [NL]\<close>

definition msg_bad_nick :: string where
  \<open>msg_bad_nick = ''{"type":"register","status":"error","message":"Invalid nickname"}'' @ [NL]\<close>

definition msg_bad_login :: string where
  \<open>msg_bad_login = ''{"type":"login","status":"error","message":"Invalid credentials"}'' @ [NL]\<close>

definition msg_help :: string where
  \<open>msg_help = ''{"type":"help","commands":["/register <nick> - Register new account","/login <nick> <token> - Login to account","/msg <user> <text> - Send private message","/online - List online users","/help - This help message"]}'' @ [NL]\<close>

definition json_registered :: "string \<Rightarrow> string \<Rightarrow> int \<Rightarrow> string" where
  \<open>json_registered nick token level =
     ''{"type":"register","status":"success","nick":"'' @ nick @ ''","token":"'' @ token @
     ''","security_level":'' @ dec_int level @ ''}'' @ [NL]\<close>

definition json_logged_in :: "string \<Rightarrow> uint64 \<Rightarrow> string" where
  \<open>json_logged_in nick session_id =
     ''{"type":"login","status":"success","nick":"'' @ nick @ ''","session_id":"'' @
     dec_nat (unat session_id) @ ''"}'' @ [NL]\<close>

section \<open>Formats\<close>

definition fmt_register :: "directive list" where
  "fmt_register = lits ''/register'' @ [Ws, Word_field (Some 31)]"

definition fmt_login :: "directive list" where
  "fmt_login = lits ''/login'' @ [Ws, Word_field (Some 31), Ws, Word_field (Some 63)]"

definition fmt_msg :: "directive list" where
  "fmt_msg = lits ''/msg'' @ [Ws, Word_field (Some 31), Ws, Line_field (Some 2047)]"

definition fmt_send_enc :: "directive list" where
  "fmt_send_enc = lits ''/send_enc'' @ [Ws, Word_field (Some 31), Ws, Line_field (Some 2047)]"

section \<open>Handlers\<close>

text \<open>
  What the environment contributes to one command: the clock, the random bytes for a token, the
  bytes that happen to be in the uninitialised token array, and the cipher and its encoding.
\<close>

record cmd_env =
  ce_now :: time_t
  ce_token_rand :: rand_result
  ce_token_array :: "char list"
  ce_evp :: evp
  ce_b64 :: "byte list \<Rightarrow> string"

text \<open>The part of \<open>process_registration\<close> that runs once a token was generated.\<close>

definition register_with_token ::
  "'db sqlite \<Rightarrow> time_t \<Rightarrow> nat \<Rightarrow> string \<Rightarrow> string \<Rightarrow> string \<Rightarrow> 'db world \<Rightarrow> 'db world" where
  "register_with_token E now i nick token ip w =
     (let (ok, d) = save_user_to_database E nick token ip (client w i) (w_db w); w1 = set_db d w in
      if ok then
        let response = snprintf 512 (json_registered nick token (c_security_level (client w1 i)));
            w2 = send i response w1
        in log_security_event E ''USER_REGISTER'' (Some nick) (Some ip)
             (Some ''New user registered successfully'') now w2
      else send i msg_db_error w1)"

definition process_registration ::
  "'db sqlite \<Rightarrow> cmd_env \<Rightarrow> nat \<Rightarrow> string \<Rightarrow> string \<Rightarrow> 'db world \<Rightarrow> fault + 'db world" where
  "process_registration E env i command ip w =
     (case sscanf fmt_register command of
        [nick] \<Rightarrow>
          if validate_nickname nick then
            let (exists, d) = check_nickname_exists E nick (w_db w); w1 = set_db d w in
            if exists then Inr (send i msg_nick_exists w1)
            else case generate_secure_token (ce_token_rand env) (ce_token_array env) (TOKEN_LENGTH + 1) of
              Inl e \<Rightarrow> Inl e
            | Inr (False, _) \<Rightarrow> Inr w1
            | Inr (True, token) \<Rightarrow> Inr (register_with_token E (ce_now env) i nick (cstr token) ip w1)
          else Inr (send i msg_bad_nick w)
      | _ \<Rightarrow> Inr (send i msg_bad_nick w))"

text \<open>The part of \<open>process_login\<close> that runs once the credentials were accepted.\<close>

definition accept_login ::
  "'db sqlite \<Rightarrow> time_t \<Rightarrow> nat \<Rightarrow> string \<Rightarrow> string \<Rightarrow> string \<Rightarrow> secure_client_t \<Rightarrow> 'db world \<Rightarrow> 'db world" where
  "accept_login E now i nick token ip c w =
     (let c' = c\<lparr>c_nick := strncpy (c_nick c) nick (MAX_NICK_LENGTH + 1 - 1),
                 c_token := strncpy (c_token c) token (TOKEN_LENGTH + 1 - 1),
                 c_authorized := True\<rparr>;
          w1 = set_client i c' w;
          w2 = send i (snprintf 256 (json_logged_in nick (c_session_id c'))) w1;
          w3 = snd (add_peer_to_network (cstr (c_peer_id c')) (c_addr c') (Some (c_public_key c')) None now w2);
          w4 = broadcast_message E ''System''
                 (snprintf 256 (''User '' @ nick @ '' joined the secure network'')) w3
      in log_security_event E ''USER_LOGIN'' (Some nick) (Some ip)
           (Some ''User logged in successfully'') now w4)"

definition process_login ::
  "'db sqlite \<Rightarrow> cmd_env \<Rightarrow> nat \<Rightarrow> string \<Rightarrow> string \<Rightarrow> 'db world \<Rightarrow> fault + 'db world" where
  "process_login E env i command ip w =
     (case sscanf fmt_login command of
        [nick, token] \<Rightarrow>
          (case authenticate_user E nick token (client w i) (w_db w) of
             Inl e \<Rightarrow> Inl e
           | Inr (True, c, d) \<Rightarrow> Inr (accept_login E (ce_now env) i nick token ip c (set_db d w))
           | Inr (False, c, d) \<Rightarrow>
               Inr (log_security_event E ''LOGIN_FAILED'' (Some nick) (Some ip)
                      (Some ''Failed login attempt'') (ce_now env)
                      (send i msg_bad_login (set_client i c (set_db d w)))))
      | _ \<Rightarrow> Inr w)"

definition send_help_message :: "nat \<Rightarrow> 'db world \<Rightarrow> 'db world" where
  "send_help_message i w = send i msg_help w"

definition handle_unauthorized_commands ::
  "'db sqlite \<Rightarrow> cmd_env \<Rightarrow> nat \<Rightarrow> string \<Rightarrow> string \<Rightarrow> 'db world \<Rightarrow> fault + 'db world" where
  "handle_unauthorized_commands E env i command ip w =
     (if strncmp_eq command ''/register'' 9 then process_registration E env i command ip w
      else if strncmp_eq command ''/login'' 6 then process_login E env i command ip w
      else if strncmp_eq command ''/help'' 5 then Inr (send_help_message i w)
      else Inr (send i msg_auth_required w))"

definition handle_private_message :: "'db sqlite \<Rightarrow> nat \<Rightarrow> string \<Rightarrow> 'db world \<Rightarrow> 'db world" where
  "handle_private_message E i command w =
     (case sscanf fmt_msg command of
        [target, message] \<Rightarrow>
          if validate_message message
          then send_private_message E (cstr (c_nick (client w i))) target message w else w
      | _ \<Rightarrow> w)"

definition handle_encrypted_message ::
  "cmd_env \<Rightarrow> nat \<Rightarrow> string \<Rightarrow> 'db world \<Rightarrow> fault + 'db world" where
  "handle_encrypted_message env i command w =
     (case sscanf fmt_send_enc command of
        [target, raw_msg] \<Rightarrow>
          (case encrypt_message_for_user (ce_evp env) (ce_b64 env) (w_srv w) i target raw_msg of
             Inl e \<Rightarrow> Inl e
           | Inr (ret, encrypted) \<Rightarrow>
               (case encrypted of
                  Some data \<Rightarrow>
                    if ret = 0 then
                      let json = snprintf BUFFER_SIZE (json_encrypted (cstr (c_nick (client w i))) target data)
                      in (case find_client_by_nick (w_srv w) target of
                            None \<Rightarrow> Inr w | Some t \<Rightarrow> Inr (send t json w))
                    else Inr w
                | None \<Rightarrow> Inr w))
      | _ \<Rightarrow> Inr w)"

definition handle_authorized_commands ::
  "'db sqlite \<Rightarrow> cmd_env \<Rightarrow> nat \<Rightarrow> string \<Rightarrow> string \<Rightarrow> 'db world \<Rightarrow> fault + 'db world" where
  "handle_authorized_commands E env i command ip w =
     (if command = ''/online'' then Inr (send_online_users i w)
      else if strncmp_eq command ''/msg'' 4 then Inr (handle_private_message E i command w)
      else if strncmp_eq command ''/send_enc'' 9 then handle_encrypted_message env i command w
      else if validate_message command
      then Inr (broadcast_message E (cstr (c_nick (client w i))) command w)
      else Inr w)"

definition process_client_command ::
  "'db sqlite \<Rightarrow> cmd_env \<Rightarrow> nat \<Rightarrow> string \<Rightarrow> string \<Rightarrow> 'db world \<Rightarrow> fault + 'db world" where
  "process_client_command E env i command ip w =
     (if \<not> c_authorized (client w i) then handle_unauthorized_commands E env i command ip w
      else handle_authorized_commands E env i command ip w)"

section \<open>What the properties speak of\<close>

text \<open>Accounts whose nicknames differ in more than case and whose tokens differ.\<close>

definition accounts_ok :: "user_row list \<Rightarrow> bool" where
  "accounts_ok us = (distinct (map (\<lambda>u. map tolower (u_nick u)) us) \<and> distinct (map u_token us))"

text \<open>Writes to one connection, and locking; \<open>own_trace\<close>: nothing else was added to the trace.\<close>

definition own_event :: "nat option \<Rightarrow> event \<Rightarrow> bool" where
  "own_event h e = (case e of Ssl_safe_write h' m \<Rightarrow> h' = h | Mutex_lock _ \<Rightarrow> True | Mutex_unlock _ \<Rightarrow> True
     | _ \<Rightarrow> False)"

definition own_trace :: "nat \<Rightarrow> 'db world \<Rightarrow> 'db world \<Rightarrow> bool" where
  "own_trace i w w' = (\<exists>es. w_trace w' = w_trace w @ es \<and> list_all (own_event (c_ssl (client w i))) es)"

text \<open>A world to evaluate commands in.\<close>

definition demo_world :: "tables world" where
  "demo_world = \<lparr>w_srv = server_init, w_db = no_tables, w_trace = []\<rparr>"

definition demo_env :: cmd_env where
  "demo_env = \<lparr>ce_now = 100, ce_token_rand = (1, zeros 64), ce_token_array = nuls 65,
     ce_evp = plain_evp [] [], ce_b64 = (\<lambda>_. [])\<rparr>"

definition demo_user :: user_row where
  "demo_user = \<lparr>u_nick = ''alice'', u_token = replicate 64 CHR ''a'', u_ip = [], u_reg_id = 1,
     u_public_key = zeros 32, u_security_level = 1, u_login_attempts = 0, u_is_locked = 0\<rparr>"

text \<open>At most the slot \<open>i\<close> of the client array changed.\<close>

definition only_slot :: "nat \<Rightarrow> 'db world \<Rightarrow> 'db world \<Rightarrow> bool" where
  "only_slot i w w' = (\<exists>c. s_clients (w_srv w') = (s_clients (w_srv w))[i := c])"

section \<open>Lemmas: parsing\<close>

lemma scan_login:
  assumes "is_word nick" "length nick \<le> 31" "is_word token"
  shows "sscanf fmt_login (''/login '' @ nick @ '' '' @ token) = [nick, take 63 token]"
proof -
  have "sscanf fmt_login (''/login '' @ nick @ '' '' @ token) =
      sscanf (lits ''/login'' @ [Ws, Word_field (Some 31), Ws, Word_field (Some 63)])
        (''/login'' @ (CHR '' '' # nick @ CHR '' '' # token))"
    by (simp add: fmt_login_def)
  also have "\<dots> = sscanf [Ws, Word_field (Some 31), Ws, Word_field (Some 63)] (CHR '' '' # nick @ CHR '' '' # token)"
    by (rule sscanf_lits)
  also have "\<dots> = sscanf [Word_field (Some 31), Ws, Word_field (Some 63)] (nick @ CHR '' '' # token)"
    by (rule sscanf_ws_word(2)) (rule assms(1))
  also have "\<dots> = nick # sscanf [Ws, Word_field (Some 63)] (CHR '' '' # token)"
    by (rule sscanf_word_blank) (use assms in simp_all)
  also have "sscanf [Ws, Word_field (Some 63)] (CHR '' '' # token) = sscanf [Word_field (Some 63)] token"
    by (rule sscanf_ws_word(1)) (rule assms(3))
  also have "sscanf [Word_field (Some 63)] token = [take 63 token]"
    using sscanf_word_end [OF assms(3), of 63 "[]"] by simp
  finally show ?thesis .
qed

lemma scan_register:
  assumes "is_word nick" "length nick \<le> 31"
  shows "sscanf fmt_register (''/register '' @ nick) = [nick]"
proof -
  have "sscanf fmt_register (''/register '' @ nick) =
      sscanf (lits ''/register'' @ [Ws, Word_field (Some 31)]) (''/register'' @ (CHR '' '' # nick))"
    by (simp add: fmt_register_def)
  also have "\<dots> = sscanf [Ws, Word_field (Some 31)] (CHR '' '' # nick)"
    by (rule sscanf_lits)
  also have "\<dots> = sscanf [Word_field (Some 31)] nick"
    by (rule sscanf_ws_word(1)) (rule assms(1))
  also have "\<dots> = [nick]"
    using sscanf_word_end [OF assms(1), of 31 "[]"] assms(2) by simp
  finally show ?thesis .
qed

lemma login_fields:
  assumes "sscanf fmt_login command = [nick, token]" "is_cstr command"
  shows "is_word nick" "length nick \<le> 31" "is_word token" "length token \<le> 63" "is_cstr nick" "is_cstr token"
proof -
  from assms(1) obtain t where t: "command = ''/login'' @ t"
    "sscanf [Ws, Word_field (Some 31), Ws, Word_field (Some 63)] t = [nick, token]"
    unfolding fmt_login_def by (rule sscanf_lits_fields)
  then have *: "sscanf [Word_field (Some 31), Ws, Word_field (Some 63)] (dropWhile isspace t) = [nick, token]"
    by simp
  from sscanf_word_hd [OF *] show "is_word nick" "length nick \<le> 31" by simp_all
  obtain t' where "sscanf [Ws, Word_field (Some 63)] t' = [token]"
    using sscanf_word_hd(3) [OF *] by metis
  then have "sscanf [Word_field (Some 63)] (dropWhile isspace t') = [token]"
    by simp
  from sscanf_word_hd [OF this] show "is_word token" "length token \<le> 63" by simp_all
  show "is_cstr nick" "is_cstr token"
    using sscanf_is_cstr [OF assms(2), of _ fmt_login] assms(1) by simp_all
qed

lemma validated_nick_word: "validate_nickname nick \<Longrightarrow> length nick \<le> 31 \<Longrightarrow> is_word nick \<and> is_cstr nick"
  using nick_char_not_unsafe
  by (fastforce simp: validate_nickname_iff MAX_NICK_LENGTH_def is_word_def is_cstr_def list_all_iff)

lemma scan_msg:
  assumes "is_word nick" "length nick \<le> 31" "m \<noteq> []" "\<not> isspace (hd m)" "NL \<notin> set m" "length m \<le> 2047"
  shows "sscanf fmt_msg (''/msg '' @ nick @ CHR '' '' # m) = [nick, m]"
  using scan_word_line [OF assms(1-5), of "Some 2047" "''/msg''"] assms(6) by (simp add: fmt_msg_def upto_def)

lemma private_line_runs:
  assumes "c_authorized (client w i)" "is_word to" "length to \<le> 31"
    "m \<noteq> []" "\<not> isspace (hd m)" "NL \<notin> set m" "length m \<le> 2047"
  shows "process_client_command E env i (''/msg '' @ to @ CHR '' '' # m) ip w =
    Inr (send_private_message E (cstr (c_nick (client w i))) to m w)"
  using assms scan_msg [of to m]
  by (simp add: process_client_command_def handle_authorized_commands_def strncmp_eq_def handle_private_message_def
      validate_message_iff)

section \<open>Lemmas: effect on the server state\<close>

lemma only_slot_same: "s_clients (w_srv w') = s_clients (w_srv w) \<Longrightarrow> only_slot i w w'"
  unfolding only_slot_def by (metis list_update_id)

lemma only_slot_other: "only_slot i w w' \<Longrightarrow> j \<noteq> i \<Longrightarrow> client w' j = client w j"
  by (auto simp: only_slot_def)

lemma register_frame [simp]:
  "s_clients (w_srv (register_with_token E now i nick token ip w)) = s_clients (w_srv w)"
  by (simp add: register_with_token_def Let_def split: prod.splits)

lemma register_wf:
  "wf_server (w_srv w) \<Longrightarrow> wf_server (w_srv (register_with_token E now i nick token ip w))"
  by (auto simp: register_with_token_def Let_def split: prod.splits intro!: log_event_wf)

lemma registration_cases:
  assumes "process_registration E env i command ip w = Inr w'"
  shows "s_clients (w_srv w') = s_clients (w_srv w) \<and> (wf_server (w_srv w) \<longrightarrow> wf_server (w_srv w'))"
  using assms
  by (auto simp: process_registration_def Let_def register_wf
      split: list.splits if_splits prod.splits sum.splits bool.splits)

lemma authenticated_client:
  assumes "authenticate_user E nick token c d = Inr (ok, c', d')" "wf_client c"
  shows "wf_client c'" "c_authorized c' = c_authorized c" "c_nick c' = c_nick c" "c_token c' = c_token c"
    "c_ssl c' = c_ssl c" "c_fd c' = c_fd c"
  using assms load_public_key_cases
  by (fastforce simp: authenticate_user_def wf_client_def
      split: if_splits prod.splits step_result.splits option.splits sum.splits bool.splits)+

section \<open>Lemmas: logging in\<close>

lemma accept_login_clients:
  "s_clients (w_srv (accept_login E now i nick token ip c w)) =
     (s_clients (w_srv w))[i := c\<lparr>c_nick := strncpy (c_nick c) nick MAX_NICK_LENGTH,
        c_token := strncpy (c_token c) token TOKEN_LENGTH, c_authorized := True\<rparr>]"
  by (simp add: accept_login_def Let_def)

lemma accept_login_wf:
  assumes "wf_server (w_srv w)" "wf_client c"
  shows "wf_server (w_srv (accept_login E now i nick token ip c w))"
proof -
  have "wf_client (c\<lparr>c_nick := strncpy (c_nick c) nick MAX_NICK_LENGTH,
      c_token := strncpy (c_token c) token TOKEN_LENGTH, c_authorized := True\<rparr>)"
    using assms(2) by (simp add: wf_client_def limit_defs nth_strncpy_last)
  with assms show ?thesis
    by (auto simp: accept_login_def Let_def wf_client_def
          intro!: log_event_wf add_peer_wf wf_server_set_client)
qed

lemma login_cases:
  assumes "process_login E env i command ip w = Inr w'"
  obtains (skip) "w' = w"
    | (yes) nick token c d where "sscanf fmt_login command = [nick, token]"
        "authenticate_user E nick token (client w i) (w_db w) = Inr (True, c, d)"
        "w' = accept_login E (ce_now env) i nick token ip c (set_db d w)"
    | (no) nick token c d where "sscanf fmt_login command = [nick, token]"
        "authenticate_user E nick token (client w i) (w_db w) = Inr (False, c, d)"
        "w' = log_security_event E ''LOGIN_FAILED'' (Some nick) (Some ip) (Some ''Failed login attempt'')
           (ce_now env) (send i msg_bad_login (set_client i c (set_db d w)))"
proof (cases "\<exists>nick token. sscanf fmt_login command = [nick, token]")
  case False
  then have "process_login E env i command ip w = Inr w"
    by (simp add: process_login_def split: list.split)
  with assms skip show thesis by simp
next
  case True
  then obtain nick token where scan: "sscanf fmt_login command = [nick, token]" by blast
  with assms obtain ok c d where auth: "authenticate_user E nick token (client w i) (w_db w) = Inr (ok, c, d)"
    by (cases "authenticate_user E nick token (client w i) (w_db w)") (auto simp: process_login_def)
  show thesis
    by (cases ok) (use assms scan auth yes no in \<open>simp_all add: process_login_def\<close>)
qed

lemma login_outcome:
  assumes "process_login E env i command ip w = Inr w'" "wf_server (w_srv w)" "i < MAX_CLIENTS"
  shows "only_slot i w w'" "wf_server (w_srv w')"
    "c_authorized (client w' i) \<Longrightarrow> \<not> c_authorized (client w i) \<Longrightarrow>
      \<exists>nick token c d. sscanf fmt_login command = [nick, token] \<and>
        authenticate_user E nick token (client w i) (w_db w) = Inr (True, c, d)"
proof -
  note wf = wf_server_client [OF assms(2,3)]
  have len: "i < length (s_clients (w_srv w))" using assms(2,3) by (simp add: wf_server_def)
  have "only_slot i w w' \<and> wf_server (w_srv w') \<and>
    (c_authorized (client w' i) \<longrightarrow> \<not> c_authorized (client w i) \<longrightarrow>
      (\<exists>nick token c d. sscanf fmt_login command = [nick, token] \<and>
        authenticate_user E nick token (client w i) (w_db w) = Inr (True, c, d)))"
    using assms(1)
  proof (cases rule: login_cases)
    case skip
    then show ?thesis using assms(2) by (simp add: only_slot_same)
  next
    case yes
    then show ?thesis
      using assms(2) authenticated_client(1) [OF yes(2) wf]
      by (auto simp: only_slot_def accept_login_clients accept_login_wf)
  next
    case no
    then show ?thesis
      using assms(2) len authenticated_client(1,2) [OF no(2) wf]
      by (auto simp: only_slot_def intro!: log_event_wf wf_server_set_client)
  qed
  then show "only_slot i w w'" "wf_server (w_srv w')"
    "c_authorized (client w' i) \<Longrightarrow> \<not> c_authorized (client w i) \<Longrightarrow>
      \<exists>nick token c d. sscanf fmt_login command = [nick, token] \<and>
        authenticate_user E nick token (client w i) (w_db w) = Inr (True, c, d)"
    by blast+
qed

lemma authorized_outcome:
  "handle_authorized_commands E env i command ip w = Inr w' \<Longrightarrow> w_srv w' = w_srv w"
  by (auto simp: handle_authorized_commands_def handle_private_message_def handle_encrypted_message_def Let_def
      split: if_splits list.splits sum.splits prod.splits option.splits)

lemma only_slot_trans: "only_slot i w w' \<Longrightarrow> only_slot i w' w'' \<Longrightarrow> only_slot i w w''"
  by (auto simp: only_slot_def)

text \<open>What a command can turn out to be.\<close>

lemma command_cases:
  assumes "process_client_command E env i command ip w = Inr w'"
  obtains (register) "process_registration E env i command ip w = Inr w'"
    | (login) "process_login E env i command ip w = Inr w'"
    | (reply) m where "w' = send i m w"
    | (authorized) "c_authorized (client w i)" "handle_authorized_commands E env i command ip w = Inr w'"
  using assms
  by (auto simp: process_client_command_def handle_unauthorized_commands_def send_help_message_def
      split: if_splits)

lemma command_outcome:
  assumes "process_client_command E env i command ip w = Inr w'" "wf_server (w_srv w)" "i < MAX_CLIENTS"
  shows "only_slot i w w'" "wf_server (w_srv w')"
proof -
  have "only_slot i w w' \<and> wf_server (w_srv w')"
    using assms(1)
  proof (cases rule: command_cases)
    case register
    from registration_cases [OF this] assms(2) show ?thesis by (simp add: only_slot_same)
  next
    case login
    from login_outcome(1,2) [OF this assms(2,3)] show ?thesis by blast
  next
    case authorized
    from authorized_outcome [OF this(2)] assms(2) show ?thesis by (simp add: only_slot_same)
  qed (use assms(2) in \<open>simp add: only_slot_same\<close>)
  then show "only_slot i w w'" "wf_server (w_srv w')" by blast+
qed

section \<open>Lemmas: the table of accounts\<close>

lemma accounts_ok_snoc:
  "accounts_ok us \<Longrightarrow> \<not> list_ex (same_nick (u_nick u)) us \<Longrightarrow> u_token u \<notin> u_token ` set us \<Longrightarrow>
   accounts_ok (us @ [u])"
  by (auto simp: accounts_ok_def same_nick_def strcasecmp_eq_def list_ex_iff)

lemma accounts_ok_logged_in: "accounts_ok us \<Longrightarrow> accounts_ok (map (logged_in n) us)"
proof -
  have "(\<lambda>u. map tolower (u_nick u)) \<circ> logged_in n = (\<lambda>u. map tolower (u_nick u))"
    "u_token \<circ> logged_in n = u_token"
    by (auto simp: logged_in_def)
  then show "accounts_ok us \<Longrightarrow> accounts_ok (map (logged_in n) us)"
    by (simp add: accounts_ok_def)
qed

lemma find_snoc: "find P us = None \<Longrightarrow> P u \<Longrightarrow> find P (us @ [u]) = Some u"
  by (induction us) (auto split: if_splits)

context user_store
begin

lemma register_users:
  assumes "ready (w_db w)"
  shows "ready (w_db (register_with_token E now i nick token ip w)) \<and>
    (if list_ex (same_nick nick) (users (w_db w)) \<or> token \<in> u_token ` set (users (w_db w))
     then users (w_db (register_with_token E now i nick token ip w)) = users (w_db w)
     else users (w_db (register_with_token E now i nick token ip w)) = users (w_db w) @
       [\<lparr>u_nick = nick, u_token = token, u_ip = ip, u_reg_id = sint (c_reg_id (client w i)),
         u_public_key = take 32 (c_public_key (client w i)), u_security_level = c_security_level (client w i),
         u_login_attempts = 0, u_is_locked = 0\<rparr>])"
proof (cases "list_ex (same_nick nick) (users (w_db w)) \<or> token \<in> u_token ` set (users (w_db w))")
  case True
  obtain d where "save_user_to_database E nick token ip (client w i) (w_db w) = (False, d)"
    "users d = users (w_db w)" "ready d"
    using save_user_conflict [OF assms True] by blast
  with True show ?thesis by (simp add: register_with_token_def)
next
  case False
  then have a: "\<not> list_ex (same_nick nick) (users (w_db w))" "token \<notin> u_token ` set (users (w_db w))"
    by blast+
  show ?thesis
    by (rule save_user_ok [OF assms a, of ip "client w i"])
      (use False log_event_users in \<open>simp add: register_with_token_def Let_def\<close>)
qed

lemma registration_users:
  assumes "ready (w_db w)" "accounts_ok (users (w_db w))"
    "process_registration E env i command ip w = Inr w'"
  shows "ready (w_db w') \<and> accounts_ok (users (w_db w'))"
proof -
  have new: "ready (w_db (register_with_token E now i nick token ip w)) \<and>
    accounts_ok (users (w_db (register_with_token E now i nick token ip w)))" for now nick token
    using register_users [OF assms(1), of now i nick token ip] assms(2)
    by (auto split: if_splits intro!: accounts_ok_snoc)
  have id: "set_db (w_db w) w = w" by (simp add: set_db_def)
  show ?thesis
    using assms new
    by (auto simp: process_registration_def check_nickname_exists_eq [OF assms(1)] id
        split: list.splits if_splits sum.splits prod.splits bool.splits)
qed

lemma authenticate_users:
  assumes "ready d" "authenticate_user E nick token c d = Inr (ok, c', d')"
  shows "ready d' \<and> (users d' = users d \<or> users d' = map (logged_in nick) (users d))"
proof -
  have "d' = d \<or> d' = update_last_login E nick d"
    using assms(2) auth_step [OF assms(1), of nick]
    by (auto simp: authenticate_user_def prepare [OF assms(1)]
        split: option.splits sum.splits bool.splits)
  then show ?thesis using update_last_login_users [OF assms(1), of nick] assms(1) by auto
qed

lemma login_users:
  assumes "ready (w_db w)" "accounts_ok (users (w_db w))" "process_login E env i command ip w = Inr w'"
  shows "ready (w_db w') \<and> accounts_ok (users (w_db w'))"
  using assms(3)
proof (cases rule: login_cases)
  case (yes nick token c d)
  then show ?thesis
    using authenticate_users [OF assms(1) yes(2)] assms(2)
    by (auto simp: accept_login_def Let_def log_event_users messaging_users accounts_ok_logged_in)
next
  case (no nick token c d)
  then show ?thesis
    using authenticate_users [OF assms(1) no(2)] assms(2)
    by (auto simp: log_event_users accounts_ok_logged_in)
qed (use assms in simp)

lemma authorized_users:
  assumes "ready (w_db w)" "handle_authorized_commands E env i command ip w = Inr w'"
  shows "ready (w_db w') \<and> users (w_db w') = users (w_db w)"
proof -
  have "handle_encrypted_message env i command w = Inr w' \<Longrightarrow> w_db w' = w_db w"
    by (auto simp: handle_encrypted_message_def Let_def
        split: if_splits list.splits sum.splits prod.splits option.splits)
  moreover have "ready (w_db (handle_private_message E i command w)) \<and>
      users (w_db (handle_private_message E i command w)) = users (w_db w)"
    by (auto simp: handle_private_message_def messaging_users assms(1) split: list.splits)
  ultimately show ?thesis
    using assms(2) messaging_users(1,2) [OF assms(1)] assms(1)
    by (auto simp: handle_authorized_commands_def split: if_splits)
qed

lemma command_accounts:
  assumes "ready (w_db w)" "accounts_ok (users (w_db w))"
    "process_client_command E env i command ip w = Inr w'"
  shows "ready (w_db w') \<and> accounts_ok (users (w_db w'))"
  using assms(3)
proof (cases rule: command_cases)
  case register
  from registration_users [OF assms(1,2) this] show ?thesis .
next
  case login
  from login_users [OF assms(1,2) this] show ?thesis .
next
  case authorized
  from authorized_users [OF assms(1) this(2)] assms(2) show ?thesis by simp
qed (use assms in simp)

lemma registration_taken:
  assumes "ready (w_db w)" "validate_nickname nick" "length nick \<le> 31"
    "list_ex (same_nick nick) (users (w_db w))"
  shows "process_registration E env i (''/register '' @ nick) ip w = Inr (send i msg_nick_exists w)"
  using assms scan_register [of nick] validated_nick_word
  by (simp add: process_registration_def check_nickname_exists_eq set_db_def)

lemma registration_overflow:
  assumes "ready (w_db w)" "validate_nickname nick" "length nick \<le> 31"
    "\<not> list_ex (same_nick nick) (users (w_db w))"
    "fst (ce_token_rand env) \<noteq> 0" "length (snd (ce_token_rand env)) = TOKEN_LENGTH"
    "length (ce_token_array env) = TOKEN_LENGTH + 1"
  shows "process_registration E env i (''/register '' @ nick) ip w = Inl Buffer_overflow"
proof -
  have "token_loop (ce_token_array env) 0 (snd (ce_token_rand env)) = Inl Buffer_overflow"
    by (rule token_loop_overflow) (use assms in \<open>auto simp: TOKEN_LENGTH_def\<close>)
  then show ?thesis
    using assms scan_register [of nick] validated_nick_word
    by (simp add: process_registration_def check_nickname_exists_eq generate_secure_token_def)
qed

text \<open>A login with the account found for the nickname.\<close>

lemma login_found:
  assumes "ready (w_db w)" "wf_server (w_srv w)" "i < MAX_CLIENTS"
    "find (\<lambda>u. same_nick nick u \<and> u_is_locked u = 0) (users (w_db w)) = Some u"
    "is_word nick" "length nick \<le> 31" "is_word token" "is_cstr nick" "is_cstr token" "is_cstr (u_token u)"
    "length (take 63 token) \<le> length (u_token u)" "length (u_public_key u) = 32"
  shows "\<exists>w'. process_login E env i (''/login '' @ nick @ '' '' @ token) ip w = Inr w' \<and>
    (if take (length (take 63 token)) (u_token u) = take 63 token
     then c_authorized (client w' i) \<and> cstr (c_nick (client w' i)) = nick \<and>
       c_public_key (client w' i) = u_public_key u
     else client w' i = client w i \<and>
       w_trace w' = w_trace w @ [Ssl_safe_write (c_ssl (client w i)) msg_bad_login,
         Mutex_lock Audit_mutex, Mutex_unlock Audit_mutex])"
proof -
  note wf = wf_server_client [OF assms(2,3)]
  have len: "i < length (s_clients (w_srv w))" using assms(2,3) by (simp add: wf_server_def)
  have pk: "length (c_public_key (client w i)) = 32" using wf by (simp add: wf_client_def)
  note auth = authenticate_found [OF assms(1,4,10) is_cstr_take [OF assms(9)] assms(11,12) pk]
  have nick: "cstr (strncpy (c_nick (client w i)) nick MAX_NICK_LENGTH) = nick"
    using wf assms(6,8) cstr_strncpy [of nick MAX_NICK_LENGTH "c_nick (client w i)"]
    by (simp add: wf_client_def MAX_NICK_LENGTH_def)
  define c where "c = client w i\<lparr>c_reg_id := word_of_int (u_reg_id u), c_public_key := u_public_key u,
    c_security_level := u_security_level u\<rparr>"
  have "process_login E env i (''/login '' @ nick @ '' '' @ token) ip w =
    (if take (length (take 63 token)) (u_token u) = take 63 token
     then Inr (accept_login E (ce_now env) i nick (take 63 token) ip c (set_db (update_last_login E nick (w_db w)) w))
     else Inr (log_security_event E ''LOGIN_FAILED'' (Some nick) (Some ip) (Some ''Failed login attempt'')
            (ce_now env) (send i msg_bad_login (set_client i (client w i) (set_db (w_db w) w)))))"
    unfolding process_login_def scan_login [OF assms(5,6,7)] c_def by (simp only: list.case auth) auto
  then show ?thesis
    using len nick by (simp only:) (auto simp: accept_login_clients c_def)
qed

end

section \<open>Lemmas: who is written to\<close>

lemma own_trace_send: "own_trace i w (send i m w)"
  by (auto simp: own_trace_def own_event_def)

lemma own_trace_refl: "w_trace w' = w_trace w \<Longrightarrow> own_trace i w w'"
  by (auto simp: own_trace_def)

lemma own_trace_register: "own_trace i w (register_with_token E now i nick token ip w)"
  by (auto simp: own_trace_def own_event_def register_with_token_def Let_def split: prod.splits)

lemma own_trace_registration:
  assumes "process_registration E env i command ip w = Inr w'"
  shows "own_trace i w w'"
proof -
  have step: "own_trace i w (register_with_token E now i nick token ip (set_db d w))"
    "own_trace i w (send i m (set_db d w))" for now nick token d m
    using own_trace_register [of i "set_db d w"] own_trace_send [of i "set_db d w" m]
    by (simp_all add: own_trace_def)
  show ?thesis
    using assms step own_trace_send own_trace_refl [of "set_db _ w" w]
    by (auto simp: process_registration_def Let_def
        split: list.splits if_splits sum.splits prod.splits bool.splits)
qed

lemma demo_world_access [simp]:
  "w_srv demo_world = server_init" "w_db demo_world = no_tables" "w_trace demo_world = []"
  "t_users no_tables = []" "wf_server server_init"
  by (simp_all add: demo_world_def no_tables_def wf_server_init)

lemma demo_alice: "validate_nickname ''alice''"
  by code_simp

lemma demo_help:
  "process_client_command table_engine demo_env 0 ''/help'' ''ip'' demo_world = Inr (send 0 msg_help demo_world)"
  by (simp add: process_client_command_def handle_unauthorized_commands_def strncmp_eq_def
      send_help_message_def)

section \<open>Properties\<close>

text \<open>
  C5. An account that registration stores can be used: when the database keeps its promises, the
  nickname is valid and new, and the token has 64 characters and is new, a later login from any
  slot with that nickname and token succeeds, although scanf cuts the token to 63 characters, and
  gives that slot the nickname and the public key of the account. This speaks of the part of registration that stores
  the account; in the code it comes after the token was written past the end of its array.
\<close>

theorem registered_account_logs_in:
  assumes "user_store E users ready" "ready (w_db w)" "wf_server (w_srv w)" "i < MAX_CLIENTS" "j < MAX_CLIENTS"
    "validate_nickname nick" "length nick \<le> 31" "\<not> list_ex (same_nick nick) (users (w_db w))"
    "is_word token" "is_cstr token" "length token = TOKEN_LENGTH" "token \<notin> u_token ` set (users (w_db w))"
    "w1 = register_with_token E now i nick token ip w"
  shows "\<exists>w2. process_login E env j (''/login '' @ nick @ '' '' @ token) ip' w1 = Inr w2 \<and>
    c_authorized (client w2 j) \<and> cstr (c_nick (client w2 j)) = nick \<and>
    c_public_key (client w2 j) = c_public_key (client w i)"
proof -
  let ?u = "\<lparr>u_nick = nick, u_token = token, u_ip = ip, u_reg_id = sint (c_reg_id (client w i)),
    u_public_key = take 32 (c_public_key (client w i)), u_security_level = c_security_level (client w i),
    u_login_attempts = 0, u_is_locked = 0\<rparr>"
  have pk: "length (c_public_key (client w i)) = 32"
    using wf_server_client [OF assms(3,4)] by (simp add: wf_client_def)
  have reg: "ready (w_db w1)" "users (w_db w1) = users (w_db w) @ [?u]" "wf_server (w_srv w1)"
    using user_store.register_users [OF assms(1,2), of now i nick token ip] assms register_wf [OF assms(3)]
    by auto
  have "find (\<lambda>u. same_nick nick u \<and> u_is_locked u = 0) (users (w_db w)) = None"
    using assms(8) by (auto simp: find_None_iff list_ex_iff)
  then have "find (\<lambda>u. same_nick nick u \<and> u_is_locked u = 0) (users (w_db w1)) = Some ?u"
    unfolding reg(2) by (rule find_snoc) (simp add: same_nick_def strcasecmp_eq_def)
  from user_store.login_found [OF assms(1) reg(1,3) assms(5) this _ assms(7,9) _ assms(10), of env ip']
  show ?thesis
    using validated_nick_word [OF assms(6,7)] assms(9-11) pk by (auto simp: TOKEN_LENGTH_def)
qed

theorem registered_account_logs_in_witness:
  "\<exists>w2. process_login table_engine demo_env 1 (''/login '' @ ''alice'' @ '' '' @ replicate 64 CHR ''a'') ''ip''
      (register_with_token table_engine 100 0 ''alice'' (replicate 64 CHR ''a'') ''ip'' demo_world) = Inr w2 \<and>
    c_authorized (client w2 1) \<and> cstr (c_nick (client w2 1)) = ''alice'' \<and>
    c_public_key (client w2 1) = c_public_key (client demo_world 0)"
proof (rule registered_account_logs_in [OF tab.user_store_axioms, of demo_world 0 1])
  show "validate_nickname ''alice''" by (rule demo_alice)
  show "is_word (replicate 64 CHR ''a'')" "is_cstr (replicate 64 CHR ''a'')"
    by (simp_all add: is_word_def list_all_iff isspace_def is_cstr_def)
qed (simp_all add: MAX_CLIENTS_def TOKEN_LENGTH_def)

text \<open>
  C6. Whatever a client sends, a command keeps the server state well formed, changes no slot but its
  own, and turns a client into a logged-in one only through a login line whose nickname and token
  the database check accepted.
\<close>

theorem command_changes_own_slot:
  assumes "process_client_command E env i command ip w = Inr w'" "wf_server (w_srv w)" "i < MAX_CLIENTS"
  shows "wf_server (w_srv w') \<and> (\<forall>j. j \<noteq> i \<longrightarrow> client w' j = client w j) \<and>
    (c_authorized (client w' i) \<longrightarrow> \<not> c_authorized (client w i) \<longrightarrow>
      (\<exists>nick token c d. sscanf fmt_login command = [nick, token] \<and>
        authenticate_user E nick token (client w i) (w_db w) = Inr (True, c, d)))"
proof -
  have "c_authorized (client w' i) \<longrightarrow> \<not> c_authorized (client w i) \<longrightarrow>
      (\<exists>nick token c d. sscanf fmt_login command = [nick, token] \<and>
        authenticate_user E nick token (client w i) (w_db w) = Inr (True, c, d))"
    using assms(1)
  proof (cases rule: command_cases)
    case register
    from registration_cases [OF this] show ?thesis by simp
  next
    case login
    from login_outcome(3) [OF this assms(2,3)] show ?thesis by blast
  qed simp_all
  then show ?thesis
    using command_outcome [OF assms] only_slot_other by blast
qed

theorem command_changes_own_slot_witness:
  "wf_server (w_srv (send 0 msg_help demo_world)) \<and> client (send 0 msg_help demo_world) 3 = client demo_world 3"
proof -
  have "(0::nat) < MAX_CLIENTS" by (simp add: MAX_CLIENTS_def)
  then show ?thesis
    using demo_help command_changes_own_slot [of table_engine demo_env 0 "''/help''" "''ip''" demo_world "send 0 msg_help demo_world"]
    by simp
qed

text \<open>
  C7. A client that is not logged in, and is not logged in by this command, reaches nobody: everything
  the command writes goes to its own connection (the rest is locking of the audit log).
\<close>

theorem unauthenticated_confined:
  assumes "process_client_command E env i command ip w = Inr w'" "wf_server (w_srv w)" "i < MAX_CLIENTS"
    "\<not> c_authorized (client w i)" "\<not> c_authorized (client w' i)"
  shows "\<exists>es. w_trace w' = w_trace w @ es \<and> list_all (own_event (c_ssl (client w i))) es"
proof -
  have len: "i < length (s_clients (w_srv w))" using assms(2,3) by (simp add: wf_server_def)
  have "own_trace i w w'"
    using assms(1)
  proof (cases rule: command_cases)
    case login
    then show ?thesis
    proof (cases rule: login_cases)
      case (yes nick token c d)
      then show ?thesis using assms(5) len by (simp add: accept_login_clients)
    next
      case (no nick token c d)
      note auth = authenticated_client(5) [OF no(2) wf_server_client [OF assms(2,3)]]
      show ?thesis using no(3) len auth by (auto simp: own_trace_def own_event_def)
    qed (simp add: own_trace_refl)
  qed (use assms(4) in \<open>auto simp: own_trace_registration own_trace_send\<close>)
  then show ?thesis by (simp add: own_trace_def)
qed

theorem unauthenticated_confined_witness:
  "\<exists>es. w_trace (send 0 msg_help demo_world) = [] @ es \<and> list_all (own_event None) es"
proof -
  have "(0::nat) < MAX_CLIENTS" by (simp add: MAX_CLIENTS_def)
  then show ?thesis
    using demo_help unauthenticated_confined [of table_engine demo_env 0 "''/help''" "''ip''" demo_world "send 0 msg_help demo_world"]
    by simp
qed

text \<open>
  C8. What becomes of \<open>/register\<close> with a word of at most 31 characters, on every branch, with a database that keeps
  the accounts it is given and the 65-byte array that the caller passes for the token: a nickname that is not valid
  and one that is taken, compared without regard to case, are answered with their error frame and store nothing;
  when the random generator fails nothing at all happens, not even an answer; and otherwise the token
  overflows its array.
\<close>

theorem registration_outcomes:
  assumes "user_store E users ready" "ready (w_db w)" "is_word nick" "length nick \<le> 31"
    "length (snd (ce_token_rand env)) = TOKEN_LENGTH" "length (ce_token_array env) = TOKEN_LENGTH + 1"
  shows "process_registration E env i (''/register '' @ nick) ip w =
    (if \<not> validate_nickname nick then Inr (send i msg_bad_nick w)
     else if \<exists>u \<in> set (users (w_db w)). map tolower (u_nick u) = map tolower nick then Inr (send i msg_nick_exists w)
     else if fst (ce_token_rand env) = 0 then Inr w
     else Inl Buffer_overflow)"
proof -
  have occ: "(\<exists>u \<in> set (users (w_db w)). map tolower (u_nick u) = map tolower nick) \<longleftrightarrow> list_ex (same_nick nick) (users (w_db w))"
    by (auto simp: list_ex_iff same_nick_def strcasecmp_eq_def)
  note scan = scan_register [OF assms(3,4)]
  consider (bad) "\<not> validate_nickname nick" | (taken) "validate_nickname nick" "list_ex (same_nick nick) (users (w_db w))"
    | (dry) "validate_nickname nick" "\<not> list_ex (same_nick nick) (users (w_db w))" "fst (ce_token_rand env) = 0"
    | (drawn) "validate_nickname nick" "\<not> list_ex (same_nick nick) (users (w_db w))" "fst (ce_token_rand env) \<noteq> 0"
    by blast
  then show ?thesis
  proof cases
    case bad
    with scan show ?thesis by (simp add: process_registration_def)
  next
    case taken
    with user_store.registration_taken [OF assms(1,2) _ assms(4)] show ?thesis by (simp add: occ)
  next
    case dry
    with scan show ?thesis
      by (simp add: occ process_registration_def user_store.check_nickname_exists_eq [OF assms(1,2)] generate_secure_token_def
          TOKEN_LENGTH_def set_db_def)
  next
    case drawn
    with user_store.registration_overflow [OF assms(1,2) _ assms(4) _ _ assms(5,6)] show ?thesis by (simp add: occ)
  qed
qed

theorem registration_outcomes_witness:
  "process_registration table_engine demo_env 0 (''/register '' @ ''ALICE'') ''ip''
     (demo_world\<lparr>w_db := no_tables\<lparr>t_users := [demo_user]\<rparr>\<rparr>) =
   Inr (send 0 msg_nick_exists (demo_world\<lparr>w_db := no_tables\<lparr>t_users := [demo_user]\<rparr>\<rparr>))"
proof -
  have "validate_nickname ''ALICE''" by code_simp
  then show ?thesis
    using registration_outcomes [OF tab.user_store_axioms, where w = "demo_world\<lparr>w_db := no_tables\<lparr>t_users := [demo_user]\<rparr>\<rparr>"
        and nick = "''ALICE''" and env = demo_env and i = 0 and ip = "''ip''"]
    by (simp add: demo_user_def tolower_def is_word_def isspace_def demo_env_def TOKEN_LENGTH_def)
qed

text \<open>
  C31. A login with a token of at most 63 characters, not longer than the stored one, succeeds exactly
  when it is a prefix of the stored token, since the comparison runs over the length of the token
  given: a single correct character is enough.
\<close>

theorem login_iff_prefix:
  assumes "user_store E users ready" "ready (w_db w)" "wf_server (w_srv w)" "i < MAX_CLIENTS"
    "\<not> c_authorized (client w i)"
    "find (\<lambda>u. same_nick nick u \<and> u_is_locked u = 0) (users (w_db w)) = Some u"
    "is_cstr (u_token u)" "length (u_public_key u) = 32"
    "is_word nick" "is_cstr nick" "length nick \<le> 31"
    "is_word token" "is_cstr token" "length token \<le> 63" "length token \<le> length (u_token u)"
  shows "\<exists>w'. process_login E env i (''/login '' @ nick @ '' '' @ token) ip w = Inr w' \<and>
    (c_authorized (client w' i) \<longleftrightarrow> take (length token) (u_token u) = token)"
  using user_store.login_found [OF assms(1-4,6,9,11,12,10,13,7) _ assms(8), of env ip] assms(5,14,15)
  by (auto split: if_splits)

theorem login_iff_prefix_witness:
  "\<exists>w'. process_login table_engine demo_env 0 (''/login '' @ ''alice'' @ '' '' @ ''a'') ''ip''
      (demo_world\<lparr>w_db := no_tables\<lparr>t_users := [demo_user]\<rparr>\<rparr>) = Inr w' \<and> c_authorized (client w' 0)"
proof -
  have "\<exists>w'. process_login table_engine demo_env 0 (''/login '' @ ''alice'' @ '' '' @ ''a'') ''ip''
      (demo_world\<lparr>w_db := no_tables\<lparr>t_users := [demo_user]\<rparr>\<rparr>) = Inr w' \<and>
    (c_authorized (client w' 0) \<longleftrightarrow> take (length ''a'') (u_token demo_user) = ''a'')"
    by (rule login_iff_prefix [OF tab.user_store_axioms])
      (simp_all add: demo_user_def MAX_CLIENTS_def same_nick_def
        strcasecmp_eq_def is_word_def isspace_def is_cstr_def)
  then show ?thesis by (simp add: demo_user_def)
qed



end
