(* ===== verification/Rate_Limit.thy ===== *)
theory Rate_Limit
  imports Server_State
begin

text \<open>
  The rate limiter. It is written three times in the sources: inside the loop of
  \<open>secure_client_handler\<close> and as \<open>check_rate_limit\<close> in \<^verbatim>\<open>src/src/server.c\<close>, and again, on a
  smaller struct, in \<^verbatim>\<open>src/src/trash/server2.c\<close>. The locale \<open>window_limiter\<close> states what a
  counter over a fixed window does and derives what its clients rely on; all three interpret it.
\<close>

section \<open>Operations\<close>

text \<open>The statements of the handler loop: open a new window, then refuse or count.\<close>

definition open_window :: "time_t \<Rightarrow> advanced_rate_limit_t \<Rightarrow> advanced_rate_limit_t" where
  "open_window now rl =
     (if now - rl_window_start rl > RATE_LIMIT_WINDOW
      then rl\<lparr>rl_window_start := now, rl_count := 0\<rparr> else rl)"

definition limit_request :: "time_t \<Rightarrow> advanced_rate_limit_t \<Rightarrow> bool \<times> advanced_rate_limit_t" where
  "limit_request now rl =
     (let rl' = open_window now rl in
      if rl_count rl' \<ge> MAX_RATE_LIMIT then (False, rl')
      else (True, rl'\<lparr>rl_count := rl_count rl' + 1\<rparr>))"

definition check_rate_limit :: "time_t \<Rightarrow> secure_client_t \<Rightarrow> bool \<times> secure_client_t" where
  "check_rate_limit now c =
     (let c1 = (if now - rl_window_start (c_rate_limit c) > RATE_LIMIT_WINDOW
                then c\<lparr>c_rate_limit := (c_rate_limit c)\<lparr>rl_window_start := now, rl_count := 0\<rparr>\<rparr>
                else c) in
      if rl_count (c_rate_limit c1) \<ge> MAX_RATE_LIMIT then (False, c1)
      else (True, c1\<lparr>c_rate_limit := (c_rate_limit c1)\<lparr>rl_count := rl_count (c_rate_limit c1) + 1\<rparr>\<rparr>))"

text \<open>The struct and the function of \<^verbatim>\<open>server2.c\<close>.\<close>

record rate_limit_t =
  window_start :: time_t
  request_count :: nat

definition check_rate_limit_v2 :: "time_t \<Rightarrow> rate_limit_t \<Rightarrow> bool \<times> rate_limit_t" where
  "check_rate_limit_v2 now rl =
     (let rl' = (if now - window_start rl > 60 then rl\<lparr>window_start := now, request_count := 0\<rparr> else rl) in
      if request_count rl' \<ge> 10 then (False, rl')
      else (True, rl'\<lparr>request_count := request_count rl' + 1\<rparr>))"

text \<open>How many of the requests that arrive at the times \<open>ts\<close> a limiter lets through.\<close>

fun admitted :: "(time_t \<Rightarrow> 'l \<Rightarrow> bool \<times> 'l) \<Rightarrow> time_t list \<Rightarrow> 'l \<Rightarrow> nat" where
  "admitted step [] l = 0"
| "admitted step (t # ts) l = (let (ok, l') = step t l in (if ok then 1 else 0) + admitted step ts l')"

section \<open>The interface\<close>

locale window_limiter =
  fixes step :: "time_t \<Rightarrow> 'l \<Rightarrow> bool \<times> 'l"
    and start :: "'l \<Rightarrow> time_t"
    and used :: "'l \<Rightarrow> nat"
    and window :: int
    and quota :: nat
  assumes quota_pos: "0 < quota"
    and window_nonneg: "0 \<le> window"
    and step_new: "now - start l > window \<Longrightarrow>
      fst (step now l) \<and> start (snd (step now l)) = now \<and> used (snd (step now l)) = 1"
    and step_accept: "\<not> now - start l > window \<Longrightarrow> used l < quota \<Longrightarrow>
      fst (step now l) \<and> start (snd (step now l)) = start l \<and> used (snd (step now l)) = Suc (used l)"
    and step_refuse: "\<not> now - start l > window \<Longrightarrow> quota \<le> used l \<Longrightarrow>
      \<not> fst (step now l) \<and> start (snd (step now l)) = start l \<and> used (snd (step now l)) = used l"
begin

lemma used_le_quota: "used l \<le> quota \<Longrightarrow> used (snd (step now l)) \<le> quota"
proof -
  assume le: "used l \<le> quota"
  show ?thesis
  proof (cases "now - start l > window")
    case True
    with step_new [OF True] quota_pos show ?thesis by simp
  next
    case False
    with step_accept [OF False] step_refuse [OF False] le show ?thesis
      by (cases "used l < quota") auto
  qed
qed

text \<open>While no request falls outside the window, what is let through is what is left of the quota.\<close>

lemma admitted_same_window:
  "list_all (\<lambda>t. t - start l \<le> window) ts \<Longrightarrow> used l \<le> quota \<Longrightarrow>
   admitted step ts l = min (length ts) (quota - used l)"
proof (induction ts arbitrary: l)
  case (Cons t ts)
  then have in_window: "\<not> t - start l > window" by simp
  obtain ok l' where st: "step t l = (ok, l')" by fastforce
  show ?case
  proof (cases "used l < quota")
    case True
    then have "ok" "start l' = start l" "used l' = Suc (used l)"
      using step_accept [OF in_window True] st by simp_all
    with Cons True show ?thesis by (simp add: st)
  next
    case False
    then have "\<not> ok" "start l' = start l" "used l' = used l"
      using step_refuse [OF in_window] st by simp_all
    with Cons False show ?thesis by (simp add: st)
  qed
qed simp

text \<open>Inside an interval no longer than the window at most one new window opens.\<close>

lemma admitted_interval:
  "list_all (\<lambda>t. lo \<le> t \<and> t \<le> lo + window) ts \<Longrightarrow> used l \<le> quota \<Longrightarrow>
   admitted step ts l \<le> 2 * quota - used l"
proof (induction ts arbitrary: l)
  case (Cons t ts)
  obtain ok l' where st: "step t l = (ok, l')" by fastforce
  show ?case
  proof (cases "t - start l > window")
    case True
    then have l': "ok" "start l' = t" "used l' = 1"
      using step_new [OF True] st by simp_all
    have "list_all (\<lambda>t. t - start l' \<le> window) ts"
      using Cons.prems(1) l' by (auto simp: list_all_iff)
    then have "admitted step ts l' \<le> quota - 1"
      using admitted_same_window [of l' ts] l' quota_pos by simp
    then show ?thesis using st l' quota_pos Cons.prems(2) by simp
  next
    case False
    show ?thesis
    proof (cases "used l < quota")
      case True
      then have l': "ok" "used l' = Suc (used l)" using step_accept [OF False True] st by simp_all
      with Cons.IH [of l'] Cons.prems True st show ?thesis by simp
    next
      case full: False
      then have "\<not> ok" "used l' = used l" using step_refuse [OF False] st by simp_all
      with Cons.IH [of l'] Cons.prems st show ?thesis by simp
    qed
  qed
qed simp

lemma admits_after_pause: "now - start l > window \<Longrightarrow> fst (step now l)"
  using step_new by blast

end

section \<open>The limiters of the sources\<close>

lemmas limiter_defs = limit_request_def open_window_def check_rate_limit_def check_rate_limit_v2_def
  RATE_LIMIT_WINDOW_def MAX_RATE_LIMIT_def Let_def

interpretation handler_limiter: window_limiter limit_request rl_window_start rl_count 60 10
  by unfold_locales (auto simp: limiter_defs)

interpretation client_limiter: window_limiter check_rate_limit
  "\<lambda>c. rl_window_start (c_rate_limit c)" "\<lambda>c. rl_count (c_rate_limit c)" 60 10
  by unfold_locales (auto simp: limiter_defs)

interpretation old_limiter: window_limiter check_rate_limit_v2 window_start request_count 60 10
  by unfold_locales (auto simp: limiter_defs)

lemma limit_request_wf:
  "rl_count rl \<le> MAX_RATE_LIMIT \<Longrightarrow> rl_count (snd (limit_request now rl)) \<le> MAX_RATE_LIMIT"
  using handler_limiter.used_le_quota [of rl now] by (simp add: MAX_RATE_LIMIT_def)

section \<open>Properties\<close>

text \<open>
  C13. Rate limit of a connection: within one window the handler lets through exactly the first
  requests until 10 were counted; over any 60 seconds, however they fall on the windows, it lets
  at most 20 through; and a client that paused for more than 60 seconds is always let through.
\<close>

theorem rate_limit_bounds:
  assumes "rl_count rl \<le> 10" "list_all (\<lambda>t. lo \<le> t \<and> t \<le> lo + 60) ts"
  shows "admitted limit_request ts rl \<le> 20 - rl_count rl \<and>
    (list_all (\<lambda>t. t - rl_window_start rl \<le> 60) ts \<longrightarrow>
       admitted limit_request ts rl = min (length ts) (10 - rl_count rl)) \<and>
    (now - rl_window_start rl > 60 \<longrightarrow> fst (limit_request now rl))"
  using handler_limiter.admitted_interval [OF assms(2,1)] handler_limiter.admitted_same_window [OF _ assms(1)]
    handler_limiter.admits_after_pause by simp

theorem rate_limit_bounds_witness:
  "admitted limit_request (replicate 12 100) zero_rate_limit \<le> 20 \<and>
   admitted limit_request (replicate 12 100) (zero_rate_limit\<lparr>rl_window_start := 90\<rparr>) = 10"
  using rate_limit_bounds [of zero_rate_limit 100 "replicate 12 100"]
    rate_limit_bounds [of "zero_rate_limit\<lparr>rl_window_start := 90\<rparr>" 100 "replicate 12 100"]
  by (simp add: zero_rate_limit_def list_all_iff)

text \<open>
  The three limiters are the same: \<open>check_rate_limit\<close> does to the client's counter what the
  handler loop does inline, and the older server's version answers alike on counters that agree.
\<close>

theorem rate_limiters_agree:
  "check_rate_limit now c =
     (fst (limit_request now (c_rate_limit c)), c\<lparr>c_rate_limit := snd (limit_request now (c_rate_limit c))\<rparr>) \<and>
   check_rate_limit_v2 now \<lparr>window_start = rl_window_start rl, request_count = rl_count rl\<rparr> =
     (fst (limit_request now rl),
      \<lparr>window_start = rl_window_start (snd (limit_request now rl)), request_count = rl_count (snd (limit_request now rl))\<rparr>)"
  by (auto simp: limiter_defs)

end
