(* ===== verification/Net_IO.thy ===== *)
theory Net_IO
  imports Mesh_Prelude
begin

text \<open>
  The socket layer of \<^verbatim>\<open>src/src/server.c\<close>, and the read loop of the earlier server where it differs. OpenSSL is outside the sources: the outcomes of
  the successive \<^verbatim>\<open>SSL_write\<close> and \<^verbatim>\<open>SSL_read\<close> calls are a list the loops consume, one
  outcome per iteration. A loop whose list runs out has not returned: its value is \<open>None\<close>.
  What OpenSSL promises (a positive count never exceeds the count asked for) is the named
  hypothesis \<open>writes_ok\<close> or \<open>reads_ok\<close>.
\<close>

section \<open>Writing\<close>

datatype write_result = Wrote nat | Write_want_read | Write_want_write | Write_failed

text \<open>
  One iteration first reads \<^verbatim>\<open>server.running\<close>, which another thread may clear: each entry of
  the list carries its value. \<open>sent\<close> collects the bytes the library accepted.
\<close>

fun write_loop :: "(bool \<times> write_result) list \<Rightarrow> string \<Rightarrow> nat \<Rightarrow> string \<Rightarrow> (int \<times> string) option" where
  "write_loop [] data tot sent =
     (if tot < length data then None else Some (int tot, sent))"
| "write_loop ((running, r) # rs) data tot sent =
     (if tot < length data \<and> running then
        (case r of
           Wrote n \<Rightarrow> write_loop rs data (tot + n) (sent @ take n (drop tot data))
         | Write_want_read \<Rightarrow> write_loop rs data tot sent
         | Write_want_write \<Rightarrow> write_loop rs data tot sent
         | Write_failed \<Rightarrow> Some (-1, sent))
      else Some (int tot, sent))"

definition ssl_safe_write :: "(bool \<times> write_result) list \<Rightarrow> string \<Rightarrow> (int \<times> string) option" where
  "ssl_safe_write rs data = write_loop rs data 0 []"

text \<open>The second definition of the function in the same file does not look at \<^verbatim>\<open>server.running\<close>.\<close>

fun write_loop_always :: "write_result list \<Rightarrow> string \<Rightarrow> nat \<Rightarrow> string \<Rightarrow> (int \<times> string) option" where
  "write_loop_always [] data tot sent =
     (if tot < length data then None else Some (int tot, sent))"
| "write_loop_always (r # rs) data tot sent =
     (if tot < length data then
        (case r of
           Wrote n \<Rightarrow> write_loop_always rs data (tot + n) (sent @ take n (drop tot data))
         | Write_want_read \<Rightarrow> write_loop_always rs data tot sent
         | Write_want_write \<Rightarrow> write_loop_always rs data tot sent
         | Write_failed \<Rightarrow> Some (-1, sent))
      else Some (int tot, sent))"

definition ssl_safe_write_always :: "write_result list \<Rightarrow> string \<Rightarrow> (int \<times> string) option" where
  "ssl_safe_write_always rs data = write_loop_always rs data 0 []"

text \<open>\<^verbatim>\<open>SSL_write(ssl, p, k)\<close> answers with at most \<open>k\<close> bytes taken, and at least one.\<close>

fun writes_ok :: "(bool \<times> write_result) list \<Rightarrow> nat \<Rightarrow> bool" where
  "writes_ok [] k = True"
| "writes_ok ((running, r) # rs) k =
     (case r of Wrote n \<Rightarrow> 0 < k \<longrightarrow> 0 < n \<and> n \<le> k \<and> writes_ok rs (k - n) | _ \<Rightarrow> writes_ok rs k)"

definition progress_calls :: "(bool \<times> write_result) list \<Rightarrow> nat" where
  "progress_calls rs = length (filter (\<lambda>(b, r). case r of Wrote n \<Rightarrow> True | _ \<Rightarrow> False) rs)"

section \<open>Reading\<close>

datatype read_result = Got string | Read_want_read | Read_end

text \<open>
  The loop of \<open>ssl_safe_read\<close>: the chunk goes to \<^verbatim>\<open>buffer + total\<close>; a chunk that ends in a
  newline stops it, and so does any error other than \<^verbatim>\<open>SSL_ERROR_WANT_READ\<close>.
\<close>

fun read_loop :: "read_result list \<Rightarrow> char list \<Rightarrow> nat \<Rightarrow> nat \<Rightarrow> (fault + nat \<times> char list) option" where
  "read_loop [] buffer max_len tot =
     (if tot < max_len - 1 then None else Some (Inr (tot, buffer)))"
| "read_loop (r # rs) buffer max_len tot =
     (if tot < max_len - 1 then
        (case r of
           Got chunk \<Rightarrow>
             (if length buffer < tot + length chunk then Some (Inl Buffer_overflow)
              else let buffer' = take tot buffer @ chunk @ drop (tot + length chunk) buffer;
                       tot' = tot + length chunk
                   in if buffer' ! (tot' - 1) = NL then Some (Inr (tot', buffer'))
                      else read_loop rs buffer' max_len tot')
         | Read_want_read \<Rightarrow> read_loop rs buffer max_len tot
         | Read_end \<Rightarrow> Some (Inr (tot, buffer)))
      else Some (Inr (tot, buffer)))"

definition ssl_safe_read ::
  "int \<Rightarrow> int \<Rightarrow> read_result list \<Rightarrow> char list \<Rightarrow> nat \<Rightarrow> (fault + int \<times> char list) option" where
  "ssl_safe_read ssl_fd selected rs buffer max_len =
     (if ssl_fd < 0 then Some (Inr (-1, buffer))
      else if selected \<le> 0 then Some (Inr (0, buffer))
      else case read_loop rs buffer max_len 0 of
             None \<Rightarrow> None
           | Some (Inl e) \<Rightarrow> Some (Inl e)
           | Some (Inr (tot, buffer')) \<Rightarrow>
               Some (map_sum id (\<lambda>b. (int tot, b)) (poke buffer' tot NUL)))"

text \<open>
  The read loop of the earlier server, \<^verbatim>\<open>src/src/trash/server2.c\<close>, also leaves when the buffer is full inside its
  body.
\<close>

fun read_loop_v2 :: "read_result list \<Rightarrow> char list \<Rightarrow> nat \<Rightarrow> nat \<Rightarrow> (fault + nat \<times> char list) option" where
  "read_loop_v2 [] buffer max_len tot =
     (if tot < max_len - 1 then None else Some (Inr (tot, buffer)))"
| "read_loop_v2 (r # rs) buffer max_len tot =
     (if tot < max_len - 1 then
        (case r of
           Got chunk \<Rightarrow>
             (if length buffer < tot + length chunk then Some (Inl Buffer_overflow)
              else let buffer' = take tot buffer @ chunk @ drop (tot + length chunk) buffer;
                       tot' = tot + length chunk
                   in if buffer' ! (tot' - 1) = NL then Some (Inr (tot', buffer'))
                      else if max_len - 1 \<le> tot' then Some (Inr (tot', buffer'))
                      else read_loop_v2 rs buffer' max_len tot')
         | Read_want_read \<Rightarrow> read_loop_v2 rs buffer max_len tot
         | Read_end \<Rightarrow> Some (Inr (tot, buffer)))
      else Some (Inr (tot, buffer)))"

definition ssl_safe_read_v2 ::
  "int \<Rightarrow> int \<Rightarrow> read_result list \<Rightarrow> char list \<Rightarrow> nat \<Rightarrow> (fault + int \<times> char list) option" where
  "ssl_safe_read_v2 ssl_fd selected rs buffer max_len =
     (if ssl_fd < 0 then Some (Inr (-1, buffer))
      else if selected \<le> 0 then Some (Inr (0, buffer))
      else case read_loop_v2 rs buffer max_len 0 of
             None \<Rightarrow> None
           | Some (Inl e) \<Rightarrow> Some (Inl e)
           | Some (Inr (tot, buffer')) \<Rightarrow>
               Some (map_sum id (\<lambda>b. (int tot, b)) (poke buffer' tot NUL)))"

text \<open>\<^verbatim>\<open>SSL_read(ssl, p, k)\<close> delivers between one and \<open>k\<close> bytes when its result is positive.\<close>

fun reads_ok :: "read_result list \<Rightarrow> nat \<Rightarrow> bool" where
  "reads_ok [] k = True"
| "reads_ok (r # rs) k =
     (case r of
        Got chunk \<Rightarrow> 0 < k \<longrightarrow> chunk \<noteq> [] \<and> length chunk \<le> k \<and> reads_ok rs (k - length chunk)
      | _ \<Rightarrow> reads_ok rs k)"

text \<open>The bytes of a line as the peer sent it: chunks up to the first that ends in a newline.\<close>

fun line_chunks :: "read_result list \<Rightarrow> nat \<Rightarrow> string" where
  "line_chunks [] k = []"
| "line_chunks (r # rs) k =
     (if k = 0 then [] else
      case r of
        Got chunk \<Rightarrow> (if last chunk = NL then chunk else chunk @ line_chunks rs (k - length chunk))
      | Read_want_read \<Rightarrow> line_chunks rs k
      | Read_end \<Rightarrow> [])"

section \<open>Lemmas\<close>

lemma read_loop_full: "max_len - 1 \<le> tot \<Longrightarrow> read_loop rs buffer max_len tot = Some (Inr (tot, buffer))"
  by (cases rs) auto

lemma read_loop_v2_eq: "read_loop_v2 rs buffer max_len tot = read_loop rs buffer max_len tot"
  by (induction rs buffer max_len tot rule: read_loop_v2.induct)
    (auto simp: Let_def read_loop_full split: read_result.split)

lemma ssl_safe_read_v2_eq [simp]: "ssl_safe_read_v2 fd selected rs buffer n = ssl_safe_read fd selected rs buffer n"
  by (simp add: ssl_safe_read_v2_def ssl_safe_read_def read_loop_v2_eq)

lemma write_loop_prefix:
  assumes "write_loop rs data tot sent = Some (n, out)" "writes_ok rs (length data - tot)"
    "tot \<le> length data" "sent = take tot data"
  shows "\<exists>k \<le> length data. out = take k data \<and> (n = -1 \<or> n = int k)"
  using assms
proof (induction rs data tot sent rule: write_loop.induct)
  case (1 data tot sent)
  then show ?case by (auto split: if_splits)
next
  case (2 running r rs data tot sent)
  show ?case
  proof (cases "tot < length data \<and> running")
    case True
    show ?thesis
    proof (cases r)
      case (Wrote k)
      with "2.prems" True have k: "k \<le> length data - tot" "writes_ok rs (length data - (tot + k))"
        by auto
      have "sent @ take k (drop tot data) = take (tot + k) data"
        using "2.prems"(4) by (simp add: take_add)
      then show ?thesis
        using "2.IH"(1) [OF True Wrote] "2.prems" True Wrote k by simp
    next
      case Write_failed
      with "2.prems" True show ?thesis by (auto intro: exI [of _ tot])
    qed (use 2 True in auto)
  next
    case False
    with 2 show ?thesis by auto
  qed
qed

lemma write_loop_returns:
  assumes "writes_ok rs (length data - tot)" "length data - tot \<le> progress_calls rs"
  shows "write_loop rs data tot sent \<noteq> None"
  using assms
proof (induction rs data tot sent rule: write_loop.induct)
  case (1 data tot sent)
  then show ?case by (simp add: progress_calls_def)
next
  case (2 running r rs data tot sent)
  show ?case
  proof (cases "tot < length data \<and> running")
    case True
    show ?thesis
    proof (cases r)
      case (Wrote k)
      with "2.prems" True have "writes_ok rs (length data - (tot + k))"
        "length data - (tot + k) \<le> progress_calls rs"
        by (auto simp: progress_calls_def)
      from "2.IH"(1) [OF True Wrote this] show ?thesis
        using True Wrote by simp
    qed (use 2 True in \<open>auto simp: progress_calls_def\<close>)
  qed auto
qed

lemma write_loop_always_eq:
  "write_loop (map (Pair True) rs) data tot sent = write_loop_always rs data tot sent"
  by (induction rs data tot sent rule: write_loop_always.induct) (auto split: write_result.splits)

lemma read_loop_correct:
  assumes "read_loop rs buffer max_len tot = Some res" "reads_ok rs (max_len - 1 - tot)"
    "length buffer = max_len" "tot \<le> max_len - 1" "0 < max_len"
  shows "\<exists>buffer'. res = Inr (tot + length (line_chunks rs (max_len - 1 - tot)), buffer') \<and>
    length buffer' = max_len \<and> tot + length (line_chunks rs (max_len - 1 - tot)) \<le> max_len - 1 \<and>
    take (tot + length (line_chunks rs (max_len - 1 - tot))) buffer' =
      take tot buffer @ line_chunks rs (max_len - 1 - tot)"
  using assms
proof (induction rs buffer max_len tot rule: read_loop.induct)
  case (1 buffer max_len tot)
  then show ?case by (auto split: if_splits)
next
  case (2 r rs buffer max_len tot)
  show ?case
  proof (cases "tot < max_len - 1")
    case True
    show ?thesis
    proof (cases r)
      case (Got chunk)
      let ?b = "take tot buffer @ chunk @ drop (tot + length chunk) buffer"
      have chunk: "chunk \<noteq> []" "length chunk \<le> max_len - 1 - tot"
        "reads_ok rs (max_len - 1 - (tot + length chunk))"
        using "2.prems"(2) True Got by auto
      have fit: "\<not> length buffer < tot + length chunk"
        using chunk(1,2) "2.prems"(3) True by linarith
      have lb: "length ?b = max_len" and pre: "take (tot + length chunk) ?b = take tot buffer @ chunk"
        using fit "2.prems"(3) by auto
      have at: "?b ! (tot + length chunk - 1) = last chunk"
        using chunk fit by (cases chunk rule: rev_cases) (auto simp: nth_append)
      show ?thesis
      proof (cases "last chunk = NL")
        case last: True
        with "2.prems"(1) True Got fit at chunk lb pre show ?thesis by (auto simp: Let_def)
      next
        case False
        then have "read_loop rs ?b max_len (tot + length chunk) = Some res"
          using "2.prems"(1) True Got fit at by (auto simp: Let_def)
        from "2.IH"(1) [OF True Got fit refl refl _ this chunk(3) lb] False at
        show ?thesis using chunk True Got "2.prems"(5) pre
          by (auto simp: add.assoc)
      qed
    qed (use 2 True in auto)
  next
    case False
    with 2 show ?thesis by auto
  qed
qed

section \<open>Lemmas of the properties\<close>

lemma write_loop_complete:
  assumes "list_all (\<lambda>(b, r). b \<and> r \<noteq> Write_failed) rs" "writes_ok rs (length data - tot)"
    "length data - tot \<le> progress_calls rs" "tot \<le> length data" "sent = take tot data"
  shows "write_loop rs data tot sent = Some (int (length data), data)"
  using assms
proof (induction rs data tot sent rule: write_loop.induct)
  case (1 data tot sent)
  then show ?case by (simp add: progress_calls_def)
next
  case (2 running r rs data tot sent)
  show ?case
  proof (cases "tot < length data")
    case True
    with 2 have run: "tot < length data \<and> running" by simp
    show ?thesis
    proof (cases r)
      case (Wrote k)
      with 2 True have "writes_ok rs (length data - (tot + k))" "tot + k \<le> length data"
        "length data - (tot + k) \<le> progress_calls rs"
        by (auto simp: progress_calls_def)
      moreover have "sent @ take k (drop tot data) = take (tot + k) data"
        using "2.prems"(5) by (simp add: take_add)
      ultimately show ?thesis
        using "2.IH"(1) [OF run Wrote] "2.prems"(1) run Wrote by simp
    qed (use 2 run in \<open>auto simp: progress_calls_def\<close>)
  next
    case False
    with "2.prems"(4) have "tot = length data" by simp
    with "2.prems"(5) show ?thesis by simp
  qed
qed

lemma read_loop_returns:
  "Read_end \<in> set rs \<Longrightarrow> read_loop rs buffer max_len tot \<noteq> None"
  by (induction rs buffer max_len tot rule: read_loop.induct) (auto simp: Let_def split: read_result.splits)

lemma ssl_safe_read_chunks:
  assumes "0 \<le> ssl_fd" "0 < selected" "reads_ok rs (length buffer - 1)" "0 < length buffer"
    "Read_end \<in> set rs"
  shows "\<exists>rest. ssl_safe_read ssl_fd selected rs buffer (length buffer) =
      Some (Inr (int (length (line_chunks rs (length buffer - 1))),
                 line_chunks rs (length buffer - 1) @ NUL # rest)) \<and>
    length (line_chunks rs (length buffer - 1) @ NUL # rest) = length buffer"
proof -
  let ?l = "line_chunks rs (length buffer - 1)"
  obtain res where loop: "read_loop rs buffer (length buffer) 0 = Some res"
    using read_loop_returns [OF assms(5)] by blast
  from read_loop_correct [OF this] assms(3,4) obtain b where b:
    "res = Inr (length ?l, b)" "length b = length buffer" "length ?l \<le> length buffer - 1"
    "take (length ?l) b = ?l"
    by auto
  then have lt: "length ?l < length b" using assms(4) by linarith
  have "b[length ?l := NUL] = ?l @ NUL # drop (Suc (length ?l)) b"
    using upd_conv_take_nth_drop [OF lt, of NUL] b(4) by simp
  with assms(1,2) loop b lt show ?thesis
    by (auto simp: ssl_safe_read_def poke_def intro!: exI [of _ "drop (Suc (length ?l)) b"])
qed

section \<open>Properties\<close>

text \<open>
  C12. A write loop that OpenSSL lets make progress once per byte returns; what went out is a prefix of
  the data, and the number returned is its length or -1; while the server runs and no call fails
  everything is sent.
\<close>

theorem ssl_safe_write_delivers:
  assumes "writes_ok rs (length data)" "length data \<le> progress_calls rs"
  shows "\<exists>n out. ssl_safe_write rs data = Some (n, out) \<and>
    (\<exists>k \<le> length data. out = take k data \<and> (n = -1 \<or> n = int k)) \<and>
    (list_all (\<lambda>(b, r). b \<and> r \<noteq> Write_failed) rs \<longrightarrow> n = int (length data) \<and> out = data)"
proof -
  obtain n out where r: "ssl_safe_write rs data = Some (n, out)"
    using write_loop_returns [of rs data 0 "[]"] assms by (auto simp: ssl_safe_write_def)
  moreover have "\<exists>k \<le> length data. out = take k data \<and> (n = -1 \<or> n = int k)"
    using write_loop_prefix [of rs data 0 "[]" n out] r assms by (simp add: ssl_safe_write_def)
  moreover have "n = int (length data) \<and> out = data" if "list_all (\<lambda>(b, r). b \<and> r \<noteq> Write_failed) rs"
    using write_loop_complete [OF that, of data 0 "[]"] r assms by (auto simp: ssl_safe_write_def)
  ultimately show ?thesis by blast
qed

theorem ssl_safe_write_delivers_witness:
  "\<exists>n out. ssl_safe_write [(True, Wrote 1), (True, Write_want_write), (True, Wrote 1)] ''ok'' = Some (n, out) \<and> out = ''ok''"
  using ssl_safe_write_delivers [of "[(True, Wrote 1), (True, Write_want_write), (True, Wrote 1)]" "''ok''"]
  by (simp add: progress_calls_def)

text \<open>
  A read returns the line: once the peer's bytes end, the buffer holds exactly the chunks up to the
  first one that ends in a newline (or up to the space there is), followed by a NUL inside the
  buffer, and the number returned is their length.
\<close>

theorem ssl_safe_read_line:
  assumes "0 \<le> ssl_fd" "0 < selected" "reads_ok rs (length buffer - 1)" "0 < length buffer"
    "Read_end \<in> set rs"
  shows "\<exists>rest. ssl_safe_read ssl_fd selected rs buffer (length buffer) =
      Some (Inr (int (length (line_chunks rs (length buffer - 1))),
                 line_chunks rs (length buffer - 1) @ NUL # rest)) \<and>
    length (line_chunks rs (length buffer - 1) @ NUL # rest) = length buffer"
  by (rule ssl_safe_read_chunks) (use assms in simp_all)

theorem ssl_safe_read_line_witness:
  "\<exists>rest. ssl_safe_read 4 1 [Got ''/he'', Read_want_read, Got (''lp'' @ [NL]), Read_end] (replicate 9 CHR ''x'') 9 =
      Some (Inr (6, ''/help'' @ [NL] @ NUL # rest))"
proof -
  let ?rs = "[Got ''/he'', Read_want_read, Got (''lp'' @ [NL]), Read_end]" and ?b = "replicate 9 CHR ''x''"
  have "\<exists>rest. ssl_safe_read 4 1 ?rs ?b (length ?b) =
      Some (Inr (int (length (line_chunks ?rs (length ?b - 1))), line_chunks ?rs (length ?b - 1) @ NUL # rest)) \<and>
    length (line_chunks ?rs (length ?b - 1) @ NUL # rest) = length ?b"
    by (rule ssl_safe_read_line) simp_all
  then show ?thesis by auto
qed

text \<open>
  The second definition of \<open>ssl_safe_write\<close> in the file is the first one in a server that is never
  stopped.
\<close>

theorem ssl_safe_write_definitions_agree:
  "ssl_safe_write_always rs data = ssl_safe_write (map (Pair True) rs) data"
  by (simp add: ssl_safe_write_def ssl_safe_write_always_def write_loop_always_eq)

end
