(* ===== verification/Signal_Protocol.thy ===== *)
theory Signal_Protocol
  imports Server_State Evp_Crypto
begin

text \<open>
  The Signal Protocol layer of \<^verbatim>\<open>src/src/server.c\<close>: the storage callbacks given to
  libsignal-protocol-c and the initialisation of the global and of the per-client contexts.
  The library's answers are parameters; the objects created and released are recorded in order.
\<close>

definition SG_ERR_INVALID_KEY_ID :: int where "SG_ERR_INVALID_KEY_ID = -1003"
definition SG_ERR_NO_SESSION :: int where "SG_ERR_NO_SESSION = -1008"

datatype signal_event =
    Key_pair_new | Key_pair_unref
  | Pub_buffer_new | Pub_buffer_free
  | Store_new nat | Store_free nat
  | Identity_new | Identity_unref
  | Set_identity_store | Set_session_store | Set_pre_key_store | Set_signed_pre_key_store
  | Context_new nat | Context_free nat | Provider_set

section \<open>Storage callbacks\<close>

text \<open>
  \<open>kp\<close>: the serialised halves of the fresh key pair when \<^verbatim>\<open>curve_generate_key_pair\<close>
  answered 0; the two serialisations each give their buffer or fail.
\<close>

definition identity_key_store_get_key ::
  "bool \<Rightarrow> byte list option \<Rightarrow> byte list option \<Rightarrow>
   int \<times> byte list option \<times> byte list option \<times> signal_event list" where
  "identity_key_store_get_key kp pub priv =
     (if \<not> kp then (SG_ERR_UNKNOWN, None, None, [])
      else case pub of
        None \<Rightarrow> (SG_ERR_UNKNOWN, None, None, [Key_pair_new, Key_pair_unref])
      | Some pb \<Rightarrow>
          (case priv of
             None \<Rightarrow> (SG_ERR_UNKNOWN, None, None,
                     [Key_pair_new, Pub_buffer_new, Pub_buffer_free, Key_pair_unref])
           | Some pv \<Rightarrow> (0, Some pb, Some pv, [Key_pair_new, Pub_buffer_new, Key_pair_unref])))"

definition identity_key_store_get_reg_id :: "int \<times> uint32" where
  "identity_key_store_get_reg_id = (0, 1)"

text \<open>The session and key stores keep nothing: every store succeeds and every load fails.\<close>

definition session_store_load_session :: "string \<times> int \<Rightarrow> int \<times> byte list option" where
  "session_store_load_session address = (SG_ERR_NO_SESSION, None)"

definition session_store_get_sub_device_sessions :: "string \<Rightarrow> int" where
  "session_store_get_sub_device_sessions name = 0"

definition session_store_store_session :: "string \<times> int \<Rightarrow> byte list \<Rightarrow> int" where
  "session_store_store_session address rec = 0"

definition session_store_contains_session :: "string \<times> int \<Rightarrow> int" where
  "session_store_contains_session address = 0"

definition session_store_delete_session :: "string \<times> int \<Rightarrow> int" where
  "session_store_delete_session address = 0"

definition session_store_delete_all_sessions :: "string \<Rightarrow> int" where
  "session_store_delete_all_sessions name = 0"

definition pre_key_store_load_pre_key :: "uint32 \<Rightarrow> int \<times> byte list option" where
  "pre_key_store_load_pre_key pre_key_id = (SG_ERR_INVALID_KEY_ID, None)"

definition pre_key_store_store_pre_key :: "uint32 \<Rightarrow> byte list \<Rightarrow> int" where
  "pre_key_store_store_pre_key pre_key_id rec = 0"

definition pre_key_store_contains_pre_key :: "uint32 \<Rightarrow> int" where
  "pre_key_store_contains_pre_key pre_key_id = 0"

definition pre_key_store_remove_pre_key :: "uint32 \<Rightarrow> int" where
  "pre_key_store_remove_pre_key pre_key_id = 0"

definition signed_pre_key_store_load_signed_pre_key :: "uint32 \<Rightarrow> int \<times> byte list option" where
  "signed_pre_key_store_load_signed_pre_key signed_pre_key_id = (SG_ERR_INVALID_KEY_ID, None)"

definition signed_pre_key_store_store_signed_pre_key :: "uint32 \<Rightarrow> byte list \<Rightarrow> int" where
  "signed_pre_key_store_store_signed_pre_key signed_pre_key_id rec = 0"

definition signed_pre_key_store_contains_signed_pre_key :: "uint32 \<Rightarrow> int" where
  "signed_pre_key_store_contains_signed_pre_key signed_pre_key_id = 0"

definition signed_pre_key_store_remove_signed_pre_key :: "uint32 \<Rightarrow> int" where
  "signed_pre_key_store_remove_signed_pre_key signed_pre_key_id = 0"

section \<open>Initialisation\<close>

text \<open>
  \<open>ctx\<close>: the context \<^verbatim>\<open>signal_context_create\<close> gave, if it answered 0; \<open>keys\<close>: whether
  the test key pair was generated. The pointer keeps its value when the context is destroyed.
\<close>

definition init_enhanced_signal_protocol ::
  "nat option \<Rightarrow> bool \<Rightarrow> ultra_server_state_t \<Rightarrow> bool \<times> ultra_server_state_t \<times> signal_event list" where
  "init_enhanced_signal_protocol ctx keys s =
     (case ctx of
        None \<Rightarrow> (False, s, [])
      | Some c \<Rightarrow>
          let s' = s\<lparr>s_global_ctx := Some c\<rparr> in
          if \<not> keys then (False, s', [Context_new c, Provider_set, Context_free c])
          else (True, s', [Context_new c, Provider_set, Key_pair_new, Key_pair_unref]))"

text \<open>The library's answers during the initialisation of a client, in the order of the calls.\<close>

record signal_env =
  se_store :: "nat option"
  se_identity :: bool
  se_reg_id :: "uint32 option"
  se_session_rand :: rand_result
  se_chacha_rand :: rand_result
  se_twofish_rand :: rand_result
  se_public_key :: "byte list \<Rightarrow> byte list option"

definition derive_public_key :: "signal_env \<Rightarrow> secure_client_t \<Rightarrow> secure_client_t" where
  "derive_public_key env c =
     (case se_public_key env (c_session_key c) of
        None \<Rightarrow> c | Some pk \<Rightarrow> c\<lparr>c_public_key := take 32 pk\<rparr>)"

definition init_client_signal_protocol ::
  "signal_env \<Rightarrow> secure_client_t \<Rightarrow> bool \<times> secure_client_t \<times> signal_event list" where
  "init_client_signal_protocol env c =
     (case se_store env of
        None \<Rightarrow> (False, c, [])
      | Some h \<Rightarrow>
          let c1 = c\<lparr>c_store := Some h\<rparr>;
              ev1 = [Store_new h, Set_identity_store, Set_session_store, Set_pre_key_store,
                     Set_signed_pre_key_store] in
          if \<not> se_identity env then (False, c1\<lparr>c_store := None\<rparr>, ev1 @ [Store_free h])
          else case se_reg_id env of
            None \<Rightarrow> (False, c1\<lparr>c_store := None\<rparr>, ev1 @ [Identity_new, Identity_unref, Store_free h])
          | Some rid \<Rightarrow>
              let c2 = c1\<lparr>c_reg_id := rid, c_session_key := take 32 (snd (se_session_rand env))\<rparr> in
              if fst (se_session_rand env) = 0
              then (False, c2\<lparr>c_store := None\<rparr>, ev1 @ [Identity_new, Identity_unref, Store_free h])
              else let c3 = c2\<lparr>c_chacha_key := take 32 (snd (se_chacha_rand env))\<rparr> in
              if fst (se_chacha_rand env) = 0
              then (False, c3\<lparr>c_store := None\<rparr>, ev1 @ [Identity_new, Identity_unref, Store_free h])
              else (True, derive_public_key env c3, ev1 @ [Identity_new, Identity_unref]))"

text \<open>
  The second definition in the same file: no store is configured, and the Twofish key is
  generated too.
\<close>

definition init_client_signal_protocol_2 ::
  "signal_env \<Rightarrow> secure_client_t \<Rightarrow> bool \<times> secure_client_t \<times> signal_event list" where
  "init_client_signal_protocol_2 env c =
     (case se_store env of
        None \<Rightarrow> (False, c, [])
      | Some h \<Rightarrow>
          let c1 = c\<lparr>c_store := Some h\<rparr> in
          if \<not> se_identity env then (False, c1\<lparr>c_store := None\<rparr>, [Store_new h, Store_free h])
          else case se_reg_id env of
            None \<Rightarrow> (False, c1\<lparr>c_store := None\<rparr>,
                    [Store_new h, Identity_new, Identity_unref, Store_free h])
          | Some rid \<Rightarrow>
              let c2 = c1\<lparr>c_reg_id := rid, c_session_key := take 32 (snd (se_session_rand env))\<rparr>;
                  fail = (\<lambda>k. (False, k\<lparr>c_store := None\<rparr>,
                    [Store_new h, Identity_new, Identity_unref, Store_free h])) in
              if fst (se_session_rand env) = 0 then fail c2
              else let c3 = c2\<lparr>c_chacha_key := take 32 (snd (se_chacha_rand env))\<rparr> in
              if fst (se_chacha_rand env) = 0 then fail c3
              else let c4 = c3\<lparr>c_twofish_key := take 32 (snd (se_twofish_rand env))\<rparr> in
              if fst (se_twofish_rand env) = 0 then fail c4
              else (True, derive_public_key env c4, [Store_new h, Identity_new, Identity_unref]))"

section \<open>Well-formedness\<close>

text \<open>What the library promises of the sizes: \<^verbatim>\<open>RAND_bytes\<close> fills the 32 bytes it is asked
  for, and a raw X25519 public key has 32 bytes.\<close>

definition signal_env_ok :: "signal_env \<Rightarrow> bool" where
  "signal_env_ok env = (length (snd (se_session_rand env)) = 32 \<and> length (snd (se_chacha_rand env)) = 32 \<and>
     length (snd (se_twofish_rand env)) = 32 \<and>
     (\<forall>k pk. se_public_key env k = Some pk \<longrightarrow> length pk = 32))"

fun live_stores :: "signal_event list \<Rightarrow> int" where
  "live_stores [] = 0"
| "live_stores (e # es) = (case e of Store_new _ \<Rightarrow> 1 | Store_free _ \<Rightarrow> -1 | _ \<Rightarrow> 0) + live_stores es"

fun live_identities :: "signal_event list \<Rightarrow> int" where
  "live_identities [] = 0"
| "live_identities (e # es) = (case e of Identity_new \<Rightarrow> 1 | Identity_unref \<Rightarrow> -1 | _ \<Rightarrow> 0) + live_identities es"

section \<open>Lemmas\<close>

lemma wf_client_simps [simp]:
  "wf_client (c\<lparr>c_store := h\<rparr>) = wf_client c" "wf_client (c\<lparr>c_reg_id := r\<rparr>) = wf_client c"
  "length k = 32 \<Longrightarrow> wf_client c \<Longrightarrow> wf_client (c\<lparr>c_session_key := k\<rparr>)"
  "length k = 32 \<Longrightarrow> wf_client c \<Longrightarrow> wf_client (c\<lparr>c_chacha_key := k\<rparr>)"
  "wf_client (c\<lparr>c_twofish_key := k\<rparr>) = wf_client c"
  "length k = 32 \<Longrightarrow> wf_client c \<Longrightarrow> wf_client (c\<lparr>c_public_key := k\<rparr>)"
  by (auto simp: wf_client_def)

lemma wf_derive_public_key:
  "signal_env_ok env \<Longrightarrow> wf_client c \<Longrightarrow> wf_client (derive_public_key env c)"
  by (auto simp: derive_public_key_def signal_env_ok_def split: option.splits)

lemma wf_init_client:
  "signal_env_ok env \<Longrightarrow> wf_client c \<Longrightarrow> wf_client (fst (snd (init_client_signal_protocol env c)))"
  by (auto simp: init_client_signal_protocol_def Let_def signal_env_ok_def
        intro!: wf_derive_public_key split: option.splits)

lemma init_client_frame:
  assumes "init_client_signal_protocol env c = (ok, c', ev)"
  shows "c_fd c' = c_fd c" "c_ssl c' = c_ssl c" "c_authorized c' = c_authorized c"
    "c_nick c' = c_nick c" "c_token c' = c_token c" "c_addr c' = c_addr c" "c_rate_limit c' = c_rate_limit c"
  using assms by (auto simp: init_client_signal_protocol_def derive_public_key_def Let_def
      split: option.splits if_splits)

section \<open>Properties\<close>

text \<open>
  Initialising a client's Signal context either succeeds, leaving exactly one store context
  that the client owns and no identity key pair, or fails with the store destroyed, the client's
  pointer cleared and the identity key pair released; both definitions of the function agree on
  this and on the result whenever the Twofish key is generated.
\<close>

theorem init_client_signal_resources:
  assumes "c_store c = None" "fst (se_twofish_rand env) \<noteq> 0"
    "init_client_signal_protocol env c = (ok, c', ev)"
    "init_client_signal_protocol_2 env c = (ok2, c2, ev2)"
  shows "live_identities ev = 0 \<and> live_stores ev = (if ok then 1 else 0) \<and>
    (c_store c' = (if ok then se_store env else None)) \<and>
    live_identities ev2 = 0 \<and> live_stores ev2 = (if ok then 1 else 0) \<and>
    ok2 = ok \<and> c2 = c'\<lparr>c_twofish_key := c_twofish_key c2\<rparr>"
  using assms
  by (auto simp: init_client_signal_protocol_def init_client_signal_protocol_2_def derive_public_key_def
      Let_def split: option.splits if_splits)

definition sample_env :: signal_env where
  "sample_env = \<lparr>se_store = Some 4, se_identity = True, se_reg_id = Some 99,
     se_session_rand = (1, replicate 32 7), se_chacha_rand = (1, replicate 32 8),
     se_twofish_rand = (1, replicate 32 9), se_public_key = (\<lambda>k. Some (replicate 32 5))\<rparr>"

theorem init_client_signal_resources_witness:
  "fst (init_client_signal_protocol sample_env zero_client) \<and>
   live_stores (snd (snd (init_client_signal_protocol sample_env zero_client))) = 1"
proof -
  obtain ok c' ev where a: "init_client_signal_protocol sample_env zero_client = (ok, c', ev)"
    by (metis prod_cases3)
  obtain ok2 c2 ev2 where b: "init_client_signal_protocol_2 sample_env zero_client = (ok2, c2, ev2)"
    by (metis prod_cases3)
  have "c_store zero_client = None" "fst (se_twofish_rand sample_env) \<noteq> 0"
    by (simp_all add: zero_client_def sample_env_def)
  moreover have "ok" using a
    by (auto simp: init_client_signal_protocol_def sample_env_def Let_def)
  ultimately show ?thesis
    using init_client_signal_resources [OF _ _ a b] a by simp
qed

end
