(* ===== verification/Client_Session.thy ===== *)
theory Client_Session
  imports Commands Rate_Limit Net_IO Signal_Protocol
begin

text \<open>
  The life of one connection in \<^verbatim>\<open>src/src/server.c\<close>: \<open>secure_client_handler\<close>, the thread
  that serves a slot, in its parts (the start of the session, one turn of the loop, the end), and
  \<open>cleanup_client_resources\<close>. The loop runs over a list of turns, one entry per iteration with
  what the environment contributes; a loop whose list runs out has not returned (\<open>None\<close>).
\<close>

section \<open>Releasing a slot\<close>

text \<open>\<^verbatim>\<open>secure_memzero(field, sizeof(field))\<close> on a fixed array.\<close>

definition wipe :: "'a \<Rightarrow> 'a list \<Rightarrow> 'a list" where
  "wipe z v = projr (secure_memzero z v (length v))"

definition release_events :: "secure_client_t \<Rightarrow> event list" where
  "release_events c =
     (case c_ssl c of None \<Rightarrow> [] | Some h \<Rightarrow> [Ssl_shutdown h, Ssl_free h]) @
     (if c_fd c \<ge> 0 then [Close_fd (c_fd c)] else []) @
     (case c_cipher c of None \<Rightarrow> [] | Some h \<Rightarrow> [Cipher_free h]) @
     (case c_store c of None \<Rightarrow> [] | Some h \<Rightarrow> [Store_destroy h])"

definition released :: "secure_client_t \<Rightarrow> secure_client_t" where
  "released c = c\<lparr>c_ssl := None, c_fd := (if c_fd c \<ge> 0 then -1 else c_fd c), c_cipher := None,
     c_store := None, c_nick := wipe NUL (c_nick c), c_token := wipe NUL (c_token c),
     c_session_key := wipe 0 (c_session_key c), c_chacha_key := wipe 0 (c_chacha_key c),
     c_public_key := wipe 0 (c_public_key c), c_shared_secret := wipe 0 (c_shared_secret c),
     c_session_token := wipe 0 (c_session_token c), c_authorized := False\<rparr>"

definition cleanup_client_resources :: "nat \<Rightarrow> 'db world \<Rightarrow> 'db world" where
  "cleanup_client_resources i w =
     set_client i (released (client w i)) (emit (release_events (client w i)) w)"

section \<open>The start of a session\<close>

text \<open>With \<^verbatim>\<open>LD_PRELOAD\<close> set the process ends; \<open>integrity_self_check\<close> only prints.\<close>

definition advanced_anti_debug_check :: "string option \<Rightarrow> bool" where
  "advanced_anti_debug_check ld_preload = (ld_preload = None)"

text \<open>\<^verbatim>\<open>snprintf(array, sizeof(array), ...)\<close> on an array of the state.\<close>

definition snprintf_array :: "char list \<Rightarrow> string \<Rightarrow> char list" where
  "snprintf_array buf s = (let t = snprintf (length buf) s in t @ NUL # drop (Suc (length t)) buf)"

definition session_id_of :: "time_t \<Rightarrow> int \<Rightarrow> uint64" where
  "session_id_of now pid = push_bit 32 (word_of_int now) OR ucast (word_of_int pid :: uint32)"

definition msg_welcome :: string where
  \<open>msg_welcome = ''{"type":"welcome","version":"4.0","security":"enhanced"}'' @ [NL]\<close>

definition msg_rate_limit :: string where
  \<open>msg_rate_limit = ''{"type":"error","message":"Rate limit exceeded"}'' @ [NL]\<close>

record session_env =
  sv_ld_preload :: "string option"
  sv_signal :: signal_env
  sv_peer_now :: time_t
  sv_id_now :: time_t
  sv_pid :: int
  sv_token_rand :: rand_result
  sv_log_now :: time_t

text \<open>\<open>None\<close>: the process exited; otherwise whether the loop is entered, and the world.\<close>

definition session_start ::
  "'db sqlite \<Rightarrow> session_env \<Rightarrow> nat \<Rightarrow> string \<Rightarrow> 'db world \<Rightarrow> (bool \<times> 'db world) option" where
  "session_start E env i ip w =
     (if \<not> advanced_anti_debug_check (sv_ld_preload env) then None
      else let (ok, c, _) = init_client_signal_protocol (sv_signal env) (client w i); w1 = set_client i c w in
      if \<not> ok then Some (False, w1)
      else
        let c2 = c\<lparr>c_peer_id := snprintf_array (c_peer_id c)
                     (''secure_peer_'' @ dec_int (sv_peer_now env) @ ''_'' @ dec_int (sv_pid env)),
                   c_session_id := session_id_of (sv_id_now env) (sv_pid env),
                   c_session_token := take 32 (snd (sv_token_rand env))\<rparr>;
            w2 = set_client i c2 w1
        in if fst (sv_token_rand env) = 0 then Some (False, w2)
           else Some (True, log_security_event E ''CLIENT_CONNECT'' (Some ''unknown'') (Some ip)
                  (Some ''New client connection established'') (sv_log_now env) (send i msg_welcome w2)))"

section \<open>One turn of the loop\<close>

record turn =
  tn_fd :: int
  tn_selected :: int
  tn_reads :: "read_result list"
  tn_idle_now :: time_t
  tn_activity_now :: time_t
  tn_now :: time_t
  tn_cmd :: cmd_env

datatype decision = Continue | Stop

text \<open>The command line that a received buffer holds: sanitized, without its final newline.\<close>

definition drop_newline :: "char list \<Rightarrow> char list" where
  "drop_newline buffer =
     (if last (cstr buffer) = NL then buffer[length (cstr buffer) - 1 := NUL] else buffer)"

definition serve_line ::
  "'db sqlite \<Rightarrow> cmd_env \<Rightarrow> nat \<Rightarrow> string \<Rightarrow> char list \<Rightarrow> 'db world \<Rightarrow> fault + char list \<times> 'db world" where
  "serve_line E env i ip buffer w =
     (case sanitize_input buffer of
        Inl e \<Rightarrow> Inl e
      | Inr buffer1 \<Rightarrow>
          if cstr buffer1 = [] \<or> buffer1 ! 0 = NL then Inr (buffer1, w)
          else let buffer2 = drop_newline buffer1
               in map_sum id (Pair buffer2) (process_client_command E env i (cstr buffer2) ip w))"

definition session_turn ::
  "'db sqlite \<Rightarrow> nat \<Rightarrow> string \<Rightarrow> turn \<Rightarrow> char list \<Rightarrow> 'db world \<Rightarrow>
   (fault + decision \<times> char list \<times> 'db world) option" where
  "session_turn E i ip t buffer w =
     (if \<not> (s_running (w_srv w) \<and> c_fd (client w i) \<ge> 0) then Some (Inr (Stop, buffer, w))
      else case ssl_safe_read (tn_fd t) (tn_selected t) (tn_reads t) buffer BUFFER_SIZE of
        None \<Rightarrow> None
      | Some (Inl e) \<Rightarrow> Some (Inl e)
      | Some (Inr (bytes_read, buffer1)) \<Rightarrow>
          if bytes_read \<le> 0 then
            if bytes_read = 0 then
              if tn_idle_now t - c_last_activity (client w i) > CONNECTION_TIMEOUT
              then Some (Inr (Stop, buffer1, w)) else Some (Inr (Continue, buffer1, w))
            else Some (Inr (Stop, buffer1, w))
          else
            let w1 = set_client i ((client w i)\<lparr>c_last_activity := tn_activity_now t\<rparr>) w;
                (ok, rl) = limit_request (tn_now t) (c_rate_limit (client w1 i));
                w2 = set_client i ((client w1 i)\<lparr>c_rate_limit := rl\<rparr>) w1
            in if \<not> ok then Some (Inr (Continue, buffer1, send i msg_rate_limit w2))
               else Some (map_sum id (Pair Continue) (serve_line E (tn_cmd t) i ip buffer1 w2)))"

section \<open>The whole session\<close>

definition session_end :: "'db sqlite \<Rightarrow> time_t \<Rightarrow> nat \<Rightarrow> string \<Rightarrow> 'db world \<Rightarrow> 'db world" where
  "session_end E now i ip w =
     (let nick = cstr (c_nick (client w i));
          w1 = (if c_authorized (client w i)
                then log_security_event E ''CLIENT_DISCONNECT'' (Some nick) (Some ip)
                       (Some ''Client disconnected normally'') now
                       (broadcast_message E ''System'' (snprintf 256 (''User '' @ nick @ '' disconnected'')) w)
                else w)
      in cleanup_client_resources i w1)"

fun session_loop ::
  "'db sqlite \<Rightarrow> nat \<Rightarrow> string \<Rightarrow> turn list \<Rightarrow> char list \<Rightarrow> 'db world \<Rightarrow> (fault + 'db world) option" where
  "session_loop E i ip [] buffer w = None"
| "session_loop E i ip (t # ts) buffer w =
     (case session_turn E i ip t buffer w of
        None \<Rightarrow> None
      | Some (Inl e) \<Rightarrow> Some (Inl e)
      | Some (Inr (Stop, buffer', w')) \<Rightarrow> Some (Inr w')
      | Some (Inr (Continue, buffer', w')) \<Rightarrow> session_loop E i ip ts buffer' w')"

datatype 'db session_result = Exited int | Running | Faulted fault | Finished "'db world"

definition secure_client_handler ::
  "'db sqlite \<Rightarrow> session_env \<Rightarrow> turn list \<Rightarrow> time_t \<Rightarrow> char list \<Rightarrow> nat \<Rightarrow> 'db world \<Rightarrow> 'db session_result" where
  "secure_client_handler E env ts end_now buffer i w =
     (let ip = inet_ntop (sin_addr (c_addr (client w i))) in
      case session_start E env i ip w of
        None \<Rightarrow> Exited 1
      | Some (False, w1) \<Rightarrow> Finished (session_end E end_now i ip w1)
      | Some (True, w1) \<Rightarrow>
          (case session_loop E i ip ts buffer w1 of
             None \<Rightarrow> Running
           | Some (Inl e) \<Rightarrow> Faulted e
           | Some (Inr w2) \<Rightarrow> Finished (session_end E end_now i ip w2)))"

text \<open>The slot as a turn that received something leaves it before the command runs.\<close>

definition counted :: "turn \<Rightarrow> secure_client_t \<Rightarrow> secure_client_t" where
  "counted t c = c\<lparr>c_last_activity := tn_activity_now t,
     c_rate_limit := snd (limit_request (tn_now t) (c_rate_limit c))\<rparr>"

text \<open>A session and a turn to evaluate.\<close>

definition demo_turn :: turn where
  "demo_turn = \<lparr>tn_fd = 5, tn_selected = 1, tn_reads = [Got (''/he<lp'' @ [NL]), Read_end], tn_idle_now = 100,
     tn_activity_now = 100, tn_now = 100, tn_cmd = demo_env\<rparr>"

definition demo_session :: session_env where
  "demo_session = \<lparr>sv_ld_preload = None, sv_signal = sample_env, sv_peer_now = 100, sv_id_now = 100, sv_pid = 7,
     sv_token_rand = (1, zeros 32), sv_log_now = 100\<rparr>"

section \<open>Lemmas\<close>

lemma wipe_eq [simp]: "wipe z v = replicate (length v) z"
  by (simp add: wipe_def)

lemma wf_released: "wf_client c \<Longrightarrow> wf_client (released c)"
  by (simp add: wf_client_def released_def limit_defs)

lemma length_snprintf_array: "0 < length buf \<Longrightarrow> length (snprintf_array buf s) = length buf"
  by (cases buf) (simp_all add: snprintf_array_def snprintf_def Let_def)

lemma nth_snprintf_array_last:
  "0 < length buf \<Longrightarrow> buf ! (length buf - 1) = NUL \<Longrightarrow> snprintf_array buf s ! (length buf - 1) = NUL"
  by (cases buf rule: rev_cases)
     (auto simp: snprintf_array_def snprintf_def Let_def nth_append nth_Cons' min_def)

lemma cleanup_clients [simp]:
  "s_clients (w_srv (cleanup_client_resources i w)) = (s_clients (w_srv w))[i := released (client w i)]"
  "w_db (cleanup_client_resources i w) = w_db w"
  "w_trace (cleanup_client_resources i w) = w_trace w @ release_events (client w i)"
  "s_running (w_srv (cleanup_client_resources i w)) = s_running (w_srv w)"
  "s_total_connections (w_srv (cleanup_client_resources i w)) = s_total_connections (w_srv w)"
  by (simp_all add: cleanup_client_resources_def)

lemma cleanup_wf:
  "wf_server (w_srv w) \<Longrightarrow> i < MAX_CLIENTS \<Longrightarrow> wf_server (w_srv (cleanup_client_resources i w))"
  using wf_server_client [of w i]
  by (simp add: cleanup_client_resources_def wf_server_set_client wf_released)

lemma session_start_outcome:
  assumes "session_start E env i ip w = Some (ok, w')" "wf_server (w_srv w)" "i < MAX_CLIENTS"
    "signal_env_ok (sv_signal env)" "length (snd (sv_token_rand env)) = 32"
  shows "only_slot i w w'" "wf_server (w_srv w')"
proof -
  obtain b c ev where init: "init_client_signal_protocol (sv_signal env) (client w i) = (b, c, ev)"
    by (metis prod_cases3)
  let ?c = "c\<lparr>c_peer_id := snprintf_array (c_peer_id c)
      (''secure_peer_'' @ dec_int (sv_peer_now env) @ ''_'' @ dec_int (sv_pid env)),
    c_session_id := session_id_of (sv_id_now env) (sv_pid env),
    c_session_token := take 32 (snd (sv_token_rand env))\<rparr>"
  have wf: "wf_client c"
    using wf_init_client [OF assms(4) wf_server_client [OF assms(2,3)]] init by simp
  then have wf': "wf_client ?c"
    using assms(5) length_snprintf_array [of "c_peer_id c"] nth_snprintf_array_last [of "c_peer_id c"]
    by (simp add: wf_client_def)
  have "w' = set_client i c w \<or> w_srv w' = w_srv (set_client i ?c (set_client i c w)) \<or>
    (\<exists>t n p d now v. w' = log_security_event E t n p d now v \<and>
      w_srv v = w_srv (set_client i ?c (set_client i c w)))"
    using assms(1) init by (auto simp: session_start_def Let_def split: if_splits) fastforce+
  then show "only_slot i w w'" "wf_server (w_srv w')"
    using assms(2) wf wf' by (auto simp: only_slot_def intro!: wf_server_set_client log_event_wf)
qed

lemma serve_line_cases:
  assumes "serve_line E env i ip buffer w = Inr (buffer', w')"
  obtains (skip) "w' = w" | (command) c where "process_client_command E env i c ip w = Inr w'"
  using assms by (auto simp: serve_line_def Let_def split: sum.splits if_splits)

lemma wf_counted: "wf_client c \<Longrightarrow> wf_client (counted t c)"
  using limit_request_wf [of "c_rate_limit c" "tn_now t"] by (simp add: counted_def wf_client_def)

lemma session_turn_cases:
  assumes "session_turn E i ip t buffer w = Some (Inr (dec, buffer', w'))" "i < length (s_clients (w_srv w))"
  obtains (idle) "w' = w"
    | (limited) "w' = send i msg_rate_limit (set_client i (counted t (client w i)) w)"
    | (served) b where "serve_line E (tn_cmd t) i ip b (set_client i (counted t (client w i)) w) = Inr (buffer', w')"
proof -
  obtain ok rl where lim: "limit_request (tn_now t) (c_rate_limit (client w i)) = (ok, rl)" by fastforce
  then have c: "counted t (client w i) = client w i\<lparr>c_last_activity := tn_activity_now t, c_rate_limit := rl\<rparr>"
    by (simp add: counted_def)
  show thesis
    using assms lim that c
    by (auto simp: session_turn_def Let_def split: option.splits sum.splits prod.splits if_splits)
qed

lemma session_turn_outcome:
  assumes "session_turn E i ip t buffer w = Some (Inr (dec, buffer', w'))" "wf_server (w_srv w)" "i < MAX_CLIENTS"
  shows "only_slot i w w'" "wf_server (w_srv w')"
proof -
  let ?v = "set_client i (counted t (client w i)) w"
  have v: "wf_server (w_srv ?v)" "only_slot i w ?v"
    using assms(2) wf_counted [OF wf_server_client [OF assms(2,3)]]
    by (auto simp: only_slot_def intro!: wf_server_set_client)
  have len: "i < length (s_clients (w_srv w))" using assms(2,3) by (simp add: wf_server_def)
  have "only_slot i w w' \<and> wf_server (w_srv w')"
    using assms(1) len
  proof (cases rule: session_turn_cases)
    case limited
    then show ?thesis using v only_slot_trans [OF v(2) only_slot_same] by simp
  next
    case (served b)
    then show ?thesis
    proof (cases rule: serve_line_cases)
      case (command c)
      from command_outcome [OF this v(1) assms(3)] v(2) show ?thesis using only_slot_trans by blast
    qed (use v in simp)
  qed (use assms(2) in \<open>simp add: only_slot_same\<close>)
  then show "only_slot i w w'" "wf_server (w_srv w')" by blast+
qed

lemma session_loop_outcome:
  "session_loop E i ip ts buffer w = Some (Inr w') \<Longrightarrow> wf_server (w_srv w) \<Longrightarrow> i < MAX_CLIENTS \<Longrightarrow>
   only_slot i w w' \<and> wf_server (w_srv w')"
proof (induction ts arbitrary: buffer w)
  case (Cons t ts)
  then obtain dec buffer1 w1 where turn: "session_turn E i ip t buffer w = Some (Inr (dec, buffer1, w1))"
    by (auto split: option.splits sum.splits)
  note step = session_turn_outcome [OF turn Cons.prems(2,3)]
  show ?case
  proof (cases dec)
    case Stop
    with Cons.prems(1) turn step show ?thesis by simp
  next
    case Continue
    with Cons.prems(1) turn Cons.IH [OF _ step(2) Cons.prems(3)] step(1) show ?thesis
      using only_slot_trans by fastforce
  qed
qed simp

lemma session_end_outcome:
  assumes "wf_server (w_srv w)" "i < MAX_CLIENTS"
  shows "only_slot i w (session_end E now i ip w)" "wf_server (w_srv (session_end E now i ip w))"
    "client (session_end E now i ip w) i = released (client w i)"
    "\<exists>es. w_trace (session_end E now i ip w) = es @ release_events (client w i)"
  using assms
  by (auto simp: session_end_def Let_def only_slot_def wf_server_def [of "w_srv w"] intro!: cleanup_wf log_event_wf)

lemma drop_newline_line:
  "is_cstr m \<Longrightarrow> cstr b = m @ [NL] \<Longrightarrow> cstr (drop_newline b) = m"
proof -
  assume m: "is_cstr m" "cstr b = m @ [NL]"
  then have "b = (m @ [NL]) @ drop (length (m @ [NL])) b"
    unfolding cstr_def by (metis takeWhile_eq_take append_take_drop_id)
  then have "b[length m := NUL] = m @ NUL # drop (Suc (length m)) b"
    by (metis append.assoc append_Cons append_Nil length_append_singleton list_update_length)
  with m show ?thesis by (simp add: drop_newline_def)
qed

lemma serve_line_runs:
  assumes "is_cstr l" "\<exists>rest. buffer = l @ NL # NUL # rest"
    "filter (\<lambda>c. \<not> unsafe_char c) l = m" "m \<noteq> []" "hd m \<noteq> NL"
  shows "\<exists>buffer'. serve_line E env i ip buffer w =
    map_sum id (Pair buffer') (process_client_command E env i m ip w)"
proof -
  obtain rest where rest: "buffer = (l @ [NL]) @ NUL # rest" using assms(2) by auto
  have cb: "cstr buffer = l @ [NL]" unfolding rest by (rule cstr_append_nul) (use assms(1) in simp)
  have "NUL \<in> set buffer" using rest by simp
  then obtain b where b: "sanitize_input buffer = Inr b" "cstr b = filter (\<lambda>c. \<not> unsafe_char c) (cstr buffer)"
    by (rule sanitize_input_cstr)
  have cb': "cstr b = m @ [NL]" using b(2) cb assms(3) by (simp add: unsafe_char_def)
  have "b ! 0 = hd m"
    using cb' assms(4) by (cases b) (auto simp: cstr_def hd_append Cons_eq_append_conv split: if_splits)
  moreover have "is_cstr m" using assms(1,3) is_cstr_filter by blast
  ultimately show ?thesis
    using b(1) cb' assms(4,5) drop_newline_line [of m b] by (simp add: serve_line_def) blast
qed

lemma session_turn_runs:
  assumes "s_running (w_srv w)" "0 \<le> c_fd (client w i)" "i < length (s_clients (w_srv w))"
    "0 \<le> tn_fd t" "0 < tn_selected t" "reads_ok (tn_reads t) 8191" "Read_end \<in> set (tn_reads t)"
    "length buffer = 8192" "line_chunks (tn_reads t) 8191 = l @ [NL]" "is_cstr l"
    "filter (\<lambda>c. \<not> unsafe_char c) l = m" "m \<noteq> []" "hd m \<noteq> NL"
    "limit_request (tn_now t) (c_rate_limit (client w i)) = (True, rl)"
  shows "\<exists>buffer'. session_turn E i ip t buffer w =
    Some (map_sum id (\<lambda>w'. (Continue, buffer', w'))
      (process_client_command E (tn_cmd t) i m ip
         (set_client i ((client w i)\<lparr>c_last_activity := tn_activity_now t, c_rate_limit := rl\<rparr>) w)))"
proof -
  obtain rest where read: "ssl_safe_read (tn_fd t) (tn_selected t) (tn_reads t) buffer 8192 =
      Some (Inr (int (length (l @ [NL])), (l @ [NL]) @ NUL # rest))"
    using ssl_safe_read_chunks [of "tn_fd t" "tn_selected t" "tn_reads t" buffer] assms by auto
  let ?w = "set_client i ((client w i)\<lparr>c_last_activity := tn_activity_now t, c_rate_limit := rl\<rparr>) w"
  obtain buffer' where "serve_line E (tn_cmd t) i ip ((l @ [NL]) @ NUL # rest) ?w =
      map_sum id (Pair buffer') (process_client_command E (tn_cmd t) i m ip ?w)"
    using serve_line_runs [OF assms(10) _ assms(11-13)] by (metis append.assoc append_Cons append_Nil)
  then have "session_turn E i ip t buffer w =
      Some (map_sum id (Pair Continue) (map_sum id (Pair buffer') (process_client_command E (tn_cmd t) i m ip ?w)))"
    using assms(1-3,14) by (simp add: session_turn_def BUFFER_SIZE_def read Let_def)
  then show ?thesis by (auto simp: sum.map_comp comp_def id_def)
qed

section \<open>Properties\<close>

text \<open>
  C9. A line received in time reaches the command handler as the client meant it: however the bytes
  arrive in chunks, one turn of the loop on a line below the rate limit runs
  \<open>process_client_command\<close> on the line without its newline and without the unsafe characters, with
  the activity time and the request counter of the slot updated.
\<close>

theorem session_turn_dispatches:
  assumes "s_running (w_srv w)" "0 \<le> c_fd (client w i)" "i < length (s_clients (w_srv w))"
    "0 \<le> tn_fd t" "0 < tn_selected t" "reads_ok (tn_reads t) 8191" "Read_end \<in> set (tn_reads t)"
    "length buffer = 8192" "line_chunks (tn_reads t) 8191 = l @ [NL]" "is_cstr l"
    "filter (\<lambda>c. \<not> unsafe_char c) l = m" "m \<noteq> []" "hd m \<noteq> NL"
    "limit_request (tn_now t) (c_rate_limit (client w i)) = (True, rl)"
  shows "\<exists>buffer'. session_turn E i ip t buffer w =
    Some (map_sum id (\<lambda>w'. (Continue, buffer', w'))
      (process_client_command E (tn_cmd t) i m ip
         (set_client i ((client w i)\<lparr>c_last_activity := tn_activity_now t, c_rate_limit := rl\<rparr>) w)))"
  using assms by (rule session_turn_runs)

theorem session_turn_dispatches_witness:
  "\<exists>buffer'. session_turn table_engine 0 ''ip'' demo_turn (nuls 8192)
     (demo_world\<lparr>w_srv := server_init\<lparr>s_running := True\<rparr>\<rparr>) =
   Some (map_sum id (\<lambda>w'. (Continue, buffer', w'))
     (process_client_command table_engine demo_env 0 ''/help'' ''ip''
       (set_client 0 (zero_client\<lparr>c_last_activity := 100,
          c_rate_limit := zero_rate_limit\<lparr>rl_window_start := 100, rl_count := 1\<rparr>\<rparr>)
        (demo_world\<lparr>w_srv := server_init\<lparr>s_running := True\<rparr>\<rparr>))))"
proof -
  let ?w = "demo_world\<lparr>w_srv := server_init\<lparr>s_running := True\<rparr>\<rparr>"
  have "\<exists>buffer'. session_turn table_engine 0 ''ip'' demo_turn (nuls 8192) ?w =
    Some (map_sum id (\<lambda>w'. (Continue, buffer', w'))
      (process_client_command table_engine (tn_cmd demo_turn) 0 ''/help'' ''ip''
         (set_client 0 ((client ?w 0)\<lparr>c_last_activity := tn_activity_now demo_turn,
            c_rate_limit := zero_rate_limit\<lparr>rl_window_start := 100, rl_count := 1\<rparr>\<rparr>) ?w)))"
  proof (rule session_turn_dispatches)
    show "0 < length (s_clients (w_srv ?w))"
      using wf_server_init by (simp add: wf_server_def MAX_CLIENTS_def)
    show "limit_request (tn_now demo_turn) (c_rate_limit (client ?w 0)) =
        (True, zero_rate_limit\<lparr>rl_window_start := 100, rl_count := 1\<rparr>)"
      by (simp add: demo_turn_def limiter_defs zero_rate_limit_def zero_client_def)
    show "line_chunks (tn_reads demo_turn) 8191 = ''/he<lp'' @ [NL]"
      by (simp add: demo_turn_def)
  qed (simp_all add: demo_turn_def unsafe_char_def)
  then show ?thesis by (simp add: demo_turn_def)
qed

text \<open>
  C10. A session that ends, however it ends and whatever was sent, leaves a well-formed server in which no
  other slot changed and its own slot is free and logged out: descriptor, TLS, cipher and store handles are gone, and
  every cell of the nickname, the token and the five arrays that the code wipes (session key, ChaCha key, public
  key, shared secret, session token) is zero.
\<close>

theorem session_leaves_clean_slot:
  assumes "secure_client_handler E env ts now buffer i w = Finished w'" "wf_server (w_srv w)" "i < MAX_CLIENTS"
    "signal_env_ok (sv_signal env)" "length (snd (sv_token_rand env)) = 32"
  shows "wf_server (w_srv w') \<and> (\<forall>j. j \<noteq> i \<longrightarrow> client w' j = client w j) \<and>
    c_fd (client w' i) < 0 \<and> c_ssl (client w' i) = None \<and> c_cipher (client w' i) = None \<and> c_store (client w' i) = None \<and>
    \<not> c_authorized (client w' i) \<and> c_nick (client w' i) = nuls 32 \<and> c_token (client w' i) = nuls 65 \<and>
    c_session_key (client w' i) = zeros 32 \<and> c_chacha_key (client w' i) = zeros 32 \<and>
    c_public_key (client w' i) = zeros 32 \<and> c_shared_secret (client w' i) = zeros 32 \<and> c_session_token (client w' i) = zeros 32"
proof -
  define ip where "ip = inet_ntop (sin_addr (c_addr (client w i)))"
  obtain ok w1 where start: "session_start E env i ip w = Some (ok, w1)"
    using assms(1) by (auto simp: secure_client_handler_def ip_def Let_def split: option.splits)
  note w1 = session_start_outcome [OF start assms(2-5)]
  obtain w2 where w2: "w' = session_end E now i ip w2" "only_slot i w1 w2" "wf_server (w_srv w2)"
    using assms(1) start w1 session_loop_outcome [OF _ w1(2) assms(3)]
    by (auto simp: secure_client_handler_def ip_def [symmetric] only_slot_same
        split: option.splits sum.splits bool.splits)
  note out = session_end_outcome [OF w2(3) assms(3), of E now ip]
  have "only_slot i w w'"
    using w1(1) w2(1,2) out(1) only_slot_trans by blast
  moreover have "client w' i = released (client w2 i)" "wf_client (client w2 i)"
    using w2(1) out(3) wf_server_client [OF w2(3) assms(3)] by auto
  ultimately show ?thesis
    using out(2) w2(1) by (auto simp: only_slot_other released_def wf_client_def MAX_NICK_LENGTH_def TOKEN_LENGTH_def)
qed

theorem session_leaves_clean_slot_witness:
  "\<exists>w'. secure_client_handler table_engine demo_session [demo_turn] 200 (nuls 8192) 0 demo_world = Finished w' \<and>
     c_fd (client w' 0) < 0 \<and> c_session_key (client w' 0) = zeros 32"
proof -
  have "\<not> s_running (w_srv demo_world)" by (simp add: server_init_def)
  then obtain w' where run:
    "secure_client_handler table_engine demo_session [demo_turn] 200 (nuls 8192) 0 demo_world = Finished w'"
    by (simp add: secure_client_handler_def session_start_def demo_session_def advanced_anti_debug_check_def
        init_client_signal_protocol_def sample_env_def derive_public_key_def Let_def session_turn_def)
  have "(0::nat) < MAX_CLIENTS" "wf_server (w_srv demo_world)" "signal_env_ok (sv_signal demo_session)"
    "length (snd (sv_token_rand demo_session)) = 32"
    by (simp_all add: MAX_CLIENTS_def demo_session_def signal_env_ok_def sample_env_def)
  with run show ?thesis
    using session_leaves_clean_slot [OF run] by blast
qed

text \<open>
  Releasing a slot closes what the slot holds, each handle once and in the order of the code, clears
  every pointer, marks the slot free and wipes the nickname, the token and all five key arrays; a
  second release does nothing.
\<close>

theorem cleanup_releases_slot:
  assumes "i < length (s_clients (w_srv w))" "w' = cleanup_client_resources i w"
  shows "c_fd (client w' i) < 0 \<and> c_ssl (client w' i) = None \<and> c_cipher (client w' i) = None \<and>
    c_store (client w' i) = None \<and> \<not> c_authorized (client w' i) \<and>
    list_all (\<lambda>c. c = NUL) (c_nick (client w' i)) \<and> list_all (\<lambda>c. c = NUL) (c_token (client w' i)) \<and>
    list_all (list_all (\<lambda>b. b = 0)) [c_session_key (client w' i), c_chacha_key (client w' i),
      c_public_key (client w' i), c_shared_secret (client w' i), c_session_token (client w' i)] \<and>
    w_trace w' = w_trace w @ release_events (client w i) \<and>
    cleanup_client_resources i w' = w'"
proof -
  have c: "client w' i = released (client w i)" using assms by simp
  have "release_events (released c) = []" "released (released c) = released c" for c
    by (simp_all add: release_events_def released_def)
  then have "cleanup_client_resources i w' = w'"
    using set_client_same [of i w'] unfolding cleanup_client_resources_def c by (simp only: emit_nil)
  then show ?thesis
    using c assms by (simp add: released_def list_all_iff)
qed

theorem cleanup_releases_slot_witness:
  "c_fd (client (cleanup_client_resources 0 demo_world) 0) < 0 \<and>
   w_trace (cleanup_client_resources 0 demo_world) = [Close_fd 0]"
proof -
  have "0 < length (s_clients (w_srv demo_world))"
    using wf_server_init by (simp add: wf_server_def MAX_CLIENTS_def)
  then show ?thesis
    using cleanup_releases_slot [of 0 demo_world "cleanup_client_resources 0 demo_world"]
    by (simp add: release_events_def zero_client_def)
qed

end
