(* ===== verification/Server_Lifecycle.thy ===== *)
theory Server_Lifecycle
  imports Client_Session
begin

text \<open>
  The server around the sessions, from \<^verbatim>\<open>src/src/server.c\<close>: accepting connections, the
  monitor thread, signals, start-up, the main loop and shutdown. The loops over the 1000 slots are
  recursions on the number of slots left.
\<close>

section \<open>Accepting a connection\<close>

record connection =
  cn_fd :: int
  cn_addr :: sockaddr_in
  cn_ssl :: nat
  cn_ssl_accept :: int
  cn_connect_now :: time_t
  cn_activity_now :: time_t
  cn_window_now :: time_t

fun free_slot :: "secure_client_t list \<Rightarrow> nat \<Rightarrow> nat option" where
  "free_slot [] i = None"
| "free_slot (c # cs) i = (if c_fd c < 0 then Some i else free_slot cs (Suc i))"

definition fresh_client :: "connection \<Rightarrow> secure_client_t" where
  "fresh_client k = zero_client\<lparr>c_fd := cn_fd k, c_ssl := Some (cn_ssl k), c_addr := cn_addr k,
     c_connect_time := cn_connect_now k, c_last_activity := cn_activity_now k, c_authorized := False,
     c_security_level := 1,
     c_rate_limit := (c_rate_limit zero_client)\<lparr>rl_window_start := cn_window_now k, rl_count := 0\<rparr>\<rparr>"

text \<open>
  The result also names the slot a thread was started for. \<^verbatim>\<open>SSL_new\<close> is taken to give an
  object: \<open>cn_ssl\<close> is its handle.
\<close>

definition handle_new_connection :: "connection \<Rightarrow> 'db world \<Rightarrow> nat option \<times> 'db world" where
  "handle_new_connection k w =
     (if cn_fd k < 0 then (None, w)
      else case free_slot (s_clients (w_srv w)) 0 of
        None \<Rightarrow> (None, emit [Close_fd (cn_fd k)] w)
      | Some i \<Rightarrow>
          if cn_ssl_accept k \<le> 0 then (None, emit [Ssl_free (cn_ssl k), Close_fd (cn_fd k)] w)
          else let w1 = emit [Thread_create i] (set_client i (fresh_client k) w)
               in (Some i, set_srv ((w_srv w1)\<lparr>s_total_connections := s_total_connections (w_srv w1) + 1\<rparr>) w1))"

section \<open>The monitor thread\<close>

fun timeout_loop :: "time_t \<Rightarrow> nat \<Rightarrow> nat \<Rightarrow> 'db world \<Rightarrow> 'db world" where
  "timeout_loop now 0 i w = w"
| "timeout_loop now (Suc n) i w =
     timeout_loop now n (Suc i)
       (if c_fd (client w i) \<ge> 0 \<and> now - c_last_activity (client w i) > CONNECTION_TIMEOUT
        then set_client i ((client w i)\<lparr>c_fd := -1\<rparr>) (emit [Close_fd (c_fd (client w i))] w)
        else w)"

definition check_client_timeouts :: "time_t \<Rightarrow> 'db world \<Rightarrow> 'db world" where
  "check_client_timeouts now w = timeout_loop now MAX_CLIENTS 0 w"

text \<open>
  One round of \<open>security_monitor_thread\<close>. The memory check and the report only print
  (\<open>high_memory\<close>, \<open>security_report\<close>: what they print).
\<close>

definition high_memory :: "int \<Rightarrow> bool" where
  "high_memory maxrss = (maxrss > 500 * 1024)"

definition security_report :: "time_t \<Rightarrow> ultra_server_state_t \<Rightarrow> int \<times> uint64 \<times> uint64" where
  "security_report now s = (now - s_server_start_time s, s_total_connections s, s_blocked_attacks s)"

definition security_monitor_tick :: "'db sqlite \<Rightarrow> time_t \<Rightarrow> time_t \<Rightarrow> 'db world \<Rightarrow> fault + 'db world" where
  "security_monitor_tick E rotate_now timeout_now w =
     (case check_database_health E (w_db w) of
        Inl e \<Rightarrow> Inl e
      | Inr (_, d) \<Rightarrow>
          Inr (check_client_timeouts timeout_now (set_db (rotate_audit_logs E rotate_now d) w)))"

section \<open>Signals and shutdown\<close>

definition signal_handler :: "'db world \<Rightarrow> 'db world" where
  "signal_handler w = set_srv ((w_srv w)\<lparr>s_running := False\<rparr>) w"

fun cleanup_loop :: "nat \<Rightarrow> nat \<Rightarrow> 'db world \<Rightarrow> 'db world" where
  "cleanup_loop 0 i w = w"
| "cleanup_loop (Suc n) i w =
     cleanup_loop n (Suc i) (if c_fd (client w i) \<ge> 0 then cleanup_client_resources i w else w)"

definition global_cleanup :: "'db world \<Rightarrow> 'db world" where
  "global_cleanup w =
     (let w1 = cleanup_loop MAX_CLIENTS 0 (set_srv ((w_srv w)\<lparr>s_running := False\<rparr>) w);
          s = w_srv w1;
          w2 = emit ((if s_honeypot_fd s \<ge> 0 then [Close_fd (s_honeypot_fd s)] else []) @
                     (if s_epoll_fd s \<ge> 0 then [Close_fd (s_epoll_fd s)] else []) @
                     (case s_ssl_ctx s of None \<Rightarrow> [] | Some h \<Rightarrow> [Ssl_ctx_free h]) @
                     (case s_db s of None \<Rightarrow> [] | Some h \<Rightarrow> [Db_close h]) @
                     (case s_global_ctx s of None \<Rightarrow> [] | Some h \<Rightarrow> [Signal_ctx_destroy h])) w1
      in set_srv (s\<lparr>s_master_key := wipe 0 (s_master_key s),
                   s_quantum_master_key := wipe 0 (s_quantum_master_key s)\<rparr>) w2)"

section \<open>Start-up\<close>

datatype tls_version = TLS1_3

record tls_settings =
  tls_min :: tls_version
  tls_max :: tls_version
  tls_ciphers :: "string list"
  tls_options :: "string list"

definition secure_tls :: tls_settings where
  "secure_tls = \<lparr>tls_min = TLS1_3, tls_max = TLS1_3,
     tls_ciphers = [''TLS_AES_256_GCM_SHA384'', ''TLS_CHACHA20_POLY1305_SHA256'', ''TLS_AES_128_GCM_SHA256''],
     tls_options = [''NO_COMPRESSION'', ''NO_RENEGOTIATION'', ''NO_SSLv2'', ''NO_SSLv3'', ''NO_TLSv1'',
       ''NO_TLSv1_1'', ''NO_TLSv1_2'', ''PRIORITIZE_CHACHA'', ''CIPHER_SERVER_PREFERENCE'']\<rparr>"

text \<open>\<open>None\<close>: \<^verbatim>\<open>exit(1)\<close>.\<close>

definition setup_ssl_context :: "nat option \<Rightarrow> 'db world \<Rightarrow> (tls_settings \<times> 'db world) option" where
  "setup_ssl_context ctx w =
     (case ctx of
        None \<Rightarrow> None
      | Some h \<Rightarrow> Some (secure_tls, set_srv ((w_srv w)\<lparr>s_ssl_ctx := Some h\<rparr>) w))"

record start_env =
  st_now :: time_t
  st_ld_preload :: "string option"
  st_master_rand :: rand_result
  st_quantum_rand :: rand_result
  st_db :: "nat \<times> bool"
  st_signal_ctx :: "nat option"
  st_signal_keys :: bool
  st_ssl_ctx :: "nat option"
  st_socket :: int
  st_bind :: int
  st_listen :: int
  st_epoll :: int
  st_epoll_ctl :: int

datatype 'db start_result = Start_exit int | Start_failed "'db world" | Listening int "'db world"

text \<open>Everything up to the main loop: \<open>Listening\<close> carries the listening socket.\<close>

definition server_setup :: "'db sqlite \<Rightarrow> start_env \<Rightarrow> 'db world \<Rightarrow> 'db start_result" where
  "server_setup E env w =
     (let w1 = set_srv ((w_srv w)\<lparr>s_server_start_time := st_now env, s_running := True\<rparr>) w in
      if \<not> advanced_anti_debug_check (st_ld_preload env) then Start_exit 1
      else let (ok, w2) = init_secure_database E (st_master_rand env) (st_quantum_rand env) (st_db env) w1 in
      if \<not> ok then Start_failed w2
      else let (ok', s3, _) = init_enhanced_signal_protocol (st_signal_ctx env) (st_signal_keys env) (w_srv w2);
               w3 = set_srv s3 w2 in
      if \<not> ok' then Start_failed w3
      else case setup_ssl_context (st_ssl_ctx env) w3 of
        None \<Rightarrow> Start_exit 1
      | Some (_, w4) \<Rightarrow>
          if st_socket env < 0 then Start_failed w4
          else if st_bind env < 0 then Start_failed (emit [Close_fd (st_socket env)] w4)
          else if st_listen env < 0 then Start_failed (emit [Close_fd (st_socket env)] w4)
          else let w5 = set_srv ((init_p2p_network (w_srv w4))\<lparr>s_epoll_fd := st_epoll env\<rparr>) w4 in
          if st_epoll env < 0 then Start_failed (emit [Close_fd (st_socket env)] w5)
          else if st_epoll_ctl env < 0
          then Start_failed (emit [Close_fd (st_socket env), Close_fd (st_epoll env)] w5)
          else Listening (st_socket env) w5)"

text \<open>
  One round of the main loop: what the other threads did since the last round, then the events
  \<^verbatim>\<open>epoll_wait\<close> reports (a negative count is skipped).
\<close>

record 'db round =
  rd_others :: "'db world \<Rightarrow> 'db world"
  rd_failed :: bool
  rd_events :: "(int \<times> connection) list"

fun accept_events :: "int \<Rightarrow> (int \<times> connection) list \<Rightarrow> 'db world \<Rightarrow> 'db world" where
  "accept_events server_fd [] w = w"
| "accept_events server_fd ((fd, k) # es) w =
     accept_events server_fd es (if fd = server_fd then snd (handle_new_connection k w) else w)"

fun main_loop :: "int \<Rightarrow> 'db round list \<Rightarrow> 'db world \<Rightarrow> 'db world option" where
  "main_loop server_fd [] w = (if s_running (w_srv w) then None else Some w)"
| "main_loop server_fd (r # rs) w =
     (if \<not> s_running (w_srv w) then Some w
      else let w1 = rd_others r w in
           main_loop server_fd rs (if rd_failed r then w1 else accept_events server_fd (rd_events r) w1))"

definition server_shutdown :: "int \<Rightarrow> 'db world \<Rightarrow> 'db world" where
  "server_shutdown server_fd w =
     global_cleanup (emit [Close_fd server_fd, Close_fd (s_epoll_fd (w_srv w))] w)"

text \<open>Its return value and the world it leaves.\<close>

datatype 'db server_result = Server_exit int | Server_returns int "'db world" | Server_running

definition start_ultra_secure_server ::
  "'db sqlite \<Rightarrow> start_env \<Rightarrow> 'db round list \<Rightarrow> 'db world \<Rightarrow> 'db server_result" where
  "start_ultra_secure_server E env rounds w =
     (case server_setup E env w of
        Start_exit n \<Rightarrow> Server_exit n
      | Start_failed w1 \<Rightarrow> Server_returns 1 w1
      | Listening server_fd w1 \<Rightarrow>
          (case main_loop server_fd rounds w1 of
             None \<Rightarrow> Server_running
           | Some w2 \<Rightarrow> Server_returns 0 (server_shutdown server_fd w2)))"

text \<open>
  \<open>main\<close>: the handler is installed for SIGINT, SIGTERM and SIGQUIT, then the server is started. The exit status, \<open>None\<close> while
  the process runs.
\<close>

definition server_main :: "'db sqlite \<Rightarrow> start_env \<Rightarrow> 'db round list \<Rightarrow> 'db world \<Rightarrow> int option" where
  "server_main E env rounds w =
     (case start_ultra_secure_server E env rounds w of
        Server_exit n \<Rightarrow> Some n
      | Server_returns n w' \<Rightarrow> Some n
      | Server_running \<Rightarrow> None)"

text \<open>A round in which the signal handler runs, among calls of other threads that do not set the flag again.\<close>

definition signalled :: "'db round \<Rightarrow> bool" where
  "signalled r = (\<exists>before after :: 'db world \<Rightarrow> 'db world. rd_others r = after \<circ> signal_handler \<circ> before \<and>
     (\<forall>v. \<not> s_running (w_srv v) \<longrightarrow> \<not> s_running (w_srv (after v))))"

section \<open>What a pass does to one slot\<close>

definition stale :: "time_t \<Rightarrow> secure_client_t \<Rightarrow> bool" where
  "stale now c = (c_fd c \<ge> 0 \<and> now - c_last_activity c > CONNECTION_TIMEOUT)"

definition expire :: "time_t \<Rightarrow> secure_client_t \<Rightarrow> secure_client_t" where
  "expire now c = (if stale now c then c\<lparr>c_fd := -1\<rparr> else c)"

definition shut :: "secure_client_t \<Rightarrow> secure_client_t" where
  "shut c = (if c_fd c \<ge> 0 then released c else c)"

text \<open>A connection and a start-up to evaluate.\<close>

definition demo_connection :: connection where
  "demo_connection = \<lparr>cn_fd = 9, cn_addr = zero_addr, cn_ssl = 4, cn_ssl_accept = 1, cn_connect_now = 1000,
     cn_activity_now = 1000, cn_window_now = 1000\<rparr>"

definition demo_start :: start_env where
  "demo_start = \<lparr>st_now = 1000, st_ld_preload = None, st_master_rand = (1, zeros 32), st_quantum_rand = (1, zeros 64),
     st_db = (1, True), st_signal_ctx = Some 2, st_signal_keys = True, st_ssl_ctx = Some 3, st_socket = 5, st_bind = 0,
     st_listen = 0, st_epoll = 6, st_epoll_ctl = 0\<rparr>"

section \<open>Passes over the slots\<close>

locale slot_pass =
  fixes pass :: "nat \<Rightarrow> nat \<Rightarrow> 'db world \<Rightarrow> 'db world"
    and upd :: "secure_client_t \<Rightarrow> secure_client_t"
    and out :: "secure_client_t \<Rightarrow> event list"
  assumes pass_0: "pass 0 i w = w"
    and pass_Suc: "pass (Suc n) i w = pass n (Suc i) (set_client i (upd (client w i)) (emit (out (client w i)) w))"
begin

lemma pass_from:
  "i + n \<le> length (s_clients (w_srv w)) \<Longrightarrow>
   pass n i w = w\<lparr>w_srv := (w_srv w)\<lparr>s_clients := take i (s_clients (w_srv w)) @
       map upd (take n (drop i (s_clients (w_srv w)))) @ drop (i + n) (s_clients (w_srv w))\<rparr>,
     w_trace := w_trace w @ concat (map out (take n (drop i (s_clients (w_srv w)))))\<rparr>"
proof (induction n arbitrary: i w)
  case 0
  then show ?case by (simp add: pass_0)
next
  case (Suc n)
  let ?cs = "s_clients (w_srv w)"
  have hd: "drop i ?cs = ?cs ! i # drop (Suc i) ?cs"
    using Suc.prems by (simp add: Cons_nth_drop_Suc)
  have tk: "take (Suc i) (?cs[i := c]) = take i ?cs @ [c]" for c
    using Suc.prems by (simp add: take_Suc_conv_app_nth)
  show ?case
    using Suc.prems Suc.IH [of "Suc i" "set_client i (upd (client w i)) (emit (out (client w i)) w)"]
    unfolding pass_Suc hd
    by (simp add: tk) (simp add: set_client_def emit_def)
qed

lemma pass_all:
  "length (s_clients (w_srv w)) = n \<Longrightarrow>
   pass n 0 w = w\<lparr>w_srv := (w_srv w)\<lparr>s_clients := map upd (s_clients (w_srv w))\<rparr>,
     w_trace := w_trace w @ concat (map out (s_clients (w_srv w)))\<rparr>"
  using pass_from [of 0 n w] by simp

end

interpretation timeouts: slot_pass "timeout_loop now" "expire now"
  "\<lambda>c. if stale now c then [Close_fd (c_fd c)] else []" for now
proof unfold_locales
  fix n i and w :: "'a world"
  show "timeout_loop now (Suc n) i w = timeout_loop now n (Suc i) (set_client i (expire now (client w i))
      (emit (if stale now (client w i) then [Close_fd (c_fd (client w i))] else []) w))"
    by (cases "stale now (client w i)") (auto simp: stale_def expire_def)
qed simp

interpretation shutdown: slot_pass cleanup_loop shut "\<lambda>c. if c_fd c \<ge> 0 then release_events c else []"
proof unfold_locales
  fix n i and w :: "'a world"
  show "cleanup_loop (Suc n) i w = cleanup_loop n (Suc i) (set_client i (shut (client w i))
      (emit (if c_fd (client w i) \<ge> 0 then release_events (client w i) else []) w))"
    by (cases "c_fd (client w i) \<ge> 0") (auto simp: shut_def cleanup_client_resources_def)
qed simp

lemma timeouts_eq:
  "length (s_clients (w_srv w)) = MAX_CLIENTS \<Longrightarrow>
   check_client_timeouts now w = w\<lparr>w_srv := (w_srv w)\<lparr>s_clients := map (expire now) (s_clients (w_srv w))\<rparr>,
     w_trace := w_trace w @ map (\<lambda>c. Close_fd (c_fd c)) (filter (stale now) (s_clients (w_srv w)))\<rparr>"
proof -
  assume "length (s_clients (w_srv w)) = MAX_CLIENTS"
  moreover have "concat (map (\<lambda>c. if stale now c then [Close_fd (c_fd c)] else []) cs) =
      map (\<lambda>c. Close_fd (c_fd c)) (filter (stale now) cs)" for cs
    by (induction cs) auto
  ultimately show ?thesis
    by (simp add: check_client_timeouts_def timeouts.pass_all)
qed

lemma wf_expire: "wf_client c \<Longrightarrow> wf_client (expire now c)"
  by (simp add: expire_def wf_client_def)

lemma wf_shut: "wf_client c \<Longrightarrow> wf_client (shut c)"
  by (simp add: shut_def wf_released)

lemma timeouts_wf: "wf_server (w_srv w) \<Longrightarrow> wf_server (w_srv (check_client_timeouts now w))"
  by (auto simp: wf_server_def timeouts_eq list_all_iff wf_expire)

section \<open>Accepting\<close>

lemma free_slot_Some:
  "free_slot cs i = Some k \<Longrightarrow> \<exists>j < length cs. k = i + j \<and> c_fd (cs ! j) < 0 \<and> list_all (\<lambda>c. c_fd c \<ge> 0) (take j cs)"
proof (induction cs arbitrary: i)
  case (Cons c cs)
  show ?case
  proof (cases "c_fd c < 0")
    case False
    with Cons obtain j where "j < length cs" "k = Suc i + j" "c_fd (cs ! j) < 0" "list_all (\<lambda>c. c_fd c \<ge> 0) (take j cs)"
      by fastforce
    with False show ?thesis by (intro exI [of _ "Suc j"]) auto
  qed (use Cons in auto)
qed simp

lemma free_slot_None: "free_slot cs i = None \<longleftrightarrow> list_all (\<lambda>c. c_fd c \<ge> 0) cs"
  by (induction cs arbitrary: i) auto

lemma wf_fresh_client: "wf_client (fresh_client k)"
  using wf_client_zero by (simp add: fresh_client_def wf_client_def)

lemma connection_outcome:
  assumes "handle_new_connection k w = (r, w')" "wf_server (w_srv w)"
  shows "wf_server (w_srv w') \<and> w_db w' = w_db w \<and>
    (case r of None \<Rightarrow> w_srv w' = w_srv w
     | Some i \<Rightarrow> i < MAX_CLIENTS \<and> c_fd (client w i) < 0 \<and> client w' i = fresh_client k \<and> only_slot i w w')"
proof (cases "cn_fd k < 0 \<or> free_slot (s_clients (w_srv w)) 0 = None \<or> cn_ssl_accept k \<le> 0")
  case True
  then show ?thesis using assms by (auto simp: handle_new_connection_def split: option.splits if_splits)
next
  case False
  then obtain i where i: "free_slot (s_clients (w_srv w)) 0 = Some i" by auto
  from free_slot_Some [OF i] have len: "i < length (s_clients (w_srv w))" "c_fd (client w i) < 0" by auto
  have "wf_server (w_srv (set_client i (fresh_client k) w))"
    using assms(2) wf_fresh_client by (rule wf_server_set_client)
  moreover have "r = Some i" "w' = set_srv ((w_srv (set_client i (fresh_client k) w))
      \<lparr>s_total_connections := s_total_connections (w_srv w) + 1\<rparr>)
      (emit [Thread_create i] (set_client i (fresh_client k) w))"
    using False i assms(1) by (auto simp: handle_new_connection_def Let_def)
  ultimately show ?thesis
    using len assms(2) by (auto simp: wf_server_def only_slot_def)
qed

section \<open>Start-up, main loop and shutdown\<close>

lemma setup_frame:
  assumes "server_setup E env w = Listening fd w'"
  shows "s_clients (w_srv w') = s_clients (w_srv w)" "s_running (w_srv w')" "w_trace w' = w_trace w"
    "s_epoll_fd (w_srv w') = st_epoll env" "0 \<le> st_epoll env" "s_honeypot_fd (w_srv w') = s_honeypot_fd (w_srv w)"
    "s_db (w_srv w') = Some (fst (st_db env))" "s_ssl_ctx (w_srv w') = st_ssl_ctx env" "fd = st_socket env"
    "wf_server (w_srv w) \<Longrightarrow> length (snd (st_master_rand env)) = 32 \<Longrightarrow> length (snd (st_quantum_rand env)) = 64 \<Longrightarrow>
      wf_server (w_srv w')"
proof -
  let ?w1 = "set_srv ((w_srv w)\<lparr>s_server_start_time := st_now env, s_running := True\<rparr>) w"
  obtain ok w2 where db: "init_secure_database E (st_master_rand env) (st_quantum_rand env) (st_db env) ?w1 = (ok, w2)"
    by fastforce
  obtain ok' s3 ev where sig: "init_enhanced_signal_protocol (st_signal_ctx env) (st_signal_keys env) (w_srv w2) = (ok', s3, ev)"
    by (metis prod_cases3)
  have ok: "ok" "ok'" and ssl: "st_ssl_ctx env \<noteq> None" and env: "0 \<le> st_epoll env" "fd = st_socket env"
    and w': "w' = set_srv ((init_p2p_network (s3\<lparr>s_ssl_ctx := st_ssl_ctx env\<rparr>))\<lparr>s_epoll_fd := st_epoll env\<rparr>) w2"
    using assms db sig
    by (auto simp: server_setup_def Let_def setup_ssl_context_def set_srv_def split: if_splits option.splits)
  have s3: "s3 = (w_srv w2)\<lparr>s_global_ctx := s_global_ctx s3\<rparr>"
    using sig by (auto simp: init_enhanced_signal_protocol_def Let_def split: option.splits if_splits)
  have w2: "w_srv w2 = (w_srv ?w1)\<lparr>s_master_key := take MASTER_KEY_LENGTH (snd (st_master_rand env)),
      s_quantum_master_key := take QUANTUM_KEY_LENGTH (snd (st_quantum_rand env)), s_db := Some (fst (st_db env))\<rparr>"
    "w_trace w2 = w_trace w"
    using db ok(1) by (auto simp: init_secure_database_def Let_def split: if_splits prod.splits)
  show "s_clients (w_srv w') = s_clients (w_srv w)" "s_running (w_srv w')" "w_trace w' = w_trace w"
    "s_epoll_fd (w_srv w') = st_epoll env" "s_honeypot_fd (w_srv w') = s_honeypot_fd (w_srv w)"
    "s_db (w_srv w') = Some (fst (st_db env))" "s_ssl_ctx (w_srv w') = st_ssl_ctx env"
    by (subst w', subst s3, simp add: w2 init_p2p_network_def)+
  show "0 \<le> st_epoll env" "fd = st_socket env" by (fact env)+
  show "wf_server (w_srv w')" if "wf_server (w_srv w)" "length (snd (st_master_rand env)) = 32"
    "length (snd (st_quantum_rand env)) = 64"
    using that by (subst w', subst s3) (simp add: w2 init_p2p_network_def wf_server_def wf_network_def
        MASTER_KEY_LENGTH_def QUANTUM_KEY_LENGTH_def)
qed

lemma accept_events_running [simp]: "s_running (w_srv (accept_events fd es w)) = s_running (w_srv w)"
proof (induction fd es w rule: accept_events.induct)
  case (2 server_fd fd k es w)
  have "s_running (w_srv (snd (handle_new_connection k w))) = s_running (w_srv w)"
    by (auto simp: handle_new_connection_def Let_def split: option.splits)
  with 2 show ?case by simp
qed simp

lemma signalled_stops: "signalled r \<Longrightarrow> \<not> s_running (w_srv (rd_others r w))"
  by (auto simp: signalled_def signal_handler_def)

lemma main_loop_stops: "list_ex signalled rs \<Longrightarrow> \<exists>w'. main_loop fd rs w = Some w'"
proof (induction rs arbitrary: w)
  case (Cons r rs)
  show ?case
  proof (cases "signalled r \<and> s_running (w_srv w)")
    case True
    let ?w = "if rd_failed r then rd_others r w else accept_events fd (rd_events r) (rd_others r w)"
    have "\<not> s_running (w_srv ?w)" using True signalled_stops [of r w] by simp
    then have "main_loop fd rs ?w = Some ?w" by (cases rs) simp_all
    with True show ?thesis by (auto simp: Let_def)
  next
    case False
    with Cons show ?thesis by (auto simp: Let_def)
  qed
qed simp

lemma setup_overwrites_flag: "server_setup E env (signal_handler w) = server_setup E env w"
  proof -
  have "set_srv ((w_srv (signal_handler w))\<lparr>s_server_start_time := t, s_running := True\<rparr>) (signal_handler w) =
      set_srv ((w_srv w)\<lparr>s_server_start_time := t, s_running := True\<rparr>) w" for t
    by (simp add: signal_handler_def set_srv_def)
  then show ?thesis by (simp add: server_setup_def)
qed

lemma global_cleanup_clients:
  assumes "length (s_clients (w_srv w)) = MAX_CLIENTS"
  shows "s_clients (w_srv (global_cleanup w)) = map shut (s_clients (w_srv w))"
    "w_trace (global_cleanup w) = w_trace w @
       concat (map (\<lambda>c. if c_fd c \<ge> 0 then release_events c else []) (s_clients (w_srv w))) @
       (if s_honeypot_fd (w_srv w) \<ge> 0 then [Close_fd (s_honeypot_fd (w_srv w))] else []) @
       (if s_epoll_fd (w_srv w) \<ge> 0 then [Close_fd (s_epoll_fd (w_srv w))] else []) @
       (case s_ssl_ctx (w_srv w) of None \<Rightarrow> [] | Some h \<Rightarrow> [Ssl_ctx_free h]) @
       (case s_db (w_srv w) of None \<Rightarrow> [] | Some h \<Rightarrow> [Db_close h]) @
       (case s_global_ctx (w_srv w) of None \<Rightarrow> [] | Some h \<Rightarrow> [Signal_ctx_destroy h])"
    "\<not> s_running (w_srv (global_cleanup w))"
    "s_master_key (w_srv (global_cleanup w)) = zeros (length (s_master_key (w_srv w)))"
    "s_quantum_master_key (w_srv (global_cleanup w)) = zeros (length (s_quantum_master_key (w_srv w)))"
  using assms by (simp_all add: global_cleanup_def Let_def shutdown.pass_all)

lemma table_exec [simp]: "exec_tables table_engine qs d = (True, d)" "exec_settings table_engine qs d = d"
  by (induction qs) simp_all

lemma demo_setup: obtains w1 where "server_setup table_engine demo_start demo_world = Listening 5 w1"
  by (simp add: server_setup_def demo_start_def advanced_anti_debug_check_def init_secure_database_def Let_def
      init_enhanced_signal_protocol_def setup_ssl_context_def)

section \<open>Properties\<close>

text \<open>
  C16. A new connection gets the first free slot, and only that: with every slot in use it is closed, when
  the TLS handshake fails its SSL object and socket are released and nothing else changes, and
  otherwise exactly one slot, which was free, is reset to a fresh client that is not logged in, and
  the counter of connections goes up by one.
\<close>

theorem connection_takes_free_slot:
  assumes "wf_server (w_srv w)" "0 \<le> cn_fd k" "handle_new_connection k w = (r, w')"
  shows "if list_all (\<lambda>c. 0 \<le> c_fd c) (s_clients (w_srv w))
    then r = None \<and> w_srv w' = w_srv w \<and> w_trace w' = w_trace w @ [Close_fd (cn_fd k)]
    else if cn_ssl_accept k \<le> 0
    then r = None \<and> w_srv w' = w_srv w \<and> w_trace w' = w_trace w @ [Ssl_free (cn_ssl k), Close_fd (cn_fd k)]
    else \<exists>i < MAX_CLIENTS. r = Some i \<and> c_fd (client w i) < 0 \<and>
      list_all (\<lambda>c. 0 \<le> c_fd c) (take i (s_clients (w_srv w))) \<and>
      client w' i = fresh_client k \<and> \<not> c_authorized (client w' i) \<and>
      (\<forall>j. j \<noteq> i \<longrightarrow> client w' j = client w j) \<and> wf_server (w_srv w') \<and>
      s_total_connections (w_srv w') = s_total_connections (w_srv w) + 1"
proof (cases "list_all (\<lambda>c. 0 \<le> c_fd c) (s_clients (w_srv w)) \<or> cn_ssl_accept k \<le> 0")
  case True
  then show ?thesis
    using assms(2,3) free_slot_None [of "s_clients (w_srv w)" 0]
    by (auto simp: handle_new_connection_def split: option.splits if_splits)
next
  case False
  then obtain i where i: "free_slot (s_clients (w_srv w)) 0 = Some i"
    using free_slot_None [of "s_clients (w_srv w)" 0] by auto
  from free_slot_Some [OF i] have slot: "i < length (s_clients (w_srv w))" "c_fd (client w i) < 0"
    "list_all (\<lambda>c. 0 \<le> c_fd c) (take i (s_clients (w_srv w)))" by auto
  have r: "r = Some i" using assms(2,3) False i by (auto simp: handle_new_connection_def Let_def)
  have "s_total_connections (w_srv w') = s_total_connections (w_srv w) + 1"
    using assms(2,3) False i by (auto simp: handle_new_connection_def Let_def)
  moreover have "\<not> c_authorized (fresh_client k)" by (simp add: fresh_client_def)
  ultimately show ?thesis
    using connection_outcome [OF assms(3,1)] slot r False only_slot_other [of i w w'] by auto
qed

theorem connection_takes_free_slot_witness:
  "\<exists>i < MAX_CLIENTS. fst (handle_new_connection demo_connection (set_client 3 (zero_client\<lparr>c_fd := -1\<rparr>) demo_world)) = Some i"
proof -
  let ?w = "set_client 3 (zero_client\<lparr>c_fd := -1\<rparr>) demo_world"
  obtain r w' where h: "handle_new_connection demo_connection ?w = (r, w')" by fastforce
  have wf: "wf_server (w_srv ?w)"
    by (rule wf_server_set_client) (use wf_client_zero in \<open>simp_all add: wf_client_def\<close>)
  have "3 < length (s_clients (w_srv demo_world))"
    using wf_server_init by (simp add: wf_server_def MAX_CLIENTS_def)
  then have "zero_client\<lparr>c_fd := -1\<rparr> \<in> set (s_clients (w_srv ?w))"
    by (simp add: set_update_memI)
  then have "\<not> list_all (\<lambda>c. 0 \<le> c_fd c) (s_clients (w_srv ?w))"
    by (force simp: list_all_iff)
  then show ?thesis
    using connection_takes_free_slot [OF wf _ h] h by (auto simp: demo_connection_def)
qed

text \<open>
  C33. The server starts with every slot at descriptor 0 instead of -1. Right after start-up it therefore
  closes every connection it accepts, and the first round of the monitor closes descriptor 0 a
  thousand times before slots become free.
\<close>

theorem no_slot_before_first_timeout:
  assumes "w_srv w = server_init" "server_setup E env w = Listening fd w1" "0 \<le> cn_fd k" "300 < now"
  shows "handle_new_connection k w1 = (None, emit [Close_fd (cn_fd k)] w1) \<and>
    w_trace (check_client_timeouts now w1) = w_trace w1 @ replicate 1000 (Close_fd 0) \<and>
    list_all (\<lambda>c. c_fd c < 0) (s_clients (w_srv (check_client_timeouts now w1)))"
proof -
  have cs: "s_clients (w_srv w1) = replicate 1000 zero_client"
    using setup_frame(1) [OF assms(2)] assms(1) by (simp add: server_init_def MAX_CLIENTS_def)
  have "free_slot (s_clients (w_srv w1)) 0 = None"
    unfolding free_slot_None cs by (simp add: list_all_iff)
  moreover have "stale now zero_client"
    using assms(4) by (simp add: stale_def zero_client_def CONNECTION_TIMEOUT_def)
  moreover have "length (s_clients (w_srv w1)) = MAX_CLIENTS" by (simp add: cs MAX_CLIENTS_def)
  ultimately show ?thesis
    using assms(3) by (simp add: handle_new_connection_def timeouts_eq cs expire_def list_all_iff filter_replicate)
qed

theorem no_slot_before_first_timeout_witness:
  "\<exists>w1. server_setup table_engine demo_start demo_world = Listening 5 w1 \<and>
     handle_new_connection demo_connection w1 = (None, emit [Close_fd 9] w1) \<and>
     w_trace (check_client_timeouts 2000 w1) = w_trace w1 @ replicate 1000 (Close_fd 0)"
proof -
  obtain w1 where s: "server_setup table_engine demo_start demo_world = Listening 5 w1" by (rule demo_setup)
  show ?thesis
    using no_slot_before_first_timeout [OF _ s, of demo_connection 2000] s
    by (simp add: demo_connection_def)
qed

text \<open>
  C18. Shutdown leaves no open client, clears the running flag and wipes both master keys; every open
  slot was released by \<open>cleanup_client_resources\<close>.
\<close>

theorem shutdown_releases_everything:
  assumes "wf_server (w_srv w)"
  shows "s_clients (w_srv (server_shutdown fd w)) = map shut (s_clients (w_srv w)) \<and>
    list_all (\<lambda>c. c_fd c < 0) (s_clients (w_srv (server_shutdown fd w))) \<and>
    \<not> s_running (w_srv (server_shutdown fd w)) \<and>
    s_master_key (w_srv (server_shutdown fd w)) = zeros 32 \<and>
    s_quantum_master_key (w_srv (server_shutdown fd w)) = zeros 64"
proof -
  let ?w = "emit [Close_fd fd, Close_fd (s_epoll_fd (w_srv w))] w"
  have "length (s_clients (w_srv ?w)) = MAX_CLIENTS" using assms by (simp add: wf_server_def)
  from global_cleanup_clients [OF this]
  have g: "s_clients (w_srv (server_shutdown fd w)) = map shut (s_clients (w_srv w))"
    "\<not> s_running (w_srv (server_shutdown fd w))"
    "s_master_key (w_srv (server_shutdown fd w)) = zeros (length (s_master_key (w_srv w)))"
    "s_quantum_master_key (w_srv (server_shutdown fd w)) = zeros (length (s_quantum_master_key (w_srv w)))"
    by (simp_all add: server_shutdown_def)
  moreover have "list_all (\<lambda>c. c_fd c < 0) (map shut cs)" for cs
    by (induction cs) (simp_all add: shut_def released_def)
  ultimately show ?thesis
    using assms by (simp add: wf_server_def MASTER_KEY_LENGTH_def QUANTUM_KEY_LENGTH_def)
qed

theorem shutdown_releases_everything_witness:
  "s_master_key (w_srv (server_shutdown 5 demo_world)) = zeros 32 \<and>
   list_all (\<lambda>c. c_fd c < 0) (s_clients (w_srv (server_shutdown 5 demo_world)))"
proof -
  have "wf_server (w_srv demo_world)" by simp
  from shutdown_releases_everything [OF this, of 5] show ?thesis by blast
qed

text \<open>
  Shutdown closes the epoll descriptor twice: once in \<open>start_ultra_secure_server\<close> and again in
  \<open>global_cleanup\<close>, which tests a field that was not reset.
\<close>

theorem shutdown_closes_epoll_twice:
  assumes "wf_server (w_srv w)" "0 \<le> s_epoll_fd (w_srv w)"
  shows "2 \<le> count_list (drop (length (w_trace w)) (w_trace (server_shutdown fd w))) (Close_fd (s_epoll_fd (w_srv w)))"
  using assms global_cleanup_clients(2) [of "emit [Close_fd fd, Close_fd (s_epoll_fd (w_srv w))] w"]
  by (simp add: server_shutdown_def wf_server_def)

theorem shutdown_closes_epoll_twice_witness:
  "2 \<le> count_list (drop (length (w_trace demo_world)) (w_trace (server_shutdown 5 demo_world))) (Close_fd (s_epoll_fd server_init))"
proof -
  have "s_epoll_fd server_init = 0" by (simp add: server_init_def)
  then show ?thesis using shutdown_closes_epoll_twice [of demo_world 5] by simp
qed

text \<open>
  C19. A signal ends the server: once it listens, if the handler runs in some round of the main loop, however that
  round goes on, the loop ends, \<open>start_ultra_secure_server\<close> returns 0 and the process ends with that
  status. A signal before the server has set its running flag is without effect.
\<close>

theorem signal_stops_server:
  assumes "server_setup E env w = Listening fd w1"
  shows "(list_ex signalled rounds \<longrightarrow> (\<exists>w'. start_ultra_secure_server E env rounds w = Server_returns 0 w') \<and>
      server_main E env rounds w = Some 0) \<and>
    server_main E env rounds (signal_handler w) = server_main E env rounds w"
  using main_loop_stops [of rounds fd w1] assms
  by (auto simp: start_ultra_secure_server_def server_main_def setup_overwrites_flag)

theorem signal_stops_server_witness:
  "server_main table_engine demo_start
     [\<lparr>rd_others = id, rd_failed = True, rd_events = []\<rparr>, \<lparr>rd_others = signal_handler, rd_failed = True, rd_events = []\<rparr>]
     demo_world = Some 0"
proof -
  obtain w1 where s: "server_setup table_engine demo_start demo_world = Listening 5 w1" by (rule demo_setup)
  have "signalled (\<lparr>rd_others = signal_handler, rd_failed = True, rd_events = []\<rparr> :: tables round)"
    unfolding signalled_def by (intro exI [of _ id]) simp
  then have "list_ex signalled [\<lparr>rd_others = id, rd_failed = True, rd_events = []\<rparr>,
      \<lparr>rd_others = signal_handler, rd_failed = True, rd_events = []\<rparr> :: tables round]" by simp
  then show ?thesis using signal_stops_server [OF s] by blast
qed

end
