(* ===== verification/Server_System.thy ===== *)
theory Server_System
  imports Server_Lifecycle
begin

text \<open>
  The running server of \<^verbatim>\<open>src/src/server.c\<close> as a step relation: the main thread accepts
  connections, one handler thread per accepted connection serves its slot, the monitor thread runs
  its rounds and a signal may arrive at any time. The sources never lock \<^verbatim>\<open>server.mutex\<close>, so
  the steps of the threads interleave freely; a step is one call of the functions below, so the
  interleavings inside one such call are not distinguished.
\<close>

section \<open>States and steps\<close>

text \<open>A handler thread: its slot, and once it serves, its copy of the address and its buffer.\<close>

datatype thread = Starting nat | Serving nat string "char list"

primrec slot_of :: "thread \<Rightarrow> nat" where
  "slot_of (Starting i) = i"
| "slot_of (Serving i ip b) = i"

type_synonym 'db system = "'db world \<times> thread list"

definition client_ip :: "'db world \<Rightarrow> nat \<Rightarrow> string" where
  "client_ip w i = inet_ntop (sin_addr (c_addr (client w i)))"

inductive server_step :: "'db sqlite \<Rightarrow> 'db system \<Rightarrow> 'db system \<Rightarrow> bool" for E where
  refuse: "s_running (w_srv w) \<Longrightarrow> handle_new_connection k w = (None, w') \<Longrightarrow>
    server_step E (w, ts) (w', ts)"
| accept: "s_running (w_srv w) \<Longrightarrow> handle_new_connection k w = (Some i, w') \<Longrightarrow>
    server_step E (w, ts) (w', ts @ [Starting i])"
| start: "signal_env_ok (sv_signal env) \<Longrightarrow> length (snd (sv_token_rand env)) = 32 \<Longrightarrow>
    ip = client_ip w i \<Longrightarrow>
    session_start E env i ip w = Some (True, w') \<Longrightarrow> length buffer = BUFFER_SIZE \<Longrightarrow>
    server_step E (w, ts @ Starting i # us) (w', ts @ Serving i ip buffer # us)"
| start_failed: "signal_env_ok (sv_signal env) \<Longrightarrow> length (snd (sv_token_rand env)) = 32 \<Longrightarrow>
    ip = client_ip w i \<Longrightarrow> session_start E env i ip w = Some (False, w') \<Longrightarrow>
    server_step E (w, ts @ Starting i # us) (session_end E now i ip w', ts @ us)"
| turn: "session_turn E i ip t buffer w = Some (Inr (Continue, buffer', w')) \<Longrightarrow>
    server_step E (w, ts @ Serving i ip buffer # us) (w', ts @ Serving i ip buffer' # us)"
| stop: "session_turn E i ip t buffer w = Some (Inr (Stop, buffer', w')) \<Longrightarrow>
    server_step E (w, ts @ Serving i ip buffer # us) (session_end E now i ip w', ts @ us)"
| monitor: "s_running (w_srv w) \<Longrightarrow> security_monitor_tick E now1 now2 w = Inr w' \<Longrightarrow>
    server_step E (w, ts) (w', ts)"
| signal: "server_step E (w, ts) (signal_handler w, ts)"

abbreviation server_steps :: "'db sqlite \<Rightarrow> 'db system \<Rightarrow> 'db system \<Rightarrow> bool" where
  "server_steps E \<equiv> (server_step E)\<^sup>*\<^sup>*"

text \<open>What holds in every reachable state.\<close>

definition system_ok :: "('db \<Rightarrow> user_row list) \<Rightarrow> ('db \<Rightarrow> bool) \<Rightarrow> 'db system \<Rightarrow> bool" where
  "system_ok users ready st =
     (wf_server (w_srv (fst st)) \<and> list_all (\<lambda>t. slot_of t < MAX_CLIENTS) (snd st) \<and>
      ready (w_db (fst st)) \<and> accounts_ok (users (w_db (fst st))))"

text \<open>Every handler thread has a slot of its own, and the slot is in use.\<close>

definition exclusive :: "'db system \<Rightarrow> bool" where
  "exclusive st = (distinct (map slot_of (snd st)) \<and> list_all (\<lambda>t. c_fd (client (fst st) (slot_of t)) \<ge> 0) (snd st))"

text \<open>
  A round of the monitor that finds a served client timed out; and the runs of the server without such a round.
\<close>

definition times_out :: "'db sqlite \<Rightarrow> 'db system \<Rightarrow> 'db system \<Rightarrow> bool" where
  "times_out E st st' = (\<exists>now1 now2. security_monitor_tick E now1 now2 (fst st) = Inr (fst st') \<and> snd st' = snd st \<and>
     list_ex (\<lambda>t. stale now2 (client (fst st) (slot_of t))) (snd st))"

abbreviation timely_steps :: "'db sqlite \<Rightarrow> 'db system \<Rightarrow> 'db system \<Rightarrow> bool" where
  "timely_steps E \<equiv> (\<lambda>st st'. server_step E st st' \<and> \<not> times_out E st st')\<^sup>*\<^sup>*"

text \<open>A running server whose slot 0 is free.\<close>

definition demo_running :: "tables world" where
  "demo_running = set_client 0 (zero_client\<lparr>c_fd := -1\<rparr>) (demo_world\<lparr>w_srv := server_init\<lparr>s_running := True\<rparr>\<rparr>)"

section \<open>Lemmas: the database along a session\<close>

lemma tick_outcome:
  assumes "security_monitor_tick E now1 now2 w = Inr w'"
  shows "\<exists>h d. check_database_health E (w_db w) = Inr (h, d) \<and>
    w' = check_client_timeouts now2 (set_db (rotate_audit_logs E now1 d) w)"
  using assms by (auto simp: security_monitor_tick_def split: sum.splits)

lemma timeouts_db [simp]: "w_db (check_client_timeouts now w) = w_db w"
proof -
  have "w_db (timeout_loop now n i w) = w_db w" for n i
    by (induction n arbitrary: i w) auto
  then show ?thesis by (simp add: check_client_timeouts_def)
qed

context user_store
begin

lemma session_start_users:
  assumes "ready (w_db w)" "session_start E env i ip w = Some (b, w')"
  shows "ready (w_db w') \<and> users (w_db w') = users (w_db w)"
  using assms log_event_users
  by (auto simp: session_start_def Let_def split: if_splits prod.splits)

lemma session_end_users:
  assumes "ready (w_db w)"
  shows "ready (w_db (session_end E now i ip w)) \<and> users (w_db (session_end E now i ip w)) = users (w_db w)"
  using assms log_event_users messaging_users by (simp add: session_end_def Let_def)

lemma session_turn_users:
  assumes "ready (w_db w)" "accounts_ok (users (w_db w))" "i < length (s_clients (w_srv w))"
    "session_turn E i ip t buffer w = Some (Inr (dec, buffer', w'))"
  shows "ready (w_db w') \<and> accounts_ok (users (w_db w'))"
  using assms(4,3)
proof (cases rule: session_turn_cases)
  case (served b)
  then show ?thesis
  proof (cases rule: serve_line_cases)
    case (command c)
    from command_accounts [OF _ _ this] assms(1,2) show ?thesis by simp
  qed (use assms(1,2) in simp)
qed (use assms(1,2) in simp_all)

lemma tick_users:
  assumes "ready (w_db w)" "security_monitor_tick E now1 now2 w = Inr w'"
  shows "ready (w_db w') \<and> users (w_db w') = users (w_db w)"
proof -
  obtain h d where d: "check_database_health E (w_db w) = Inr (h, d)"
    "w' = check_client_timeouts now2 (set_db (rotate_audit_logs E now1 d) w)"
    using tick_outcome [OF assms(2)] by blast
  have "ready d \<and> users d = users (w_db w)"
    using d(1) assms(1) other_step [of "w_db w" SQL_INTEGRITY "[]"] ready_step [of "w_db w" SQL_INTEGRITY "[]"]
    by (auto simp: check_database_health_def prepare split: prod.splits step_result.splits option.splits)
  then show ?thesis using d(2) rotate_users [of d now1] by simp
qed

end

section \<open>Lemmas: steps\<close>

context user_store
begin

lemma step_ok:
  assumes "server_step E st st'" "system_ok users ready st"
  shows "system_ok users ready st'"
  using assms
proof (induction rule: server_step.induct)
  case (refuse w k w' ts)
  then show ?case using connection_outcome [OF refuse(2)] by (auto simp: system_ok_def)
next
  case (accept w k i w' ts)
  then show ?case using connection_outcome [OF accept(2)] by (auto simp: system_ok_def)
next
  case (start env ip w i w' buffer ts us)
  then show ?case
    using session_start_outcome [OF start(4)] session_start_users [OF _ start(4)] by (auto simp: system_ok_def)
next
  case (start_failed env ip w i w' ts us now)
  then show ?case
    using session_start_outcome [OF start_failed(4)] session_start_users [OF _ start_failed(4)]
      session_end_outcome [of w' i E now ip] session_end_users [of w' now i ip]
    by (auto simp: system_ok_def)
next
  case (turn i ip t buffer w buffer' w' ts us)
  then show ?case
    using session_turn_outcome [OF turn(1)] session_turn_users [OF _ _ _ turn(1)]
    by (auto simp: system_ok_def wf_server_def [of "w_srv w"])
next
  case (stop i ip t buffer w buffer' w' ts us now)
  then show ?case
    using session_turn_outcome [OF stop(1)] session_turn_users [OF _ _ _ stop(1)]
      session_end_outcome [of w' i E now ip] session_end_users [of w' now i ip]
    by (auto simp: system_ok_def wf_server_def [of "w_srv w"])
next
  case (monitor w now1 now2 w' ts)
  obtain d where "w' = check_client_timeouts now2 (set_db d w)"
    using tick_outcome [OF monitor(2)] by blast
  with monitor(3) have "wf_server (w_srv w')"
    using timeouts_wf [of "set_db d w" now2] by (simp add: system_ok_def)
  with monitor(3) tick_users [OF _ monitor(2)] show ?case by (auto simp: system_ok_def)
next
  case (signal w ts)
  then show ?case by (simp add: system_ok_def signal_handler_def wf_server_def)
qed

lemma steps_ok: "server_steps E st st' \<Longrightarrow> system_ok users ready st \<Longrightarrow> system_ok users ready st'"
  by (induction rule: rtranclp_induct) (auto dest: step_ok)

end

lemma command_fd:
  assumes "process_client_command E env i command ip w = Inr w'" "wf_server (w_srv w)" "i < MAX_CLIENTS"
  shows "c_fd (client w' i) = c_fd (client w i)"
proof -
  have len: "i < length (s_clients (w_srv w))" using assms(2,3) by (simp add: wf_server_def)
  show ?thesis
    using assms(1)
  proof (cases rule: command_cases)
    case register
    from registration_cases [OF this] show ?thesis by simp
  next
    case login
    then show ?thesis
    proof (cases rule: login_cases)
      case (yes nick token c d)
      with authenticated_client(6) [OF yes(2) wf_server_client [OF assms(2,3)]] len show ?thesis
        by (simp add: accept_login_clients)
    next
      case (no nick token c d)
      with authenticated_client(6) [OF no(2) wf_server_client [OF assms(2,3)]] len show ?thesis by simp
    qed simp
  next
    case authorized
    from authorized_outcome [OF this(2)] show ?thesis by simp
  qed simp
qed

lemma turn_fd:
  assumes "session_turn E i ip t buffer w = Some (Inr (dec, buffer', w'))" "wf_server (w_srv w)" "i < MAX_CLIENTS"
  shows "c_fd (client w' i) = c_fd (client w i)"
proof -
  have len: "i < length (s_clients (w_srv w))" using assms(2,3) by (simp add: wf_server_def)
  have wfv: "wf_server (w_srv (set_client i (counted t (client w i)) w))"
    using assms(2) wf_counted [OF wf_server_client [OF assms(2,3)]] by (rule wf_server_set_client)
  have fd: "c_fd (counted t c) = c_fd c" for c by (simp add: counted_def)
  show ?thesis
    using assms(1) len
  proof (cases rule: session_turn_cases)
    case (served b)
    then show ?thesis
    proof (cases rule: serve_line_cases)
      case (command c)
      from command_fd [OF this wfv assms(3)] len fd show ?thesis by simp
    qed (use len fd in simp)
  qed (use len fd in simp_all)
qed

lemma start_fd:
  assumes "session_start E env i ip w = Some (ok, w')" "i < length (s_clients (w_srv w))"
  shows "c_fd (client w' i) = c_fd (client w i)"
proof -
  obtain b c ev where init: "init_client_signal_protocol (sv_signal env) (client w i) = (b, c, ev)"
    by (metis prod_cases3)
  with assms init_client_frame(1) [OF init] show ?thesis
    by (auto simp: session_start_def Let_def split: if_splits)
qed

lemma exclusive_others:
  assumes "exclusive (w, ts @ t # us)" "only_slot (slot_of t) w w'"
  shows "list_all (\<lambda>u. 0 \<le> c_fd (client w' (slot_of u))) (ts @ us)"
proof -
  have "client w' (slot_of u) = client w (slot_of u)" if "u \<in> set (ts @ us)" for u
  proof (rule only_slot_other [OF assms(2)])
    have "slot_of u \<in> slot_of ` set ts \<union> slot_of ` set us" using that by auto
    moreover have "slot_of t \<notin> slot_of ` set ts \<union> slot_of ` set us"
      using assms(1) by (auto simp: exclusive_def)
    ultimately show "slot_of u \<noteq> slot_of t" by metis
  qed
  with assms(1) show ?thesis by (simp add: exclusive_def list_all_iff)
qed

lemma exclusive_remove:
  assumes "exclusive (w, ts @ t # us)" "only_slot (slot_of t) w w'"
  shows "exclusive (w', ts @ us)"
  using assms(1) exclusive_others [OF assms] by (simp add: exclusive_def)

lemma exclusive_replace:
  assumes "exclusive (w, ts @ t # us)" "only_slot (slot_of t) w w'" "slot_of t' = slot_of t"
    "c_fd (client w' (slot_of t)) = c_fd (client w (slot_of t))"
  shows "exclusive (w', ts @ t' # us)"
  using assms(1,3,4) exclusive_others [OF assms(1,2)] by (simp add: exclusive_def)

lemma exclusive_add:
  assumes "exclusive (w, ts)" "only_slot i w w'" "c_fd (client w i) < 0" "0 \<le> c_fd (client w' i)"
  shows "exclusive (w', ts @ [Starting i])"
proof -
  have free: "slot_of u \<noteq> i" if "u \<in> set ts" for u
    using assms(1,3) that by (auto simp: exclusive_def list_all_iff)
  then have "client w' (slot_of u) = client w (slot_of u)" if "u \<in> set ts" for u
    using that only_slot_other [OF assms(2)] by blast
  with assms(1,4) free show ?thesis by (auto simp: exclusive_def list_all_iff)
qed

lemma step_exclusive:
  assumes "server_step E st st'" "wf_server (w_srv (fst st))" "list_all (\<lambda>t. slot_of t < MAX_CLIENTS) (snd st)"
    "exclusive st"
  shows "exclusive st' \<or> times_out E st st'"
  using assms
proof (induction rule: server_step.induct)
  case (refuse w k w' ts)
  then show ?case using connection_outcome [OF refuse(2)] by (auto simp: exclusive_def)
next
  case (accept w k i w' ts)
  note out = connection_outcome [OF accept(2)]
  have "0 \<le> c_fd (fresh_client k)"
    using accept(2) by (auto simp: handle_new_connection_def fresh_client_def Let_def split: if_splits)
  then show ?case
    using out accept(3-) exclusive_add [of w ts i w'] by simp
next
  case (start env ip w i w' buffer ts us)
  then show ?case
    using session_start_outcome(1) [OF start(4)] start_fd [OF start(4)] exclusive_replace [of w ts "Starting i" us w' "Serving i ip buffer"]
    by (auto simp: wf_server_def [of "w_srv w"])
next
  case (start_failed env ip w i w' ts us now)
  then show ?case
    using session_start_outcome [OF start_failed(4)] session_end_outcome(1) [of w' i E now ip]
      exclusive_remove [of w ts "Starting i" us] only_slot_trans [of i w w']
    by auto
next
  case (turn i ip t buffer w buffer' w' ts us)
  then show ?case
    using session_turn_outcome [OF turn(1)] turn_fd [OF turn(1)]
      exclusive_replace [of w ts "Serving i ip buffer" us w' "Serving i ip buffer'"] by auto
next
  case (stop i ip t buffer w buffer' w' ts us now)
  then show ?case
    using session_turn_outcome [OF stop(1)] session_end_outcome(1) [of w' i E now ip]
      exclusive_remove [of w ts "Serving i ip buffer" us] only_slot_trans [of i w w'] by auto
next
  case (monitor w now1 now2 w' ts)
  obtain d where w': "w' = check_client_timeouts now2 (set_db d w)"
    using tick_outcome [OF monitor(2)] by blast
  have len: "length (s_clients (w_srv w)) = MAX_CLIENTS" using monitor(3) by (simp add: wf_server_def)
  have "client w' j = expire now2 (client w j)" if "j < MAX_CLIENTS" for j
    using that len w' by (simp add: timeouts_eq)
  with monitor have "exclusive (w', ts) \<or> list_ex (\<lambda>t. stale now2 (client w (slot_of t))) ts"
    by (auto simp: exclusive_def list_all_iff list_ex_iff expire_def)
  with monitor(2) show ?case by (auto simp: times_out_def)
next
  case (signal w ts)
  then show ?case by (simp add: exclusive_def signal_handler_def)
qed

context user_store
begin

lemma timely_exclusive:
  assumes "timely_steps E st st'" "exclusive st" "system_ok users ready st"
  shows "exclusive st' \<and> system_ok users ready st'"
  using assms(1)
proof (induction rule: rtranclp_induct)
  case (step a b)
  then have "exclusive b" using step_exclusive [of E a b] by (auto simp: system_ok_def)
  with step step_ok show ?case by blast
qed (use assms in simp)

end

lemma demo_serves:
  assumes "i < MAX_CLIENTS" "wf_server (w_srv w)"
  obtains w' where "session_start E demo_session i ip w = Some (True, w')" "only_slot i w w'"
    "c_fd (client w' i) = c_fd (client w i)" "s_running (w_srv w') = s_running (w_srv w)"
    "c_last_activity (client w' i) = c_last_activity (client w i)"
    "wf_server (w_srv w')"
proof -
  have len: "i < length (s_clients (w_srv w))" using assms by (simp add: wf_server_def)
  obtain w' where w': "session_start E demo_session i ip w = Some (True, w')"
    by (simp add: session_start_def demo_session_def advanced_anti_debug_check_def
        init_client_signal_protocol_def sample_env_def derive_public_key_def Let_def)
  have ok: "signal_env_ok (sv_signal demo_session)" "length (snd (sv_token_rand demo_session)) = 32"
    by (simp_all add: demo_session_def signal_env_ok_def sample_env_def)
  have "s_running (w_srv w') = s_running (w_srv w)"
    "c_last_activity (client w' i) = c_last_activity (client w i)"
    using w' len by (auto simp: session_start_def demo_session_def advanced_anti_debug_check_def
        init_client_signal_protocol_def sample_env_def derive_public_key_def Let_def)
  then show thesis
    using that [OF w'] session_start_outcome [OF w' assms(2,1) ok] start_fd [OF w' len] by blast
qed

lemma steps_refl: "server_steps E st st"
  by simp

lemma steps_snoc: "server_steps E a b \<Longrightarrow> server_step E b c \<Longrightarrow> server_steps E a c"
  by (rule rtranclp.rtrancl_into_rtrancl)

lemma demo_takes_slot0:
  assumes "wf_server (w_srv u)" "c_fd (client u 0) < 0"
  obtains v where "handle_new_connection demo_connection u = (Some 0, v)" "s_running (w_srv v) = s_running (w_srv u)"
    "client v 0 = fresh_client demo_connection" "wf_server (w_srv v)"
proof -
  obtain c cs where "s_clients (w_srv u) = c # cs"
    using assms(1) by (cases "s_clients (w_srv u)") (auto simp: wf_server_def MAX_CLIENTS_def)
  with assms(2) obtain v where v: "handle_new_connection demo_connection u = (Some 0, v)"
    "s_running (w_srv v) = s_running (w_srv u)"
    by (simp add: handle_new_connection_def demo_connection_def Let_def)
  with connection_outcome [OF v(1) assms(1)] that show thesis by simp
qed

lemma demo_tick:
  fixes w :: "tables world"
  assumes "wf_server (w_srv w)" "stale now (client w 0)"
  obtains v where "security_monitor_tick table_engine now now w = Inr v" "wf_server (w_srv v)" "c_fd (client v 0) < 0"
    "s_running (w_srv v) = s_running (w_srv w)"
proof -
  obtain v d where v: "security_monitor_tick table_engine now now w = Inr v"
    "v = check_client_timeouts now (set_db d w)"
    by (simp add: security_monitor_tick_def check_database_health_def table_step_def column_def)
  have len: "length (s_clients (w_srv w)) = MAX_CLIENTS" using assms(1) by (simp add: wf_server_def)
  have "wf_server (w_srv v)" "c_fd (client v 0) < 0" "s_running (w_srv v) = s_running (w_srv w)"
    using v(2) assms len timeouts_wf [of "set_db d w" now] by (simp_all add: timeouts_eq expire_def MAX_CLIENTS_def)
  with v(1) that show thesis by blast
qed

lemma demo_session_ok: "signal_env_ok (sv_signal demo_session)" "length (snd (sv_token_rand demo_session)) = 32"
  by (simp_all add: demo_session_def signal_env_ok_def sample_env_def)

lemma demo_running_system: "system_ok t_users (\<lambda>_. True) (demo_running, [])" "exclusive (demo_running, [])"
proof -
  have "wf_server (w_srv demo_running)"
    unfolding demo_running_def using wf_server_init wf_client_zero
    by (intro wf_server_set_client) (simp_all add: wf_server_def wf_client_def)
  then show "system_ok t_users (\<lambda>_. True) (demo_running, [])" "exclusive (demo_running, [])"
    by (simp_all add: system_ok_def accounts_ok_def demo_running_def exclusive_def)
qed

lemma demo_running_ok: "wf_server (w_srv demo_running)" "s_running (w_srv demo_running)" "c_fd (client demo_running 0) < 0"
proof -
  have len: "0 < length (s_clients server_init)" using wf_server_init by (simp add: wf_server_def MAX_CLIENTS_def)
  show "wf_server (w_srv demo_running)"
    unfolding demo_running_def using wf_server_init wf_client_zero
    by (intro wf_server_set_client) (simp_all add: wf_server_def wf_client_def)
  show "s_running (w_srv demo_running)" "c_fd (client demo_running 0) < 0"
    using len by (simp_all add: demo_running_def)
qed

text \<open>A run of two steps: a connection is accepted and its thread starts to serve.\<close>

lemma demo_run:
  obtains w1 w2 where "server_step table_engine (demo_running, []) (w1, [Starting 0])"
    "server_step table_engine (w1, [Starting 0]) (w2, [Serving 0 ''0.0.0.0'' (nuls BUFFER_SIZE)])"
    "s_running (w_srv w2)" "wf_server (w_srv w2)" "c_fd (client w2 0) = 9" "c_last_activity (client w2 0) = 1000"
proof -
  obtain w1 where w1: "handle_new_connection demo_connection demo_running = (Some 0, w1)" "s_running (w_srv w1)"
    "client w1 0 = fresh_client demo_connection" "wf_server (w_srv w1)"
    using demo_takes_slot0 [OF demo_running_ok(1,3)] demo_running_ok(2) by metis
  have "(0::nat) < MAX_CLIENTS" by (simp add: MAX_CLIENTS_def)
  then obtain w2 where w2: "session_start table_engine demo_session 0 ''0.0.0.0'' w1 = Some (True, w2)"
    "c_fd (client w2 0) = c_fd (client w1 0)" "s_running (w_srv w2)"
    "c_last_activity (client w2 0) = c_last_activity (client w1 0)" "wf_server (w_srv w2)"
    using demo_serves [OF _ w1(4), of 0 table_engine "''0.0.0.0''"] w1(2) by metis
  have ip: "client_ip w1 0 = ''0.0.0.0''"
    using w1(3) by (simp add: client_ip_def fresh_client_def demo_connection_def zero_addr_def inet_ntop_def
        dec_nat.simps dec_digit_def)
  have "server_step table_engine (demo_running, []) (w1, [Starting 0])"
    using server_step.accept [OF demo_running_ok(2) w1(1), of table_engine "[]"] by simp
  moreover have "server_step table_engine (w1, [Starting 0]) (w2, [Serving 0 ''0.0.0.0'' (nuls BUFFER_SIZE)])"
    using server_step.start [OF demo_session_ok ip [symmetric] w2(1), of "nuls BUFFER_SIZE" "[]" "[]"] by simp
  ultimately show thesis
    using that [of w1 w2] w2 w1(3) by (simp add: fresh_client_def demo_connection_def)
qed

section \<open>Properties\<close>

text \<open>
  C4. From a well-formed server whose threads have slots that exist and whose accounts are in order, every state
  the running server can reach, however its threads interleave, is one again: the client, peer and
  audit arrays are well formed, every handler thread works on a slot that exists, and, relying on what the schema
  declares, the table of accounts holds no two nicknames that differ only in case and no token twice.
\<close>

theorem system_invariant:
  assumes "user_store E users ready" "server_steps E st st'" "system_ok users ready st"
  shows "system_ok users ready st'"
  by (rule user_store.steps_ok [OF assms])

theorem system_invariant_witness:
  "\<exists>w. server_steps table_engine (demo_running, []) (w, [Serving 0 ''0.0.0.0'' (nuls BUFFER_SIZE)]) \<and>
    system_ok t_users (\<lambda>_. True) (w, [Serving 0 ''0.0.0.0'' (nuls BUFFER_SIZE)])"
proof -
  obtain w1 w2 where run: "server_step table_engine (demo_running, []) (w1, [Starting 0])"
    "server_step table_engine (w1, [Starting 0]) (w2, [Serving 0 ''0.0.0.0'' (nuls BUFFER_SIZE)])"
    using demo_run by metis
  then have "server_steps table_engine (demo_running, []) (w2, [Serving 0 ''0.0.0.0'' (nuls BUFFER_SIZE)])"
    using steps_snoc [OF steps_snoc [OF steps_refl]] by metis
  with system_invariant [OF tab.user_store_axioms this demo_running_system(1)] show ?thesis by blast
qed



text \<open>
  C34. A timeout lets two threads serve one slot: the monitor marks the slot free while its handler still
  runs, and the next connection is given the same slot, so both handlers work on the same client
  record.
\<close>

theorem two_threads_one_slot:
  "\<exists>w. server_steps table_engine (demo_running, []) (w, [Serving 0 ''0.0.0.0'' (nuls BUFFER_SIZE), Starting 0])"
proof -
  let ?S = "[Serving 0 ''0.0.0.0'' (nuls BUFFER_SIZE)]"
  obtain w1 w2 where run: "server_step table_engine (demo_running, []) (w1, [Starting 0])"
    "server_step table_engine (w1, [Starting 0]) (w2, ?S)" "s_running (w_srv w2)" "wf_server (w_srv w2)"
    "c_fd (client w2 0) = 9" "c_last_activity (client w2 0) = 1000"
    using demo_run by metis
  have "stale 2000 (client w2 0)"
    using run(5,6) by (simp add: stale_def CONNECTION_TIMEOUT_def)
  then obtain w3 where w3: "security_monitor_tick table_engine 2000 2000 w2 = Inr w3" "wf_server (w_srv w3)"
    "c_fd (client w3 0) < 0" "s_running (w_srv w3)"
    using demo_tick [OF run(4)] run(3) by metis
  obtain w4 where w4: "handle_new_connection demo_connection w3 = (Some 0, w4)"
    using demo_takes_slot0 [OF w3(2,3)] by metis
  have s3: "server_step table_engine (w2, ?S) (w3, ?S)"
    by (rule server_step.monitor [OF run(3) w3(1)])
  have s4: "server_step table_engine (w3, ?S) (w4, ?S @ [Starting 0])"
    by (rule server_step.accept [OF w3(4) w4])
  have "server_steps table_engine (demo_running, []) (w4, ?S @ [Starting 0])"
    by (rule steps_snoc [OF steps_snoc [OF steps_snoc [OF steps_snoc [OF steps_refl run(1)] run(2)] s3] s4])
  then show ?thesis by auto
qed

end
