(* ===== verification/Session_Edges.thy ===== *)
theory Session_Edges
  imports Client_Session
begin

text \<open>
  A session in which nothing arrives (\<^verbatim>\<open>secure_client_handler\<close> in \<^verbatim>\<open>src/src/server.c\<close>): timeouts of \<^verbatim>\<open>select\<close> and
  connections that the peer has closed.
\<close>

section \<open>What the properties speak of\<close>

text \<open>A turn that receives nothing: \<^verbatim>\<open>select\<close> timed out, or the first \<^verbatim>\<open>SSL_read\<close> reports the end.\<close>

definition silent :: "turn \<Rightarrow> bool" where
  "silent t = (0 \<le> tn_fd t \<and> (tn_selected t \<le> 0 \<or> (\<exists>rs. tn_reads t = Read_end # rs)))"

definition in_time :: "secure_client_t \<Rightarrow> turn \<Rightarrow> bool" where
  "in_time c t = (tn_idle_now t - c_last_activity c \<le> CONNECTION_TIMEOUT)"

section \<open>Lemmas\<close>

lemma silent_turn:
  assumes "silent t" "s_running (w_srv w)" "0 \<le> c_fd (client w i)" "buffer \<noteq> []"
  shows "\<exists>buffer'. session_turn E i ip t buffer w = Some (Inr (if in_time (client w i) t then Continue else Stop, buffer', w)) \<and>
    buffer' \<noteq> []"
proof -
  have "\<exists>b. ssl_safe_read (tn_fd t) (tn_selected t) (tn_reads t) buffer BUFFER_SIZE = Some (Inr (0, b)) \<and> b \<noteq> []"
  proof (cases "tn_selected t \<le> 0")
    case True
    then show ?thesis using assms(1,4) by (simp add: ssl_safe_read_def silent_def)
  next
    case False
    then obtain rs where "tn_reads t = Read_end # rs" using assms(1) by (auto simp: silent_def)
    then show ?thesis using assms(1,4) False by (simp add: ssl_safe_read_def silent_def BUFFER_SIZE_def poke_def)
  qed
  then show ?thesis using assms(2,3) by (auto simp: session_turn_def in_time_def)
qed

lemma silent_loop:
  "list_all silent ts \<Longrightarrow> s_running (w_srv w) \<Longrightarrow> 0 \<le> c_fd (client w i) \<Longrightarrow> buffer \<noteq> [] \<Longrightarrow>
   session_loop E i ip ts buffer w = (if list_all (in_time (client w i)) ts then None else Some (Inr w))"
proof (induction ts arbitrary: buffer)
  case (Cons t ts)
  then obtain b where "session_turn E i ip t buffer w = Some (Inr (if in_time (client w i) t then Continue else Stop, b, w))" "b \<noteq> []"
    using silent_turn [of t w i buffer E ip] by auto
  with Cons show ?case by (cases "in_time (client w i) t") auto
qed simp

section \<open>Properties\<close>

text \<open>
  C38. A silent session ends by its timeout and by nothing else: on a running server and a slot with an open descriptor, over
  any turns in which nothing is received, the loop of a session changes nothing; it goes on as long as the turns are
  within the connection timeout after the last activity and ends once one of them is not. A
  closed connection counts as silence: the read reports its end with the value that a timeout of \<^verbatim>\<open>select\<close> has, so until
  then the thread goes round its loop, without waiting, as \<^verbatim>\<open>select\<close> finds a closed socket readable.
\<close>

theorem silent_session_ends_by_timeout:
  assumes "list_all silent ts" "s_running (w_srv w)" "0 \<le> c_fd (client w i)" "buffer \<noteq> []"
  shows "session_loop E i ip ts buffer w = (if list_all (in_time (client w i)) ts then None else Some (Inr w))"
  using assms by (rule silent_loop)

theorem silent_session_ends_by_timeout_witness:
  "session_loop table_engine 0 ''ip'' (replicate 1000 (demo_turn\<lparr>tn_reads := [Read_end]\<rparr>)) (nuls 8192)
     (demo_world\<lparr>w_srv := server_init\<lparr>s_running := True\<rparr>\<rparr>) = None \<and>
   session_loop table_engine 0 ''ip'' (replicate 1000 (demo_turn\<lparr>tn_reads := [Read_end]\<rparr>) @
      [demo_turn\<lparr>tn_reads := [Read_end], tn_idle_now := 500\<rparr>]) (nuls 8192)
     (demo_world\<lparr>w_srv := server_init\<lparr>s_running := True\<rparr>\<rparr>) = Some (Inr (demo_world\<lparr>w_srv := server_init\<lparr>s_running := True\<rparr>\<rparr>))"
proof -
  let ?w = "demo_world\<lparr>w_srv := server_init\<lparr>s_running := True\<rparr>\<rparr>" and ?t = "demo_turn\<lparr>tn_reads := [Read_end]\<rparr>"
  have w: "s_running (w_srv ?w)" "0 \<le> c_fd (client ?w 0)" "c_last_activity (client ?w 0) = 0" "nuls 8192 \<noteq> []"
    by (simp_all add: zero_client_def)
  have t: "silent ?t" "silent (?t\<lparr>tn_idle_now := 500\<rparr>)" "in_time (client ?w 0) ?t" "\<not> in_time (client ?w 0) (?t\<lparr>tn_idle_now := 500\<rparr>)"
    using w(3) by (simp_all add: silent_def in_time_def demo_turn_def CONNECTION_TIMEOUT_def)
  have "list_all P (replicate 1000 x) \<longleftrightarrow> P x" for P and x :: turn by (simp add: list_all_iff)
  then show ?thesis
    using silent_session_ends_by_timeout [OF _ w(1,2,4), of "replicate 1000 ?t" table_engine "''ip''"]
      silent_session_ends_by_timeout [OF _ w(1,2,4), of "replicate 1000 ?t @ [?t\<lparr>tn_idle_now := 500\<rparr>]" table_engine "''ip''"] t
    by simp
qed

end
