(* ===== verification/Second_Definitions.thy ===== *)
theory Second_Definitions
  imports Server_Lifecycle
begin

text \<open>
  \<^verbatim>\<open>src/src/server.c\<close> defines a block of functions twice. The second definitions of the handlers of a logged-in
  client, of the lookup by nickname, of the list of users, of \<open>ssl_safe_read\<close> and of \<open>setup_ssl_context\<close>, at the end of the
  file, repeat the first word for word. They are translated here independently and closer to the text: loops
  count indices up to \<^verbatim>\<open>MAX_CLIENTS\<close>, bytes are stored one by one, fields are taken by position, the TLS context is
  filled by one call after the other. That both translations agree is a check of the model.
\<close>

section \<open>Lookups by index\<close>

function find_loop_2 :: "secure_client_t list \<Rightarrow> nat \<Rightarrow> string \<Rightarrow> nat option" where
  "find_loop_2 clients i nick =
     (if i < MAX_CLIENTS then
        if c_fd (clients ! i) \<ge> 0 \<and> c_authorized (clients ! i) \<and> cstr (c_nick (clients ! i)) = nick then Some i
        else find_loop_2 clients (i + 1) nick
      else None)"
  by pat_completeness auto
termination
  by (relation "measure (\<lambda>(clients, i, nick). MAX_CLIENTS - i)") auto

declare find_loop_2.simps [simp del]

definition find_client_by_nick_2 :: "ultra_server_state_t \<Rightarrow> string \<Rightarrow> nat option" where
  "find_client_by_nick_2 s nick = find_loop_2 (s_clients s) 0 nick"

text \<open>\<^verbatim>\<open>strncat(list, s, sizeof(list) - strlen(list) - 1)\<close> on the array of \<^verbatim>\<open>BUFFER_SIZE\<close> cells.\<close>

function online_loop_2 :: "secure_client_t list \<Rightarrow> nat \<Rightarrow> bool \<Rightarrow> string \<Rightarrow> string" where
  "online_loop_2 clients i first l =
     (if i < MAX_CLIENTS then
        if c_fd (clients ! i) \<ge> 0 \<and> c_authorized (clients ! i) then
          let l1 = (if \<not> first then strncat l '','' (BUFFER_SIZE - length l - 1) else l);
              l2 = strncat l1 [CHR 0x22] (BUFFER_SIZE - length l1 - 1);
              l3 = strncat l2 (cstr (c_nick (clients ! i))) (BUFFER_SIZE - length l2 - 1);
              l4 = strncat l3 [CHR 0x22] (BUFFER_SIZE - length l3 - 1)
          in online_loop_2 clients (i + 1) False l4
        else online_loop_2 clients (i + 1) first l
      else l)"
  by pat_completeness auto
termination
  by (relation "measure (\<lambda>(clients, i, first, l). MAX_CLIENTS - i)") auto

declare online_loop_2.simps [simp del]

definition send_online_users_2 :: "nat \<Rightarrow> 'db world \<Rightarrow> 'db world" where
  \<open>send_online_users_2 i w =
     (let l = online_loop_2 (s_clients (w_srv w)) 0 True ''{"type":"online","users":['';
          l' = strncat l ('']}'' @ [NL]) (BUFFER_SIZE - length l - 1)
      in send i l' w)\<close>

section \<open>Messages\<close>

definition encrypt_message_for_user_2 ::
  "evp \<Rightarrow> (byte list \<Rightarrow> string) \<Rightarrow> ultra_server_state_t \<Rightarrow> nat \<Rightarrow> string \<Rightarrow> string \<Rightarrow> fault + int \<times> string option" where
  "encrypt_message_for_user_2 P b64 s sender recipient_nick plaintext =
     (if find_client_by_nick_2 s recipient_nick = None then Inr (-1, None)
      else let (n, out, _) = crypto_encrypt_aes_gcm P (map byte_of plaintext) (c_session_key (s_clients s ! sender)) in
      case out of
        None \<Rightarrow> Inr (-1, None)
      | Some r \<Rightarrow>
          if length plaintext + 128 < length (co_ct r) then Inl Buffer_overflow
          else if n \<le> 0 then Inr (-1, None)
          else Inr (0, Some (cstr (b64 (take (nat n) (co_ct r))))))"

definition handle_private_message_2 :: "'db sqlite \<Rightarrow> nat \<Rightarrow> string \<Rightarrow> 'db world \<Rightarrow> 'db world" where
  "handle_private_message_2 E i command w =
     (let fields = sscanf fmt_msg command in
      if length fields \<ge> 2 \<and> validate_message (fields ! 1)
      then send_private_message E (cstr (c_nick (client w i))) (fields ! 0) (fields ! 1) w else w)"

definition handle_encrypted_message_2 :: "cmd_env \<Rightarrow> nat \<Rightarrow> string \<Rightarrow> 'db world \<Rightarrow> fault + 'db world" where
  \<open>handle_encrypted_message_2 env i command w =
     (let fields = sscanf fmt_send_enc command; target = fields ! 0 in
      if length fields < 2 then Inr w
      else case encrypt_message_for_user_2 (ce_evp env) (ce_b64 env) (w_srv w) i target (fields ! 1) of
        Inl e \<Rightarrow> Inl e
      | Inr (r, encrypted_b64) \<Rightarrow>
          if r \<noteq> 0 then Inr w
          else let json = snprintf BUFFER_SIZE (''{"type":"encrypted","from":"'' @ cstr (c_nick (client w i)) @ ''","to":"'' @
                     target @ ''","data":"'' @ (case encrypted_b64 of None \<Rightarrow> [] | Some d \<Rightarrow> d) @ ''"}'' @ [NL])
          in (case find_client_by_nick_2 (w_srv w) target of None \<Rightarrow> Inr w | Some t \<Rightarrow> Inr (send t json w)))\<close>

definition handle_authorized_commands_2 ::
  "'db sqlite \<Rightarrow> cmd_env \<Rightarrow> nat \<Rightarrow> string \<Rightarrow> string \<Rightarrow> 'db world \<Rightarrow> fault + 'db world" where
  "handle_authorized_commands_2 E env i command ip w =
     (if command = ''/online'' then Inr (send_online_users_2 i w)
      else if strncmp_eq command ''/msg'' 4 then Inr (handle_private_message_2 E i command w)
      else if strncmp_eq command ''/send_enc'' 9 then handle_encrypted_message_2 env i command w
      else Inr (if validate_message command then broadcast_message E (cstr (c_nick (client w i))) command w else w))"

section \<open>Reading\<close>

text \<open>\<^verbatim>\<open>SSL_read\<close> writes its bytes one by one to where \<^verbatim>\<open>buffer + total\<close> points.\<close>

fun read_loop_2 :: "read_result list \<Rightarrow> char list \<Rightarrow> nat \<Rightarrow> nat \<Rightarrow> (fault + nat \<times> char list) option" where
  "read_loop_2 rs buffer max_len tot =
     (if max_len - 1 \<le> tot then Some (Inr (tot, buffer))
      else case rs of
        [] \<Rightarrow> None
      | Read_want_read # rs' \<Rightarrow> read_loop_2 rs' buffer max_len tot
      | Read_end # rs' \<Rightarrow> Some (Inr (tot, buffer))
      | Got chunk # rs' \<Rightarrow>
          (case poke_all buffer tot chunk of
             Inl e \<Rightarrow> Some (Inl e)
           | Inr b \<Rightarrow>
               if b ! (tot + length chunk - 1) = NL then Some (Inr (tot + length chunk, b))
               else read_loop_2 rs' b max_len (tot + length chunk)))"

declare read_loop_2.simps [simp del]

definition ssl_safe_read_2 :: "int \<Rightarrow> int \<Rightarrow> read_result list \<Rightarrow> char list \<Rightarrow> nat \<Rightarrow> (fault + int \<times> char list) option" where
  "ssl_safe_read_2 ssl_fd selected rs buffer max_len =
     (if ssl_fd < 0 then Some (Inr (-1, buffer))
      else if selected \<le> 0 then Some (Inr (0, buffer))
      else map_option (\<lambda>r. case r of
          Inl e \<Rightarrow> Inl e
        | Inr (tot, b) \<Rightarrow> (case poke b tot NUL of Inl e \<Rightarrow> Inl e | Inr b' \<Rightarrow> Inr (int tot, b')))
        (read_loop_2 rs buffer max_len 0))"

section \<open>The TLS context\<close>

text \<open>The calls that set the context up, with the arguments of the source; an option word is the list of its flags.\<close>

datatype tls_call =
    SSL_CTX_set_min_proto_version tls_version
  | SSL_CTX_set_max_proto_version tls_version
  | SSL_CTX_set_cipher_list string
  | SSL_CTX_set_options "string list"

definition setup_ssl_context_2 :: "nat option \<Rightarrow> 'db world \<Rightarrow> (tls_call list \<times> 'db world) option" where
  "setup_ssl_context_2 ctx w =
     (let w1 = set_srv ((w_srv w)\<lparr>s_ssl_ctx := ctx\<rparr>) w in
      if s_ssl_ctx (w_srv w1) = None then None
      else Some
        ([SSL_CTX_set_min_proto_version TLS1_3, SSL_CTX_set_max_proto_version TLS1_3,
          SSL_CTX_set_cipher_list (''TLS_AES_256_GCM_SHA384:'' @ ''TLS_CHACHA20_POLY1305_SHA256:'' @ ''TLS_AES_128_GCM_SHA256''),
          SSL_CTX_set_options [''NO_COMPRESSION'', ''NO_RENEGOTIATION'', ''NO_SSLv2'', ''NO_SSLv3'',
            ''NO_TLSv1'', ''NO_TLSv1_1'', ''NO_TLSv1_2'', ''PRIORITIZE_CHACHA'', ''CIPHER_SERVER_PREFERENCE'']], w1))"

text \<open>The calls ask for these settings.\<close>

definition asks_for :: "tls_call list \<Rightarrow> tls_settings \<Rightarrow> bool" where
  "asks_for calls t \<longleftrightarrow> calls =
     [SSL_CTX_set_min_proto_version (tls_min t), SSL_CTX_set_max_proto_version (tls_max t),
      SSL_CTX_set_cipher_list (tl (concat (map ((#) (CHR '':'')) (tls_ciphers t)))), SSL_CTX_set_options (tls_options t)]"

section \<open>Lemmas\<close>

lemma setup_ssl_context_2_asks:
  "rel_option (rel_prod asks_for (=)) (setup_ssl_context_2 ctx w) (setup_ssl_context ctx w)"
  by (cases ctx) (simp_all add: setup_ssl_context_2_def setup_ssl_context_def secure_tls_def asks_for_def)

lemma find_loop_2_eq:
  "i \<le> MAX_CLIENTS \<Longrightarrow> length cs = MAX_CLIENTS \<Longrightarrow> find_loop_2 cs i nick = find_from (drop i cs) i nick"
proof (induction cs i nick rule: find_loop_2.induct)
  case (1 cs i nick)
  show ?case
  proof (cases "i < MAX_CLIENTS")
    case True
    then have "drop i cs = cs ! i # drop (Suc i) cs" using "1.prems" by (simp add: Cons_nth_drop_Suc)
    with 1 True show ?thesis by (subst find_loop_2.simps) (simp add: reachable_client_def)
  next
    case False
    with "1.prems" show ?thesis by (subst find_loop_2.simps) simp
  qed
qed

lemma find_client_by_nick_2_eq: "wf_server s \<Longrightarrow> find_client_by_nick_2 s nick = find_client_by_nick s nick"
  using find_loop_2_eq [of 0 "s_clients s" nick] by (simp add: find_client_by_nick_2_def find_client_by_nick_def wf_server_def)

lemma online_loop_2_eq:
  "i \<le> MAX_CLIENTS \<Longrightarrow> length cs = MAX_CLIENTS \<Longrightarrow> online_loop_2 cs i first l = online_loop (drop i cs) first l"
proof (induction cs i first l rule: online_loop_2.induct)
  case (1 cs i first l)
  show ?case
  proof (cases "i < MAX_CLIENTS")
    case True
    then have "drop i cs = cs ! i # drop (Suc i) cs" using "1.prems" by (simp add: Cons_nth_drop_Suc)
    with 1 True show ?thesis
      by (subst online_loop_2.simps) (simp add: reachable_client_def Let_def cat_online_def)
  next
    case False
    with "1.prems" show ?thesis by (subst online_loop_2.simps) simp
  qed
qed

lemma send_online_users_2_eq: "wf_server (w_srv w) \<Longrightarrow> send_online_users_2 i w = send_online_users i w"
  using online_loop_2_eq [of 0 "s_clients (w_srv w)" True online_open]
  by (simp add: send_online_users_2_def send_online_users_def online_list_def Let_def cat_online_def online_open_def
      online_close_def wf_server_def)

lemma encrypt_message_for_user_2_eq:
  "wf_server s \<Longrightarrow> encrypt_message_for_user_2 P b64 s i nick m = encrypt_message_for_user P b64 s i nick m"
  by (auto simp: encrypt_message_for_user_2_def encrypt_message_for_user_def find_client_by_nick_2_eq Let_def
      split: option.split prod.split)

lemma two_fields: "length (sscanf (lits p @ [Ws, Word_field v, Ws, Line_field u]) s) \<le> 2"
proof (induction p arbitrary: s)
  case (Cons c p)
  then show ?case by (cases s) auto
qed (auto simp: Let_def)

lemma handle_private_message_2_eq: "handle_private_message_2 E i command w = handle_private_message E i command w"
  using two_fields [of "''/msg''" "Some 31" "Some 2047" command]
  by (auto simp: handle_private_message_2_def handle_private_message_def fmt_msg_def Let_def split: list.split)

lemma encrypt_result:
  "encrypt_message_for_user P b64 s i nick m = Inr (r, x) \<Longrightarrow> r = 0 \<longleftrightarrow> x \<noteq> None"
  by (auto simp: encrypt_message_for_user_def split: option.splits prod.splits if_splits)

lemma handle_encrypted_message_2_eq:
  assumes "wf_server (w_srv w)"
  shows "handle_encrypted_message_2 env i command w = handle_encrypted_message env i command w"
  using two_fields [of "''/send_enc''" "Some 31" "Some 2047" command]
    find_client_by_nick_2_eq [OF assms] encrypt_message_for_user_2_eq [OF assms]
  by (auto simp: handle_encrypted_message_2_def handle_encrypted_message_def fmt_send_enc_def Let_def json_encrypted_def
      split: list.split sum.split option.split dest: encrypt_result)

lemma read_loop_2_eq: "list_all (\<lambda>r. r \<noteq> Got []) rs \<Longrightarrow> read_loop_2 rs buffer max_len tot = read_loop rs buffer max_len tot"
proof (induction rs buffer max_len tot rule: read_loop.induct)
  case (2 r rs buffer max_len tot)
  show ?case
  proof (cases r)
    case (Got chunk)
    with "2.prems" have "chunk \<noteq> []" by simp
    then show ?thesis
      using 2 Got poke_all_ok [of tot chunk buffer] poke_all_overflow [of chunk buffer tot]
      by (subst read_loop_2.simps) (auto simp: Let_def not_less)
  qed (use 2 in \<open>subst read_loop_2.simps; auto\<close>)+
qed (subst read_loop_2.simps; auto)

section \<open>Properties\<close>

text \<open>
  The two translations agree: on every well-formed server and whatever a logged-in client sends, the command
  handlers with their loops over the indices of the client array give the fault or the world that the first
  translation gives; \<open>ssl_safe_read\<close>, which stores its bytes one by one, reads what the first reads, for every behaviour of
  a library that delivers at least one byte at a time; and \<open>setup_ssl_context\<close> ends the program where the first does and
  asks for the same TLS settings. The second definitions of \<open>ssl_safe_write\<close> and \<open>add_peer_to_network\<close>, which differ from
  the first, are in \<^verbatim>\<open>Net_IO\<close> and \<^verbatim>\<open>Peer_Network\<close>.
\<close>

theorem second_definitions_agree:
  assumes "wf_server (w_srv w)" "list_all (\<lambda>r. r \<noteq> Got []) rs"
  shows "handle_authorized_commands_2 E env i command ip w = handle_authorized_commands E env i command ip w \<and>
    find_client_by_nick_2 (w_srv w) nick = find_client_by_nick (w_srv w) nick \<and>
    ssl_safe_read_2 fd selected rs buffer n = ssl_safe_read fd selected rs buffer n \<and>
    rel_option (rel_prod asks_for (=)) (setup_ssl_context_2 ctx w) (setup_ssl_context ctx w)"
proof (intro conjI)
  show "handle_authorized_commands_2 E env i command ip w = handle_authorized_commands E env i command ip w"
    using assms(1)
    by (simp add: handle_authorized_commands_2_def handle_authorized_commands_def send_online_users_2_eq
        handle_private_message_2_eq handle_encrypted_message_2_eq)
  show "find_client_by_nick_2 (w_srv w) nick = find_client_by_nick (w_srv w) nick"
    using assms(1) by (rule find_client_by_nick_2_eq)
  show "ssl_safe_read_2 fd selected rs buffer n = ssl_safe_read fd selected rs buffer n"
    by (auto simp: ssl_safe_read_2_def ssl_safe_read_def read_loop_2_eq [OF assms(2)] split: option.split sum.split)
qed (rule setup_ssl_context_2_asks)

theorem second_definitions_agree_witness:
  "handle_authorized_commands_2 table_engine demo_env 0 ''/online'' ''ip'' demo_world = Inr (send_online_users 0 demo_world) \<and>
   ssl_safe_read_2 5 1 [Got ''hi'', Read_end] (nuls 8) 8 = Some (Inr (2, ''hi'' @ nuls 6))"
  using second_definitions_agree [of demo_world "[Got ''hi'', Read_end]" table_engine demo_env 0 "''/online''" "''ip''" "[]" 5 1 "nuls 8" 8]
    wf_server_init
  by (simp add: handle_authorized_commands_def ssl_safe_read_def poke_def numeral_eq_Suc)

end
