(* ===== verification/Json_Text.thy ===== *)
theory Json_Text
  imports Mesh_Prelude
begin

text \<open>
  JSON as the frames of the server use it. The graphical client reads frames with Qt's
  \<^verbatim>\<open>QJsonDocument::fromJson\<close>, a library the sources only call; \<open>json_text\<close> is the JSON text of a
  flat object, and the locale \<open>json_reader\<close> states what a reader of such texts does: it gives back the
  members of an object whose strings need no escapes, and refuses a text that does not end with the
  closing brace. \<open>flat_json\<close> is a reader for exactly these objects and interprets the locale.
\<close>

section \<open>Values and texts\<close>

datatype jvalue = JString string | JNumber int | JStrings "string list"

abbreviation QUOTE :: char where "QUOTE \<equiv> CHR 0x22"

definition quoted :: "string \<Rightarrow> string" where
  "quoted s = QUOTE # s @ [QUOTE]"

fun commas :: "string list \<Rightarrow> string" where
  "commas [] = []"
| "commas [s] = s"
| "commas (s # t # ss) = s @ CHR '','' # commas (t # ss)"

fun value_text :: "jvalue \<Rightarrow> string" where
  "value_text (JString s) = quoted s"
| "value_text (JNumber n) = dec_int n"
| "value_text (JStrings ss) = CHR ''['' # commas (map quoted ss) @ '']''"

definition member_text :: "string \<times> jvalue \<Rightarrow> string" where
  "member_text m = quoted (fst m) @ CHR '':'' # value_text (snd m)"

definition json_text :: "(string \<times> jvalue) list \<Rightarrow> string" where
  "json_text ms = CHR ''{'' # commas (map member_text ms) @ ''}''"

text \<open>A string that stands for itself between quotes: printable ASCII without quote and backslash.\<close>

definition plain :: "string \<Rightarrow> bool" where
  "plain s = list_all (\<lambda>c. isprint c \<and> c \<noteq> QUOTE \<and> c \<noteq> CHR 0x5C) s"

fun plain_value :: "jvalue \<Rightarrow> bool" where
  "plain_value (JString s) = plain s"
| "plain_value (JNumber n) = True"
| "plain_value (JStrings ss) = list_all plain ss"

definition plain_members :: "(string \<times> jvalue) list \<Rightarrow> bool" where
  "plain_members ms = (distinct (map fst ms) \<and> list_all (\<lambda>m. plain (fst m) \<and> plain_value (snd m)) ms)"

section \<open>A reader of flat objects\<close>

definition read_string :: "string \<Rightarrow> (string \<times> string) option" where
  "read_string t =
     (case t of
        c # u \<Rightarrow> if c = QUOTE \<and> QUOTE \<in> set u
                then Some (takeWhile (\<lambda>c. c \<noteq> QUOTE) u, tl (dropWhile (\<lambda>c. c \<noteq> QUOTE) u)) else None
      | [] \<Rightarrow> None)"

definition digit_value :: "char \<Rightarrow> nat" where
  "digit_value c = of_char c - 48"

definition is_digit :: "char \<Rightarrow> bool" where
  "is_digit c = (48 \<le> (of_char c :: nat) \<and> (of_char c :: nat) \<le> 57)"

definition read_nat :: "string \<Rightarrow> nat" where
  "read_nat t = foldl (\<lambda>n c. 10 * n + digit_value c) 0 (takeWhile is_digit t)"

definition read_number :: "string \<Rightarrow> (int \<times> string) option" where
  "read_number t =
     (let u = (if take 1 t = ''-'' then tl t else t) in
      if take 1 u = [] \<or> \<not> is_digit (hd u) then None
      else Some (if take 1 t = ''-'' then - int (read_nat u) else int (read_nat u), dropWhile is_digit u))"

text \<open>The strings of an array after its opening bracket; the number bounds how many are read.\<close>

fun read_strings :: "nat \<Rightarrow> string \<Rightarrow> (string list \<times> string) option" where
  "read_strings 0 t = None"
| "read_strings (Suc k) t =
     (case read_string t of
        None \<Rightarrow> None
      | Some (s, u) \<Rightarrow>
          if take 1 u = '']'' then Some ([s], tl u)
          else if take 1 u = '','' then map_option (apfst (Cons s)) (read_strings k (tl u))
          else None)"

definition read_value :: "string \<Rightarrow> (jvalue \<times> string) option" where
  "read_value t =
     (if take 2 t = ''[]'' then Some (JStrings [], drop 2 t)
      else if take 1 t = ''['' then map_option (apfst JStrings) (read_strings (length t) (tl t))
      else if take 1 t = [QUOTE] then map_option (apfst JString) (read_string t)
      else map_option (apfst JNumber) (read_number t))"

fun read_members :: "nat \<Rightarrow> string \<Rightarrow> (string \<times> jvalue) list option" where
  "read_members 0 t = None"
| "read_members (Suc k) t =
     (case read_string t of
        None \<Rightarrow> None
      | Some (key, u) \<Rightarrow>
          if take 1 u \<noteq> '':'' then None
          else case read_value (tl u) of
            None \<Rightarrow> None
          | Some (v, r) \<Rightarrow>
              if r = ''}'' then Some [(key, v)]
              else if take 1 r = '','' then map_option (Cons (key, v)) (read_members k (tl r))
              else None)"

definition flat_json :: "string \<Rightarrow> (string \<rightharpoonup> jvalue) option" where
  "flat_json t =
     (if t = ''{}'' then Some Map.empty
      else if take 1 t = ''{'' \<and> last t = CHR ''}'' then map_option map_of (read_members (length t) (tl t))
      else None)"

section \<open>The interface\<close>

locale json_reader =
  fixes from_json :: "string \<Rightarrow> (string \<rightharpoonup> jvalue) option"
  assumes reads: "plain_members ms \<Longrightarrow> from_json (json_text ms) = Some (map_of ms)"
    and refuses: "last (CHR ''{'' # u) \<noteq> CHR ''}'' \<Longrightarrow> \<not> isspace (last (CHR ''{'' # u)) \<Longrightarrow>
      from_json (CHR ''{'' # u) = None"

section \<open>Reading back\<close>

lemma plain_no_quote: "plain s \<Longrightarrow> QUOTE \<notin> set s"
  by (auto simp: plain_def list_all_iff)

lemma read_string_quoted: "QUOTE \<notin> set s \<Longrightarrow> read_string (quoted s @ r) = Some (s, r)"
  by (auto simp: read_string_def quoted_def takeWhile_append dropWhile_append2 intro: takeWhile_eq_all_conv [THEN iffD2])

lemma digit_table: "list_all (\<lambda>k. digit_value (''0123456789'' ! k) = k \<and> is_digit (''0123456789'' ! k)) [0..<10]"
  by code_simp

lemma dec_digit_value: "digit_value (dec_digit d) = d mod 10" "is_digit (dec_digit d)"
  using digit_table by (simp_all add: dec_digit_def list_all_iff)

lemma dec_nat_digits: "list_all is_digit (dec_nat n) \<and> dec_nat n \<noteq> [] \<and>
  foldl (\<lambda>n c. 10 * n + digit_value c) 0 (dec_nat n) = n"
proof (induction n rule: dec_nat.induct)
  case (1 n)
  show ?case
  proof (cases "n < 10")
    case True
    then show ?thesis by (subst (1 2 3) dec_nat.simps) (simp add: dec_digit_value)
  next
    case False
    with 1 show ?thesis by (subst (1 2 3) dec_nat.simps) (simp add: dec_digit_value)
  qed
qed

lemma digits_split:
  "list_all is_digit s \<Longrightarrow> r = [] \<or> \<not> is_digit (hd r) \<Longrightarrow>
   takeWhile is_digit (s @ r) = s \<and> dropWhile is_digit (s @ r) = r"
  by (induction s) (cases r; auto)+

lemma dec_nat_Cons: obtains c u where "dec_nat n = c # u" "is_digit c" "c \<noteq> CHR ''-''"
proof -
  obtain c u where cu: "dec_nat n = c # u" using dec_nat_digits [of n] by (cases "dec_nat n") auto
  then have "is_digit c" using dec_nat_digits [of n] by simp
  moreover from this have "c \<noteq> CHR ''-''" by (auto simp: is_digit_def)
  ultimately show thesis using cu that by blast
qed

lemma read_nat_dec: "r = [] \<or> \<not> is_digit (hd r) \<Longrightarrow> read_nat (dec_nat n @ r) = n"
  using digits_split [of "dec_nat n" r] dec_nat_digits [of n] by (simp add: read_nat_def)

lemma read_number_dec:
  assumes "r = [] \<or> \<not> is_digit (hd r)"
  shows "read_number (dec_int n @ r) = Some (n, r)"
proof -
  obtain c u where cu: "dec_nat (nat (abs n)) = c # u" "is_digit c" "c \<noteq> CHR ''-''"
    by (rule dec_nat_Cons)
  have "dropWhile is_digit (dec_nat (nat (abs n)) @ r) = r" "read_nat (dec_nat (nat (abs n)) @ r) = nat (abs n)"
    using digits_split [of "dec_nat (nat (abs n))" r] dec_nat_digits [of "nat (abs n)"] read_nat_dec assms by blast+
  with cu show ?thesis
    by (cases "n < 0") (simp_all add: read_number_def dec_int_def)
qed

lemma read_strings_text:
  "list_all plain ss \<Longrightarrow> ss \<noteq> [] \<Longrightarrow> length ss \<le> k \<Longrightarrow>
   read_strings k (commas (map quoted ss) @ CHR '']'' # r) = Some (ss, r)"
proof (induction ss arbitrary: k rule: commas.induct)
  case (2 s)
  then show ?case by (cases k) (auto simp: read_string_quoted plain_no_quote)
next
  case (3 s t ss)
  then obtain k' where "k = Suc k'" by (cases k) auto
  with 3 show ?case by (simp add: read_string_quoted plain_no_quote)
qed simp

lemma length_commas: "list_all (\<lambda>s. s \<noteq> []) ss \<Longrightarrow> length ss \<le> length (commas ss)"
  by (induction ss rule: commas.induct) (auto simp: neq_Nil_conv)

lemma read_value_text:
  assumes "plain_value v" "take 1 r \<in> {'','', ''}''}"
  shows "read_value (value_text v @ r) = Some (v, r)"
proof (cases v)
  case (JString s)
  with assms show ?thesis
    using read_string_quoted [of s r] plain_no_quote [of s] by (simp add: read_value_def quoted_def)
next
  case (JNumber n)
  have nd: "r = [] \<or> \<not> is_digit (hd r)" using assms(2) by (cases r) (auto simp: is_digit_def)
  obtain c u where cu: "dec_nat (nat n) = c # u" "is_digit c"
    by (rule dec_nat_Cons)
  have "take 1 (dec_int n @ r) \<noteq> ''['' \<and> take 1 (dec_int n @ r) \<noteq> [QUOTE]"
    using cu by (cases "n < 0") (auto simp: dec_int_def is_digit_def)
  moreover from this have "take 2 (dec_int n @ r) \<noteq> ''[]''"
    by (cases "dec_int n @ r") auto
  ultimately show ?thesis
    using JNumber read_number_dec [OF nd, of n] by (simp add: read_value_def)
next
  case (JStrings ss)
  show ?thesis
  proof (cases ss)
    case Nil
    with JStrings show ?thesis by (simp add: read_value_def)
  next
    case (Cons s ss')
    let ?u = "commas (map quoted ss) @ CHR '']'' # r"
    have "read_strings (Suc (length ?u)) ?u = Some (ss, r)"
      by (rule read_strings_text)
        (use assms JStrings Cons length_commas [of "map quoted ss"] in \<open>auto simp: list_all_iff quoted_def\<close>)
    moreover obtain u where "?u = QUOTE # u"
      using Cons by (cases ss') (auto simp: quoted_def)
    ultimately show ?thesis
      using JStrings by (simp add: read_value_def)
  qed
qed

lemma read_members_text:
  "list_all (\<lambda>m. plain (fst m) \<and> plain_value (snd m)) ms \<Longrightarrow> ms \<noteq> [] \<Longrightarrow> length ms \<le> k \<Longrightarrow>
   read_members k (commas (map member_text ms) @ ''}'') = Some ms"
proof (induction ms arbitrary: k rule: induct_list012)
  case (2 m)
  then show ?case
    by (cases k; cases m) (auto simp: member_text_def read_string_quoted plain_no_quote read_value_text)
next
  case (3 m m' ms)
  then obtain k' where k: "k = Suc k'" by (cases k) auto
  with 3 have "read_members k' (commas (map member_text (m' # ms)) @ ''}'') = Some (m' # ms)"
    by simp
  with 3 k show ?case
    by (cases m) (simp add: member_text_def read_string_quoted plain_no_quote read_value_text)
qed simp

lemma member_text_ne: "member_text m \<noteq> []"
  by (simp add: member_text_def quoted_def)

interpretation flat: json_reader flat_json
proof unfold_locales
  fix ms
  assume p: "plain_members ms"
  show "flat_json (json_text ms) = Some (map_of ms)"
  proof (cases "ms = []")
    case False
    let ?u = "commas (map member_text ms) @ ''}''"
    have "read_members (Suc (length ?u)) ?u = Some ms"
      by (rule read_members_text)
        (use p False length_commas [of "map member_text ms"] in \<open>auto simp: plain_members_def list_all_iff member_text_ne\<close>)
    moreover have "commas (map member_text ms) \<noteq> []"
      using False by (cases ms; cases "tl ms") (auto simp: member_text_ne)
    ultimately show ?thesis by (simp add: flat_json_def json_text_def)
  qed (simp add: flat_json_def json_text_def)
qed (auto simp: flat_json_def)

end
