(* ===== verification/Chat_Client.thy ===== *)
theory Chat_Client
  imports Client_Session Json_Text
begin

text \<open>
  The protocol side of the graphical client, class \<^verbatim>\<open>ChatClient\<close> in
  \<^verbatim>\<open>src/src/assets/chatclient.cpp\<close>: its state, the commands it writes and the signals it emits
  for what it reads. Qt is a library: the socket's state is a field, calls of it and emitted signals are
  events, \<open>QString\<close> is its UTF-8 text, and the JSON reader is the parameter \<open>from_json\<close> with the
  contract \<open>json_reader\<close>.
\<close>

section \<open>Qt strings\<close>

text \<open>
  \<^verbatim>\<open>QString::arg\<close> replaces every occurrence of the lowest place marker, a percent sign with
  one or two digits. The argument of an earlier call is text like any other for a later one.
\<close>

definition place_marker :: "string \<Rightarrow> (nat \<times> string) option" where
  "place_marker s =
     (let u = (if take 1 s = ''L'' then tl s else s) in
      if u = [] \<or> \<not> is_digit (hd u) then None
      else if tl u \<noteq> [] \<and> is_digit (hd (tl u))
      then Some (10 * digit_value (hd u) + digit_value (hd (tl u)), tl (tl u))
      else Some (digit_value (hd u), tl u))"

fun lowest_marker :: "string \<Rightarrow> nat option" where
  "lowest_marker [] = None"
| "lowest_marker (c # s) =
     (case (if c = CHR ''%'' then place_marker s else None) of
        None \<Rightarrow> lowest_marker s
      | Some (n, _) \<Rightarrow> (case lowest_marker s of None \<Rightarrow> Some n | Some m \<Rightarrow> Some (min n m)))"

lemma place_marker_shorter [termination_simp]: "place_marker s = Some (n, u) \<Longrightarrow> length u < Suc (length s)"
  by (auto simp: place_marker_def Let_def split: if_splits)

fun replace_marker :: "nat \<Rightarrow> string \<Rightarrow> string \<Rightarrow> string" where
  "replace_marker n a [] = []"
| "replace_marker n a (c # s) =
     (if c = CHR ''%'' then
        (case place_marker s of
           None \<Rightarrow> c # replace_marker n a s
         | Some (m, u) \<Rightarrow> if m = n then a @ replace_marker n a u else c # replace_marker n a s)
      else c # replace_marker n a s)"

definition qarg :: "string \<Rightarrow> string \<Rightarrow> string" where
  "qarg s a = (case lowest_marker s of None \<Rightarrow> s | Some n \<Rightarrow> replace_marker n a s)"

text \<open>\<^verbatim>\<open>QString::trimmed\<close> on ASCII white space.\<close>

definition trimmed :: "string \<Rightarrow> string" where
  "trimmed s = rev (dropWhile isspace (rev (dropWhile isspace s)))"

section \<open>State\<close>

datatype socket_state = UnconnectedState | HostLookupState | ConnectingState | ConnectedState | ClosingState

record chat_client =
  m_socket :: socket_state
  m_timeoutTimer :: bool
  m_loggedIn :: bool
  m_nick :: string
  m_token :: string
  m_host :: string
  m_port :: int

datatype client_event =
    Connect_encrypted string int
  | Disconnect_from_host
  | Abort
  | Write string
  | Connected
  | Disconnected
  | LoginSuccess string
  | LoginFailed string
  | RegistrationSuccess string string
  | RegistrationFailed string
  | MessageReceived string string
  | PrivateMessageReceived string string string
  | EncryptedMessageReceived string string string
  | OnlineUsersReceived "string list"
  | HelpReceived "string list"
  | P2pConnectionInitiated string bool
  | ErrorOccurred string

section \<open>Commands\<close>

definition connectToServer :: "string \<Rightarrow> int \<Rightarrow> chat_client \<Rightarrow> chat_client \<times> client_event list" where
  "connectToServer host port c =
     (c\<lparr>m_host := host, m_port := port, m_timeoutTimer := True\<rparr>, [Connect_encrypted host port])"

definition disconnectFromServer :: "chat_client \<Rightarrow> chat_client \<times> client_event list" where
  "disconnectFromServer c =
     (c\<lparr>m_loggedIn := False, m_nick := [], m_token := []\<rparr>,
      if m_socket c \<noteq> UnconnectedState then [Disconnect_from_host] else [])"

text \<open>The first statements of every command: without a connection only an error is emitted.\<close>

definition write_command :: "string \<Rightarrow> chat_client \<Rightarrow> client_event list" where
  "write_command line c =
     (if m_socket c \<noteq> ConnectedState then [ErrorOccurred ''Not connected to server'']
      else [Write (line @ [NL])])"

definition registerUser :: "string \<Rightarrow> chat_client \<Rightarrow> client_event list" where
  "registerUser nick = write_command (qarg ''/register %1'' nick)"

definition loginUser :: "string \<Rightarrow> string \<Rightarrow> chat_client \<Rightarrow> client_event list" where
  "loginUser nick token = write_command (qarg (qarg ''/login %1 %2'' nick) token)"

definition sendMessage :: "string \<Rightarrow> chat_client \<Rightarrow> client_event list" where
  "sendMessage message = write_command message"

definition sendPrivateMessage :: "string \<Rightarrow> string \<Rightarrow> chat_client \<Rightarrow> client_event list" where
  "sendPrivateMessage to message = write_command (qarg (qarg ''/msg %1 %2'' to) message)"

definition sendEncryptedMessage :: "string \<Rightarrow> string \<Rightarrow> chat_client \<Rightarrow> client_event list" where
  "sendEncryptedMessage to message = write_command (qarg (qarg ''/send_enc %1 %2'' to) message)"

definition requestOnlineUsers :: "chat_client \<Rightarrow> client_event list" where
  "requestOnlineUsers = write_command ''/online''"

definition requestHelp :: "chat_client \<Rightarrow> client_event list" where
  "requestHelp = write_command ''/help''"

definition p2pConnect :: "string \<Rightarrow> chat_client \<Rightarrow> client_event list" where
  "p2pConnect target = write_command (qarg ''/p2p_connect %1'' target)"

section \<open>Slots\<close>

definition onConnected :: "chat_client \<Rightarrow> chat_client \<times> client_event list" where
  "onConnected c = (c\<lparr>m_timeoutTimer := False\<rparr>, [Connected])"

definition onDisconnected :: "chat_client \<Rightarrow> chat_client \<times> client_event list" where
  "onDisconnected c = (c\<lparr>m_loggedIn := False, m_nick := [], m_token := []\<rparr>, [Disconnected])"

definition onError :: "string \<Rightarrow> chat_client \<Rightarrow> chat_client \<times> client_event list" where
  "onError error_string c = (c\<lparr>m_timeoutTimer := False\<rparr>, [ErrorOccurred error_string, Disconnect_from_host])"

definition onTimeout :: "chat_client \<Rightarrow> chat_client \<times> client_event list" where
  "onTimeout c = (c, if m_socket c \<noteq> ConnectedState then [ErrorOccurred ''Connection timeout'', Abort] else [])"

text \<open>\<^verbatim>\<open>obj.value(key).toString()\<close> and \<^verbatim>\<open>toArray()\<close> with their defaults.\<close>

definition str_of :: "(string \<rightharpoonup> jvalue) \<Rightarrow> string \<Rightarrow> string" where
  "str_of obj key = (case obj key of Some (JString s) \<Rightarrow> s | _ \<Rightarrow> [])"

definition strings_of :: "(string \<rightharpoonup> jvalue) \<Rightarrow> string \<Rightarrow> string list" where
  "strings_of obj key = (case obj key of Some (JStrings ss) \<Rightarrow> ss | _ \<Rightarrow> [])"

definition on_object :: "(string \<rightharpoonup> jvalue) \<Rightarrow> chat_client \<Rightarrow> chat_client \<times> client_event list" where
  "on_object obj c =
     (let ty = str_of obj ''type''; v = str_of obj in
      if ty = ''register'' then
        if v ''status'' = ''success'' then (c, [RegistrationSuccess (v ''nick'') (v ''token'')])
        else (c, [RegistrationFailed (v ''message'')])
      else if ty = ''login'' then
        if v ''status'' = ''success''
        then (c\<lparr>m_nick := v ''nick'', m_loggedIn := True\<rparr>, [LoginSuccess (v ''nick'')])
        else (c, [LoginFailed (v ''message'')])
      else if ty = ''message'' then (c, [MessageReceived (v ''from'') (v ''text'')])
      else if ty = ''private'' then (c, [PrivateMessageReceived (v ''from'') (v ''to'') (v ''text'')])
      else if ty = ''encrypted'' then (c, [EncryptedMessageReceived (v ''from'') (v ''to'') (v ''data'')])
      else if ty = ''online'' then (c, [OnlineUsersReceived (strings_of obj ''users'')])
      else if ty = ''help'' then (c, [HelpReceived (strings_of obj ''commands'')])
      else if ty = ''p2p_initiated''
      then (c, [P2pConnectionInitiated (v ''target'') (v ''status'' = ''success'')])
      else (c, []))"

definition on_line :: "(string \<Rightarrow> (string \<rightharpoonup> jvalue) option) \<Rightarrow> string \<Rightarrow> chat_client \<Rightarrow> chat_client \<times> client_event list" where
  "on_line from_json raw c =
     (let line = trimmed raw in
      if take 1 line = ''{'' then (case from_json line of None \<Rightarrow> (c, []) | Some obj \<Rightarrow> on_object obj c)
      else (c, [MessageReceived ''System'' line]))"

text \<open>
  \<open>onReadyRead\<close>: while the socket holds a line, read it. The result also gives the bytes after the
  last newline, which stay in the socket.
\<close>

function onReadyRead :: "(string \<Rightarrow> (string \<rightharpoonup> jvalue) option) \<Rightarrow> string \<Rightarrow> chat_client \<Rightarrow>
    chat_client \<times> client_event list \<times> string" where
  "onReadyRead from_json data c =
     (if NL \<in> set data then
        let line = takeWhile (\<lambda>x. x \<noteq> NL) data @ [NL];
            (c1, ev1) = on_line from_json line c;
            (c2, ev2, rest) = onReadyRead from_json (drop (length line) data) c1
        in (c2, ev1 @ ev2, rest)
      else (c, [], data))"
  by pat_completeness auto
termination
  by (relation "measure (\<lambda>(f, data, c). length data)") (auto intro!: diff_less simp: length_pos_if_in_set)

declare onReadyRead.simps [simp del]

section \<open>What the properties speak of\<close>

text \<open>
  A line of base64 text, the part of an encrypted frame before the data, and a client to evaluate.
\<close>

definition b64_char :: "char \<Rightarrow> bool" where
  "b64_char c = (isalnum c \<or> c = CHR ''+'' \<or> c = CHR ''/'' \<or> c = CHR ''='')"

definition b64_line :: "string \<Rightarrow> bool" where
  "b64_line l = (l \<noteq> [] \<and> list_all b64_char l)"

definition enc_head :: "string \<Rightarrow> string \<Rightarrow> string" where
  \<open>enc_head a b = ''{"type":"encrypted","from":"'' @ a @ ''","to":"'' @ b @ ''","data":"''\<close>

definition demo_chat_client :: chat_client where
  "demo_chat_client = \<lparr>m_socket = ConnectedState, m_timeoutTimer = False, m_loggedIn = True, m_nick = ''ann'',
     m_token = [], m_host = ''localhost'', m_port = 5555\<rparr>"

section \<open>Command lines\<close>

lemma lowest_marker_append: "CHR ''%'' \<notin> set a \<Longrightarrow> lowest_marker (a @ s) = lowest_marker s"
  by (induction a) auto

lemma replace_marker_append: "CHR ''%'' \<notin> set a \<Longrightarrow> replace_marker n b (a @ s) = a @ replace_marker n b s"
  by (induction a) auto

lemma marker_values [simp]:
  "place_marker ''1'' = Some (1, [])" "place_marker ''2'' = Some (2, [])"
  "place_marker ''1 %2'' = Some (1, '' %2'')"
  by (simp_all add: place_marker_def is_digit_def digit_value_def)

lemma qarg_one: "CHR ''%'' \<notin> set p \<Longrightarrow> qarg (p @ ''%1'') a = p @ a"
  by (simp add: qarg_def lowest_marker_append replace_marker_append)

lemma qarg_two:
  "CHR ''%'' \<notin> set p \<Longrightarrow> CHR ''%'' \<notin> set a \<Longrightarrow> qarg (qarg (p @ ''%1 %2'') a) b = p @ a @ CHR '' '' # b"
proof -
  assume p: "CHR ''%'' \<notin> set p" and a: "CHR ''%'' \<notin> set a"
  have "qarg (p @ ''%1 %2'') a = (p @ a @ '' '') @ ''%2''"
    using p by (simp add: qarg_def lowest_marker_append replace_marker_append)
  moreover have "qarg ((p @ a @ '' '') @ ''%2'') b = (p @ a @ '' '') @ b"
    using p a by (simp add: qarg_def lowest_marker_append replace_marker_append del: append_assoc)
  ultimately show ?thesis by simp
qed

lemma command_lines:
  assumes "CHR ''%'' \<notin> set a"
  shows "sendPrivateMessage a b = write_command (''/msg '' @ a @ CHR '' '' # b)"
    "loginUser a b = write_command (''/login '' @ a @ CHR '' '' # b)"
    "sendEncryptedMessage a b = write_command (''/send_enc '' @ a @ CHR '' '' # b)"
    "registerUser x = write_command (''/register '' @ x)" "p2pConnect x = write_command (''/p2p_connect '' @ x)"
  using assms qarg_two [of "''/msg ''" a b] qarg_two [of "''/login ''" a b] qarg_two [of "''/send_enc ''" a b]
    qarg_one [of "''/register ''" x] qarg_one [of "''/p2p_connect ''" x]
  by (simp_all add: sendPrivateMessage_def loginUser_def sendEncryptedMessage_def registerUser_def p2pConnect_def)

lemma nick_char_marker: "nick_char c \<Longrightarrow> c \<noteq> CHR ''%''"
  by (auto simp: nick_char_def isalnum_def)

lemma valid_nick_chars:
  assumes "validate_nickname nick" "length nick \<le> 31"
  shows "CHR ''%'' \<notin> set nick" "filter (\<lambda>c. \<not> unsafe_char c) nick = nick" "is_word nick" "is_cstr nick" "plain nick"
proof -
  have nc: "\<And>c. c \<in> set nick \<Longrightarrow> nick_char c"
    using assms by (auto simp: validate_nickname_iff MAX_NICK_LENGTH_def list_all_iff)
  then show "CHR ''%'' \<notin> set nick" "filter (\<lambda>c. \<not> unsafe_char c) nick = nick"
    using nick_char_marker nick_char_not_unsafe by (auto simp: filter_id_conv)
  show "is_word nick" "is_cstr nick" using validated_nick_word [OF assms] by auto
  have "isprint c" if "nick_char c" for c using that by (auto simp: nick_char_def isalnum_def isprint_def Let_def)
  with nc nick_char_not_unsafe show "plain nick" by (auto simp: plain_def list_all_iff unsafe_char_def)
qed

lemma plain_filter: "list_all isprint s \<Longrightarrow> plain (filter (\<lambda>c. \<not> unsafe_char c) s)"
  by (auto simp: plain_def list_all_iff unsafe_char_def)

lemma isprint_cstr: "list_all isprint s \<Longrightarrow> is_cstr s"
  by (auto simp: is_cstr_def list_all_iff isprint_def)

section \<open>Frames as JSON texts\<close>

lemma trimmed_frame: "trimmed (CHR ''{'' # u @ [CHR ''}'', NL]) = CHR ''{'' # u @ ''}''"
  by (simp add: trimmed_def isspace_def)

lemma trimmed_json: "trimmed (json_text ms @ [NL]) = json_text ms"
  using trimmed_frame [of "commas (map member_text ms)"] by (simp add: json_text_def)

lemma frames_json:
  "json_message a t = json_text [(''type'', JString ''message''), (''from'', JString a), (''text'', JString t)] @ [NL]"
  "json_private a b t = json_text [(''type'', JString ''private''), (''from'', JString a), (''to'', JString b),
     (''text'', JString t)] @ [NL]"
  "json_logged_in a s = json_text [(''type'', JString ''login''), (''status'', JString ''success''), (''nick'', JString a),
     (''session_id'', JString (dec_nat (unat s)))] @ [NL]"
  "json_registered a k l = json_text [(''type'', JString ''register''), (''status'', JString ''success''),
     (''nick'', JString a), (''token'', JString k), (''security_level'', JNumber l)] @ [NL]"
  by (simp_all add: json_message_def json_private_def json_logged_in_def json_registered_def json_text_def
      member_text_def quoted_def)

lemma refusals_json:
  "msg_bad_login = json_text [(''type'', JString ''login''), (''status'', JString ''error''),
     (''message'', JString ''Invalid credentials'')] @ [NL]"
  "msg_bad_nick = json_text [(''type'', JString ''register''), (''status'', JString ''error''),
     (''message'', JString ''Invalid nickname'')] @ [NL]"
  "msg_nick_exists = json_text [(''type'', JString ''register''), (''status'', JString ''error''),
     (''message'', JString ''Nickname already exists'')] @ [NL]"
  "msg_db_error = json_text [(''type'', JString ''register''), (''status'', JString ''error''),
     (''message'', JString ''Database error'')] @ [NL]"
  by (simp_all add: msg_bad_login_def msg_bad_nick_def msg_nick_exists_def msg_db_error_def json_text_def member_text_def quoted_def)

lemma quoted_names_commas:
  "quoted_names True ns = commas (map quoted ns)" 
  "quoted_names False ns = (if ns = [] then [] else CHR '','' # commas (map quoted ns))"
proof (induction ns)
  case (Cons n ns)
  {
    case 1 show ?case using Cons by (cases ns) (auto simp: quoted_def)
  next
    case 2 show ?case using Cons by (cases ns) (auto simp: quoted_def)
  }
qed simp_all

lemma online_json:
  "online_reference ns = json_text [(''type'', JString ''online''), (''users'', JStrings ns)] @ [NL]"
  by (simp add: online_reference_def online_open_def online_close_def json_text_def member_text_def quoted_def
      quoted_names_commas)

lemma not_isprint_NL: "\<not> isprint NL"
  by (simp add: isprint_def)

lemma plain_chars: "plain s \<Longrightarrow> NL \<notin> set s"
  using not_isprint_NL by (auto simp: plain_def list_all_iff)

lemma NL_commas: "(\<And>s. s \<in> set ss \<Longrightarrow> NL \<notin> set s) \<Longrightarrow> NL \<notin> set (commas ss)"
  by (induction ss rule: commas.induct) auto

lemma dec_nat_plain: "plain (dec_nat n)"
proof -
  have "isprint c \<and> c \<noteq> QUOTE \<and> c \<noteq> CHR 0x5C" if "is_digit c" for c
    using that by (auto simp: is_digit_def isprint_def)
  then show ?thesis using dec_nat_digits [of n] by (auto simp: plain_def list_all_iff)
qed

lemma plain_literals [simp]:
  "plain ''type''" "plain ''message''" "plain ''from''" "plain ''text''" "plain ''private''" "plain ''to''"
  "plain ''login''" "plain ''status''" "plain ''success''" "plain ''nick''" "plain ''session_id''"
  "plain ''register''" "plain ''token''" "plain ''security_level''" "plain ''online''" "plain ''users''"
  "plain ''error''" "plain ''Invalid credentials''" "plain ''Invalid nickname''" "plain ''Nickname already exists''"
  "plain ''Database error''"
  by (simp_all add: plain_def isprint_def)

lemma NL_value_text: "plain_value v \<Longrightarrow> NL \<notin> set (value_text v)"
proof (cases v)
  case (JStrings ss)
  assume "plain_value v"
  with JStrings have "\<And>s. s \<in> set ss \<Longrightarrow> NL \<notin> set s" by (auto simp: list_all_iff dest: plain_chars)
  then have "NL \<notin> set (commas (map quoted ss))" by (intro NL_commas) (auto simp: quoted_def)
  with JStrings show ?thesis by simp
next
  case (JNumber n)
  then show ?thesis using plain_chars [OF dec_nat_plain] by (simp add: dec_int_def)
qed (auto simp: quoted_def dest: plain_chars)

lemma NL_json_text:
  assumes "plain_members ms"
  shows "NL \<notin> set (json_text ms)"
proof -
  have "NL \<notin> set (member_text m)" if "m \<in> set ms" for m
    using assms that plain_chars [of "fst m"] NL_value_text [of "snd m"]
    by (auto simp: plain_members_def list_all_iff member_text_def quoted_def)
  then have "NL \<notin> set (commas (map member_text ms))" by (intro NL_commas) auto
  then show ?thesis by (simp add: json_text_def)
qed

lemma ready_one_line:
  "NL \<notin> set l \<Longrightarrow> onReadyRead f (l @ NL # rest) c =
     (let (c1, ev1) = on_line f (l @ [NL]) c; (c2, ev2, r) = onReadyRead f rest c1 in (c2, ev1 @ ev2, r))"
  by (subst onReadyRead.simps) (simp add: takeWhile_append)

lemma ready_end: "NL \<notin> set rest \<Longrightarrow> onReadyRead f rest c = (c, [], rest)"
  by (subst onReadyRead.simps) simp

lemma ready_frame:
  assumes "json_reader f" "plain_members ms"
  shows "onReadyRead f (json_text ms @ [NL]) c = (let (c1, ev1) = on_object (map_of ms) c in (c1, ev1, []))"
proof -
  have "on_line f (json_text ms @ [NL]) c = on_object (map_of ms) c"
    using json_reader.reads [OF assms] by (simp add: on_line_def trimmed_json) (simp add: json_text_def)
  then show ?thesis
    using ready_one_line [OF NL_json_text [OF assms(2)], of f "[]" c] by (simp add: ready_end split: prod.split)
qed

lemma ready_private:
  "json_reader f \<Longrightarrow> plain a \<Longrightarrow> plain b \<Longrightarrow> plain t \<Longrightarrow>
   onReadyRead f (json_private a b t) c = (c, [PrivateMessageReceived a b t], [])"
  by (simp add: frames_json ready_frame plain_members_def on_object_def str_of_def)

section \<open>Properties\<close>

text \<open>
  C14. The client understands the server: for names, tokens and texts of printable characters without
  quotes and backslashes, and whatever reader of JSON it uses, every answer of the server to registration and
  login, every message, private message and list of users that fits the array it is formatted in (8192 bytes, 256 for the
  answer to a login, 512 for the one to a registration) is read as exactly the signal it stands for, with exactly the
  names and texts the server put in, and nothing is left in the socket.
\<close>

theorem frames_understood:
  assumes "json_reader f" "plain a" "plain b" "plain t" "plain k" "list_all plain (online_names sv)"
    and fits: "length (json_message a t) < 8192" "length (json_private a b t) < 8192" "length (json_logged_in a s) < 256"
      "length (json_registered a k l) < 512" "length (online_reference (online_names sv)) < 8192"
  shows "onReadyRead f (snprintf 8192 (json_message a t)) c = (c, [MessageReceived a t], []) \<and>
    onReadyRead f (snprintf 8192 (json_private a b t)) c = (c, [PrivateMessageReceived a b t], []) \<and>
    onReadyRead f (snprintf 256 (json_logged_in a s)) c = (c\<lparr>m_nick := a, m_loggedIn := True\<rparr>, [LoginSuccess a], []) \<and>
    onReadyRead f (snprintf 512 (json_registered a k l)) c = (c, [RegistrationSuccess a k], []) \<and>
    onReadyRead f (online_list sv) c = (c, [OnlineUsersReceived (online_names sv)], []) \<and>
    onReadyRead f msg_bad_login c = (c, [LoginFailed ''Invalid credentials''], []) \<and>
    onReadyRead f msg_bad_nick c = (c, [RegistrationFailed ''Invalid nickname''], []) \<and>
    onReadyRead f msg_nick_exists c = (c, [RegistrationFailed ''Nickname already exists''], []) \<and>
    onReadyRead f msg_db_error c = (c, [RegistrationFailed ''Database error''], [])"
proof -
  have cut: "snprintf 8192 (json_message a t) = json_message a t" "snprintf 8192 (json_private a b t) = json_private a b t"
    "snprintf 256 (json_logged_in a s) = json_logged_in a s" "snprintf 512 (json_registered a k l) = json_registered a k l"
    "online_list sv = online_reference (online_names sv)"
    using fits by (simp_all add: online_list_cut snprintf_fits BUFFER_SIZE_def)
  show ?thesis
    unfolding cut using assms(2-6)
    by (simp add: frames_json refusals_json online_json ready_frame [OF assms(1)] plain_members_def on_object_def
        str_of_def strings_of_def dec_nat_plain plain_literals)
qed

theorem frames_understood_witness:
  "onReadyRead flat_json (snprintf 8192 (json_private ''ann'' ''bob'' ''hi'')) demo_chat_client =
     (demo_chat_client, [PrivateMessageReceived ''ann'' ''bob'' ''hi''], []) \<and>
   onReadyRead flat_json (snprintf 512 (json_registered ''ann'' ''abc'' 1)) demo_chat_client =
     (demo_chat_client, [RegistrationSuccess ''ann'' ''abc''], [])"
proof -
  have none: "online_names (server_init\<lparr>s_clients := []\<rparr>) = []" by (simp add: online_names_def)
  have "dec_nat 0 = ''0''" "dec_int 1 = ''1''" by (simp_all add: dec_nat.simps dec_digit_def dec_int_def)
  then show ?thesis
    using frames_understood [OF flat.json_reader_axioms, of "''ann''" "''bob''" "''hi''" "''abc''" "server_init\<lparr>s_clients := []\<rparr>" 0 1 demo_chat_client]
    by (simp add: plain_def isprint_def none json_message_def json_private_def json_logged_in_def json_registered_def
        online_reference_def online_open_def online_close_def)
qed

lemma trimmed_line: "s \<noteq> [] \<Longrightarrow> \<not> isspace (hd s) \<Longrightarrow> \<not> isspace (last s) \<Longrightarrow> trimmed (s @ [NL]) = s"
proof -
  assume s: "s \<noteq> []" "\<not> isspace (hd s)" "\<not> isspace (last s)"
  then have "dropWhile isspace (s @ [NL]) = s @ [NL]" by (cases s) auto
  moreover have "dropWhile isspace (rev s) = rev s"
    using s by (cases "rev s") (auto simp: hd_rev [symmetric])
  ultimately show ?thesis by (simp add: trimmed_def)
qed

lemma b64_char: "b64_char c \<Longrightarrow> \<not> isspace c \<and> c \<noteq> NL \<and> c \<noteq> CHR ''{'' \<and> c \<noteq> CHR ''}''"
  by (auto simp: b64_char_def isalnum_def isspace_def Let_def)

lemma b64_line_facts:
  assumes "b64_line l"
  shows "l \<noteq> []" "NL \<notin> set l" "\<not> isspace (hd l)" "\<not> isspace (last l)" "take (Suc 0) l \<noteq> ''{''" "last l \<noteq> CHR ''}''"
proof -
  have cs: "\<And>c. c \<in> set l \<Longrightarrow> \<not> isspace c \<and> c \<noteq> NL \<and> c \<noteq> CHR ''{'' \<and> c \<noteq> CHR ''}''" and ne: "l \<noteq> []"
    using assms b64_char by (auto simp: b64_line_def list_all_iff)
  then show "l \<noteq> []" "NL \<notin> set l" "\<not> isspace (hd l)" "\<not> isspace (last l)" "last l \<noteq> CHR ''}''" by auto
  show "take (Suc 0) l \<noteq> ''{''" using cs ne by (cases l) auto
qed

lemma text_line:
  "s \<noteq> [] \<Longrightarrow> \<not> isspace (hd s) \<Longrightarrow> \<not> isspace (last s) \<Longrightarrow> take 1 s \<noteq> ''{'' \<Longrightarrow>
   on_line f (s @ [NL]) c = (c, [MessageReceived ''System'' s])"
  by (simp add: on_line_def trimmed_line)

lemma ready_text_lines:
  "list_all b64_line ls \<Longrightarrow>
   onReadyRead f (concat (map (\<lambda>l. l @ [NL]) ls) @ [QUOTE, CHR ''}'', NL]) c =
     (c, map (MessageReceived ''System'') (ls @ [[QUOTE, CHR ''}'']]), [])"
proof (induction ls)
  case Nil
  then show ?case
    using ready_one_line [of "[QUOTE, CHR ''}'']" f "[]" c] text_line [of "[QUOTE, CHR ''}'']" f c]
    by (simp add: ready_end isspace_def)
next
  case (Cons l ls)
  then show ?case
    using ready_one_line [of l f "concat (map (\<lambda>l. l @ [NL]) ls) @ [QUOTE, CHR ''}'', NL]" c] text_line [of l f c]
    by (simp add: b64_line_facts)
qed

text \<open>
  C35. Encrypted messages do not arrive: the base64 filter of OpenSSL ends every line of its output with a
  newline, and the server puts that output into the frame as it is. The client then reads a first line that is
  no JSON and drops it, and shows the remaining lines of the ciphertext and the closing quote and brace as
  messages from the system; it never emits the signal for an encrypted message.
\<close>

theorem encrypted_frame_broken:
  assumes "json_reader f" "plain a" "plain b" "ls \<noteq> []" "list_all b64_line ls"
  shows "onReadyRead f (json_encrypted a b (concat (map (\<lambda>l. l @ [NL]) ls))) c =
    (c, map (MessageReceived ''System'') (tl ls @ [[QUOTE, CHR ''}'']]), [])"
proof -
  obtain l ls' where ls: "ls = l # ls'" "b64_line l" "list_all b64_line ls'"
    using assms(4,5) by (cases ls) auto
  let ?h = "enc_head a b @ l"
  have frame: "json_encrypted a b (concat (map (\<lambda>l. l @ [NL]) ls)) =
      ?h @ NL # concat (map (\<lambda>l. l @ [NL]) ls') @ [QUOTE, CHR ''}'', NL]"
    using ls by (simp add: json_encrypted_def enc_head_def)
  obtain u where u: "?h = CHR ''{'' # u" by (simp add: enc_head_def)
  have "NL \<notin> set ?h"
    using assms(2,3) ls b64_line_facts(2) plain_chars by (auto simp: enc_head_def)
  moreover have last: "last ?h = last l" using b64_line_facts(1) [OF ls(2)] by simp
  then have "on_line f (?h @ [NL]) c = (c, [])"
    using json_reader.refuses [OF assms(1), of u] b64_line_facts [OF ls(2)] u trimmed_line [of ?h]
    by (simp add: on_line_def isspace_def)
  ultimately show ?thesis
    using ready_one_line [of ?h f "concat (map (\<lambda>l. l @ [NL]) ls') @ [QUOTE, CHR ''}'', NL]" c]
      ready_text_lines [OF ls(3)] unfolding frame by (simp add: ls(1))
qed

theorem encrypted_frame_broken_witness:
  "onReadyRead flat_json (json_encrypted ''ann'' ''bob'' (''YWJj'' @ [NL])) demo_chat_client =
    (demo_chat_client, [MessageReceived ''System'' [QUOTE, CHR ''}'']], [])"
  using encrypted_frame_broken [OF flat.json_reader_axioms, of "''ann''" "''bob''" "[''YWJj'']" demo_chat_client]
  by (simp add: plain_def isprint_def b64_line_def b64_char_def isalnum_def)

end
