(* ===== verification/Chat_Window.thy ===== *)
theory Chat_Window
  imports Chat_Client
begin

text \<open>
  The main window of the graphical client, class \<^verbatim>\<open>MainWindow\<close> in
  \<^verbatim>\<open>src/src/assets/mainwindow.cpp\<close>: the contents of its widgets, the slots of its buttons and the slots of
  the client's signals. A message box is an entry of a log, a call of the socket another; drawing is left to Qt.
\<close>

section \<open>State\<close>

datatype box_kind = Information | Warning | Critical

record main_window =
  hostEdit :: string
  portEdit :: string
  nickEdit :: string
  tokenEdit :: string
  messageEdit :: string
  toEdit :: string
  statusLabel :: string
  chatArea :: "string list"
  onlineUsersList :: "string list"
  m_currentUser :: string
  m_client :: chat_client
  mw_boxes :: "(box_kind \<times> string \<times> string) list"
  mw_socket :: "client_event list"

definition box :: "box_kind \<Rightarrow> string \<Rightarrow> string \<Rightarrow> main_window \<Rightarrow> main_window" where
  "box k title text w = w\<lparr>mw_boxes := mw_boxes w @ [(k, title, text)]\<rparr>"

section \<open>Slots of the client's signals\<close>

definition onMessageReceived :: "string \<Rightarrow> string \<Rightarrow> string \<Rightarrow> main_window \<Rightarrow> main_window" where
  "onMessageReceived now sender message w =
     w\<lparr>chatArea := chatArea w @ [qarg (qarg (qarg ''[%1] %2: %3'' now) sender) message]\<rparr>"

definition onPrivateMessageReceived :: "string \<Rightarrow> string \<Rightarrow> string \<Rightarrow> main_window \<Rightarrow> main_window" where
  "onPrivateMessageReceived sender to message w =
     w\<lparr>chatArea := chatArea w @ [qarg (qarg (qarg ''[PRIVATE from %1 to %2] %3'' sender) to) message]\<rparr>"

definition onEncryptedMessageReceived :: "string \<Rightarrow> string \<Rightarrow> string \<Rightarrow> main_window \<Rightarrow> main_window" where
  "onEncryptedMessageReceived sender to data w =
     w\<lparr>chatArea := chatArea w @ [qarg (qarg (qarg ''[ENCRYPTED from %1 to %2] %3'' sender) to) data]\<rparr>"

fun join_with :: "string \<Rightarrow> string list \<Rightarrow> string" where
  "join_with sep [] = []"
| "join_with sep [s] = s"
| "join_with sep (s # t # ss) = s @ sep @ join_with sep (t # ss)"

definition onOnlineUsersReceived :: "string list \<Rightarrow> main_window \<Rightarrow> main_window" where
  "onOnlineUsersReceived users w =
     box Information ''Online Users'' (qarg ''Online users: %1'' (join_with '', '' users)) (w\<lparr>onlineUsersList := users\<rparr>)"

definition onHelpReceived :: "string list \<Rightarrow> main_window \<Rightarrow> main_window" where
  "onHelpReceived commands =
     box Information ''Help'' (''Available commands:'' @ [NL] @ join_with [NL] commands)"

definition onP2PConnectionInitiated :: "string \<Rightarrow> bool \<Rightarrow> main_window \<Rightarrow> main_window" where
  "onP2PConnectionInitiated target success =
     (if success
      then box Information ''P2P Connection'' (qarg ''P2P connection initiated with %1 successfully.'' target)
      else box Warning ''P2P Connection'' (qarg ''Failed to initiate P2P connection with %1.'' target))"

definition onLoginSuccess :: "string \<Rightarrow> main_window \<Rightarrow> main_window" where
  "onLoginSuccess nick w =
     box Information ''Login Success'' (qarg ''Welcome, %1!'' nick)
       (w\<lparr>m_currentUser := nick, statusLabel := qarg ''Logged in as %1'' nick\<rparr>)"

definition onLoginFailed :: "string \<Rightarrow> main_window \<Rightarrow> main_window" where
  "onLoginFailed error = box Critical ''Login Failed'' error"

definition onRegistrationSuccess :: "string \<Rightarrow> string \<Rightarrow> main_window \<Rightarrow> main_window" where
  "onRegistrationSuccess nick token w =
     box Information ''Registration Success'' (qarg (qarg ''Registered as %1. Your token is: %2'' nick) token)
       (w\<lparr>tokenEdit := token\<rparr>)"

definition onRegistrationFailed :: "string \<Rightarrow> main_window \<Rightarrow> main_window" where
  "onRegistrationFailed error = box Critical ''Registration Failed'' error"

definition onErrorOccurred :: "string \<Rightarrow> main_window \<Rightarrow> main_window" where
  "onErrorOccurred error = box Critical ''Error'' error"

text \<open>
  The connections made in the constructor: each signal runs its slot; what is no signal is a call of the
  socket. \<open>now\<close> is the time as \<open>onMessageReceived\<close> formats it.
\<close>

definition dispatch :: "string \<Rightarrow> client_event \<Rightarrow> main_window \<Rightarrow> main_window" where
  "dispatch now ev w =
     (case ev of
        Connected \<Rightarrow> box Information ''Connected'' ''Connected to server successfully!'' w
      | Disconnected \<Rightarrow> box Information ''Disconnected'' ''Disconnected from server.'' w
      | LoginSuccess nick \<Rightarrow> onLoginSuccess nick w
      | LoginFailed e \<Rightarrow> onLoginFailed e w
      | RegistrationSuccess nick token \<Rightarrow> onRegistrationSuccess nick token w
      | RegistrationFailed e \<Rightarrow> onRegistrationFailed e w
      | MessageReceived sender text \<Rightarrow> onMessageReceived now sender text w
      | PrivateMessageReceived sender to text \<Rightarrow> onPrivateMessageReceived sender to text w
      | EncryptedMessageReceived sender to data \<Rightarrow> onEncryptedMessageReceived sender to data w
      | OnlineUsersReceived users \<Rightarrow> onOnlineUsersReceived users w
      | HelpReceived commands \<Rightarrow> onHelpReceived commands w
      | P2pConnectionInitiated target ok \<Rightarrow> onP2PConnectionInitiated target ok w
      | ErrorOccurred e \<Rightarrow> onErrorOccurred e w
      | _ \<Rightarrow> w\<lparr>mw_socket := mw_socket w @ [ev]\<rparr>)"

definition dispatch_all :: "string \<Rightarrow> client_event list \<Rightarrow> main_window \<Rightarrow> main_window" where
  "dispatch_all now evs w = fold (dispatch now) evs w"

text \<open>The socket has data: the client reads it and the window shows what it signals.\<close>

definition window_reads :: "(string \<Rightarrow> (string \<rightharpoonup> jvalue) option) \<Rightarrow> string \<Rightarrow> string \<Rightarrow> main_window \<Rightarrow> main_window" where
  "window_reads from_json now data w =
     (case onReadyRead from_json data (m_client w) of
        (c, evs, _) \<Rightarrow> dispatch_all now evs (w\<lparr>m_client := c\<rparr>))"

section \<open>Slots of the buttons\<close>

definition onConnectClicked :: "(string \<Rightarrow> int) \<Rightarrow> string \<Rightarrow> main_window \<Rightarrow> main_window" where
  "onConnectClicked to_int now w =
     (let host = hostEdit w; port = to_int (portEdit w) in
      if host = [] \<or> port = 0 then box Warning ''Error'' ''Please enter valid host and port.'' w
      else let (c, evs) = connectToServer host port (m_client w)
           in (dispatch_all now evs (w\<lparr>m_client := c\<rparr>))\<lparr>statusLabel := ''Connecting...''\<rparr>)"

definition onDisconnectClicked :: "string \<Rightarrow> main_window \<Rightarrow> main_window" where
  "onDisconnectClicked now w =
     (let (c, evs) = disconnectFromServer (m_client w)
      in (dispatch_all now evs (w\<lparr>m_client := c\<rparr>))\<lparr>statusLabel := ''Disconnected'', nickEdit := [], tokenEdit := [],
           messageEdit := [], chatArea := [], onlineUsersList := [], m_currentUser := []\<rparr>)"

definition onRegisterClicked :: "string \<Rightarrow> main_window \<Rightarrow> main_window" where
  "onRegisterClicked now w =
     (if nickEdit w = [] then box Warning ''Error'' ''Please enter a nickname.'' w
      else dispatch_all now (registerUser (nickEdit w) (m_client w)) w)"

definition onLoginClicked :: "string \<Rightarrow> main_window \<Rightarrow> main_window" where
  "onLoginClicked now w =
     (if nickEdit w = [] \<or> tokenEdit w = [] then box Warning ''Error'' ''Please enter nickname and token.'' w
      else dispatch_all now (loginUser (nickEdit w) (tokenEdit w) (m_client w)) w)"

definition onSendClicked :: "string \<Rightarrow> main_window \<Rightarrow> main_window" where
  "onSendClicked now w =
     (if messageEdit w = [] then box Warning ''Error'' ''Please enter a message.'' w
      else (dispatch_all now (sendMessage (messageEdit w) (m_client w)) w)\<lparr>messageEdit := []\<rparr>)"

definition onPrivateSendClicked :: "string \<Rightarrow> main_window \<Rightarrow> main_window" where
  "onPrivateSendClicked now w =
     (if toEdit w = [] \<or> messageEdit w = [] then box Warning ''Error'' ''Please enter recipient and message.'' w
      else (dispatch_all now (sendPrivateMessage (toEdit w) (messageEdit w) (m_client w)) w)\<lparr>messageEdit := []\<rparr>)"

definition onEncryptedSendClicked :: "string \<Rightarrow> main_window \<Rightarrow> main_window" where
  "onEncryptedSendClicked now w =
     (if toEdit w = [] \<or> messageEdit w = [] then box Warning ''Error'' ''Please enter recipient and message.'' w
      else (dispatch_all now (sendEncryptedMessage (toEdit w) (messageEdit w) (m_client w)) w)\<lparr>messageEdit := []\<rparr>)"

definition onOnlineClicked :: "string \<Rightarrow> main_window \<Rightarrow> main_window" where
  "onOnlineClicked now w = dispatch_all now (requestOnlineUsers (m_client w)) w"

definition onHelpClicked :: "string \<Rightarrow> main_window \<Rightarrow> main_window" where
  "onHelpClicked now w = dispatch_all now (requestHelp (m_client w)) w"

definition onP2PConnectClicked :: "string \<Rightarrow> main_window \<Rightarrow> main_window" where
  "onP2PConnectClicked now w =
     (if toEdit w = [] then box Warning ''Error'' ''Please enter target user.'' w
      else dispatch_all now (p2pConnect (toEdit w) (m_client w)) w)"

section \<open>What the properties speak of\<close>

definition demo_window :: main_window where
  "demo_window = \<lparr>hostEdit = ''localhost'', portEdit = ''5555'', nickEdit = ''ann'', tokenEdit = [], messageEdit = ''hi<!'',
     toEdit = ''bob'', statusLabel = [], chatArea = [], onlineUsersList = [], m_currentUser = [],
     m_client = demo_chat_client, mw_boxes = [], mw_socket = []\<rparr>"

section \<open>Lemmas\<close>

lemma dispatch_all_simps [simp]:
  "dispatch_all now [] w = w" "dispatch_all now (e # es) w = dispatch_all now es (dispatch now e w)"
  by (simp_all add: dispatch_all_def)

lemma box_fields [simp]:
  "nickEdit (box k t m w) = nickEdit w" "tokenEdit (box k t m w) = tokenEdit w" "m_client (box k t m w) = m_client w"
  "chatArea (box k t m w) = chatArea w" "mw_socket (box k t m w) = mw_socket w" "messageEdit (box k t m w) = messageEdit w"
  by (simp_all add: box_def)

lemma place_marker_digit:
  "s = [] \<or> \<not> is_digit (hd s) \<Longrightarrow> d < 10 \<Longrightarrow> place_marker (''0123456789'' ! d # s) = Some (d, s)"
proof -
  assume s: "s = [] \<or> \<not> is_digit (hd s)" and d: "d < 10"
  then have "is_digit (''0123456789'' ! d)" "digit_value (''0123456789'' ! d) = d"
    using digit_table by (simp_all add: list_all_iff)
  moreover from this have "''0123456789'' ! d \<noteq> CHR ''L''" by (auto simp: is_digit_def)
  ultimately show ?thesis using s by (auto simp: place_marker_def Let_def)
qed

lemma marker_texts [simp]:
  "place_marker (CHR ''1'' # '' to %2] %3'') = Some (1, '' to %2] %3'')" "place_marker (CHR ''2'' # ''] %3'') = Some (2, ''] %3'')"
  "place_marker ''3'' = Some (3, [])"
  using place_marker_digit [of "'' to %2] %3''" 1] place_marker_digit [of "''] %3''" 2] place_marker_digit [of "[]" 3]
  by (simp_all add: is_digit_def)

lemma private_format:
  assumes "CHR ''%'' \<notin> set a" "CHR ''%'' \<notin> set b"
  shows "qarg (qarg (qarg ''[PRIVATE from %1 to %2] %3'' a) b) m = ''[PRIVATE from '' @ a @ '' to '' @ b @ ''] '' @ m"
proof -
  have split: "''[PRIVATE from %1 to %2] %3'' = ''[PRIVATE from '' @ ''%1 to %2] %3''" by simp
  let ?p = "''[PRIVATE from '' @ a @ '' to ''" and ?q = "''[PRIVATE from '' @ a @ '' to '' @ b @ ''] ''"
  have free: "CHR ''%'' \<notin> set ''[PRIVATE from ''" "CHR ''%'' \<notin> set ?p" "CHR ''%'' \<notin> set ?q" using assms by simp_all
  have "qarg ''[PRIVATE from %1 to %2] %3'' a = ?p @ ''%2] %3''"
    unfolding split qarg_def lowest_marker_append [OF free(1)] replace_marker_append [OF free(1)] by simp
  moreover have "qarg (?p @ ''%2] %3'') b = ?q @ ''%3''"
    unfolding qarg_def lowest_marker_append [OF free(2)] replace_marker_append [OF free(2)] by simp
  moreover have "qarg (?q @ ''%3'') m = ?q @ m"
    unfolding qarg_def lowest_marker_append [OF free(3)] replace_marker_append [OF free(3)] by simp
  ultimately show ?thesis by simp
qed

lemma private_send_writes:
  assumes "m_socket (m_client w) = ConnectedState" "toEdit w \<noteq> []" "messageEdit w \<noteq> []" "CHR ''%'' \<notin> set (toEdit w)"
  shows "mw_socket (onPrivateSendClicked now w) = mw_socket w @ [Write (''/msg '' @ toEdit w @ CHR '' '' # messageEdit w @ [NL])]"
  using assms by (simp add: onPrivateSendClicked_def command_lines write_command_def dispatch_def)

lemma window_reads_private:
  assumes "json_reader f" "plain a" "plain b" "plain m" "CHR ''%'' \<notin> set a" "CHR ''%'' \<notin> set b"
  shows "chatArea (window_reads f now (json_private a b m) w) =
    chatArea w @ [''[PRIVATE from '' @ a @ '' to '' @ b @ ''] '' @ m]"
  using assms by (simp add: window_reads_def ready_private dispatch_def onPrivateMessageReceived_def private_format)

lemma ready_registered:
  "json_reader f \<Longrightarrow> plain a \<Longrightarrow> plain t \<Longrightarrow>
   onReadyRead f (json_registered a t l) c = (c, [RegistrationSuccess a t], [])"
  by (simp add: frames_json ready_frame plain_members_def on_object_def str_of_def)

section \<open>Properties\<close>

text \<open>
  Registering and logging in with two clicks: on a connected window, pressing Register, reading the answer of
  the server to that nickname and pressing Login writes exactly the registration line and then the login line with
  the token of that answer, which the window put into its token field; no error box is shown.
\<close>

theorem window_registers_then_logs_in:
  assumes "json_reader f" "m_socket (m_client w) = ConnectedState" "plain (nickEdit w)" "nickEdit w \<noteq> []"
    "CHR ''%'' \<notin> set (nickEdit w)" "plain token" "token \<noteq> []"
    "w' = onLoginClicked now (window_reads f now (json_registered (nickEdit w) token level) (onRegisterClicked now w))"
  shows "mw_socket w' = mw_socket w @ [Write (''/register '' @ nickEdit w @ [NL]),
      Write (''/login '' @ nickEdit w @ CHR '' '' # token @ [NL])] \<and>
    tokenEdit w' = token \<and> map fst (mw_boxes w') = map fst (mw_boxes w) @ [Information]"
proof -
  let ?w1 = "onRegisterClicked now w"
  have w1: "?w1 = w\<lparr>mw_socket := mw_socket w @ [Write (''/register '' @ nickEdit w @ [NL])]\<rparr>"
    using assms(2,4,5) by (simp add: onRegisterClicked_def command_lines [of "nickEdit w"] write_command_def dispatch_def)
  have w2: "window_reads f now (json_registered (nickEdit w) token level) ?w1 = onRegistrationSuccess (nickEdit w) token ?w1"
    using ready_registered [OF assms(1,3,6)] by (simp add: window_reads_def dispatch_def w1)
  have "w' = onLoginClicked now (onRegistrationSuccess (nickEdit w) token ?w1)" using assms(8) w2 by (simp only:)
  then show ?thesis
    using assms(2,4,5,7) unfolding w1
    by (simp add: onLoginClicked_def onRegistrationSuccess_def command_lines write_command_def dispatch_def)
       (simp add: box_def)
qed

theorem window_registers_then_logs_in_witness:
  "mw_socket (onLoginClicked ''12:00'' (window_reads flat_json ''12:00'' (json_registered ''ann'' ''abc'' 1)
     (onRegisterClicked ''12:00'' demo_window))) = [Write (''/register ann'' @ [NL]), Write (''/login ann abc'' @ [NL])]"
  using window_registers_then_logs_in [OF flat.json_reader_axioms, of demo_window "''abc''" _ "''12:00''" 1]
  by (simp add: demo_window_def demo_chat_client_def plain_def isprint_def)

end
