(* ===== verification/Chat_Gui.thy ===== *)
theory Chat_Gui
  imports Chat_Window
begin

text \<open>
  The graphical client as a program that reacts to events: the constructors of \<^verbatim>\<open>ChatClient\<close> and
  \<^verbatim>\<open>MainWindow\<close> with the connections they make, and the step relation of what can happen to the window: a button
  is pressed, a field is edited, the socket moves to another state or signals, the timer fires. Qt decides when the socket
  changes its state and what it delivers.
\<close>

section \<open>Constructors and connections\<close>

definition ChatClient_init :: chat_client where
  "ChatClient_init = \<lparr>m_socket = UnconnectedState, m_timeoutTimer = False, m_loggedIn = False, m_nick = [], m_token = [],
     m_host = [], m_port = 0\<rparr>"

text \<open>\<open>host\<close>, \<open>port\<close>, \<open>status\<close>: what the form file puts into the widgets.\<close>

definition MainWindow_init :: "string \<Rightarrow> string \<Rightarrow> string \<Rightarrow> main_window" where
  "MainWindow_init host port status = \<lparr>hostEdit = host, portEdit = port, nickEdit = [], tokenEdit = [], messageEdit = [],
     toEdit = [], statusLabel = status, chatArea = [], onlineUsersList = [], m_currentUser = [], m_client = ChatClient_init,
     mw_boxes = [], mw_socket = []\<rparr>"

datatype button = ConnectButton | DisconnectButton | RegisterButton | LoginButton | SendButton | PrivateSendButton
  | EncryptedSendButton | OnlineButton | HelpButton | P2pConnectButton

fun clicked :: "(string \<Rightarrow> int) \<Rightarrow> string \<Rightarrow> button \<Rightarrow> main_window \<Rightarrow> main_window" where
  "clicked to_int now ConnectButton = onConnectClicked to_int now"
| "clicked to_int now DisconnectButton = onDisconnectClicked now"
| "clicked to_int now RegisterButton = onRegisterClicked now"
| "clicked to_int now LoginButton = onLoginClicked now"
| "clicked to_int now SendButton = onSendClicked now"
| "clicked to_int now PrivateSendButton = onPrivateSendClicked now"
| "clicked to_int now EncryptedSendButton = onEncryptedSendClicked now"
| "clicked to_int now OnlineButton = onOnlineClicked now"
| "clicked to_int now HelpButton = onHelpClicked now"
| "clicked to_int now P2pConnectButton = onP2PConnectClicked now"

datatype socket_signal = Socket_connected | Socket_disconnected | Socket_error string | Timer_timeout

fun client_slot :: "socket_signal \<Rightarrow> chat_client \<Rightarrow> chat_client \<times> client_event list" where
  "client_slot Socket_connected = onConnected"
| "client_slot Socket_disconnected = onDisconnected"
| "client_slot (Socket_error e) = onError e"
| "client_slot Timer_timeout = onTimeout"

definition signalled_window :: "string \<Rightarrow> socket_signal \<Rightarrow> main_window \<Rightarrow> main_window" where
  "signalled_window now sg w = (case client_slot sg (m_client w) of (c, evs) \<Rightarrow> dispatch_all now evs (w\<lparr>m_client := c\<rparr>))"

section \<open>Steps\<close>

text \<open>
  When Qt emits a signal: \<^verbatim>\<open>connected\<close> and \<^verbatim>\<open>disconnected\<close> in the state they name, \<^verbatim>\<open>timeout\<close> of a timer that
  was started and not stopped (it fires again and again, since it is not a single shot).
\<close>

fun signal_possible :: "socket_signal \<Rightarrow> chat_client \<Rightarrow> bool" where
  "signal_possible Socket_connected c = (m_socket c = ConnectedState)"
| "signal_possible Socket_disconnected c = (m_socket c = UnconnectedState)"
| "signal_possible (Socket_error e) c = True"
| "signal_possible Timer_timeout c = m_timeoutTimer c"

datatype gui_event = Pressed button | Edited main_window | Moved socket_state | Signalled socket_signal | Data string

text \<open>The fields the user can edit.\<close>

definition same_but_fields :: "main_window \<Rightarrow> main_window \<Rightarrow> bool" where
  "same_but_fields w w' = (w' = w\<lparr>hostEdit := hostEdit w', portEdit := portEdit w', nickEdit := nickEdit w',
     tokenEdit := tokenEdit w', messageEdit := messageEdit w', toEdit := toEdit w'\<rparr>)"

inductive gui_step :: "(string \<Rightarrow> int) \<Rightarrow> (string \<Rightarrow> (string \<rightharpoonup> jvalue) option) \<Rightarrow> gui_event \<Rightarrow> main_window \<Rightarrow> main_window \<Rightarrow> bool"
  for to_int f where
  press: "gui_step to_int f (Pressed b) w (clicked to_int now b w)"
| edit: "same_but_fields w w' \<Longrightarrow> gui_step to_int f (Edited w') w w'"
| move: "gui_step to_int f (Moved s) w (w\<lparr>m_client := (m_client w)\<lparr>m_socket := s\<rparr>\<rparr>)"
| signal: "signal_possible sg (m_client w) \<Longrightarrow> gui_step to_int f (Signalled sg) w (signalled_window now sg w)"
| data: "gui_step to_int f (Data d) w (window_reads f now d w)"

inductive gui_reachable :: "(string \<Rightarrow> int) \<Rightarrow> (string \<Rightarrow> (string \<rightharpoonup> jvalue) option) \<Rightarrow> main_window \<Rightarrow> main_window \<Rightarrow> bool"
  for to_int f w where
  start: "gui_reachable to_int f w w"
| more: "gui_reachable to_int f w v \<Longrightarrow> gui_step to_int f e v u \<Longrightarrow> gui_reachable to_int f w u"

section \<open>What the properties speak of\<close>

text \<open>While the client is logged in the window knows as whom; no token is kept; a client that is not logged in has no name.\<close>

definition gui_ok :: "main_window \<Rightarrow> bool" where
  "gui_ok w = (m_token (m_client w) = [] \<and> (if m_loggedIn (m_client w) then m_currentUser w = m_nick (m_client w)
     else m_nick (m_client w) = []))"

definition is_write :: "client_event \<Rightarrow> bool" where
  "is_write ev = (case ev of Write _ \<Rightarrow> True | _ \<Rightarrow> False)"

definition is_signal :: "client_event \<Rightarrow> bool" where
  "is_signal ev = (case ev of Connect_encrypted _ _ \<Rightarrow> False | Disconnect_from_host \<Rightarrow> False | Abort \<Rightarrow> False | Write _ \<Rightarrow> False | _ \<Rightarrow> True)"

text \<open>The timer fires, once at each of the given times.\<close>

fun timeouts :: "string list \<Rightarrow> main_window \<Rightarrow> main_window" where
  "timeouts [] w = w"
| "timeouts (now # ts) w = timeouts ts (signalled_window now Timer_timeout w)"

section \<open>Lemmas\<close>

lemmas slot_defs = dispatch_def onMessageReceived_def onPrivateMessageReceived_def onEncryptedMessageReceived_def
  onOnlineUsersReceived_def onHelpReceived_def onP2PConnectionInitiated_def onLoginSuccess_def onLoginFailed_def
  onRegistrationSuccess_def onRegistrationFailed_def onErrorOccurred_def box_def

lemma dispatch_parts:
  "m_client (dispatch now ev w) = m_client w"
  "m_currentUser (dispatch now ev w) = (case ev of LoginSuccess n \<Rightarrow> n | _ \<Rightarrow> m_currentUser w)"
  "mw_socket (dispatch now ev w) = mw_socket w @ (if is_signal ev then [] else [ev])"
  "dispatch now ev (w\<lparr>m_client := c\<rparr>) = (dispatch now ev w)\<lparr>m_client := c\<rparr>"
  by (simp_all add: slot_defs is_signal_def split: client_event.split)

lemma dispatch_all_client [simp]: "m_client (dispatch_all now evs w) = m_client w"
  by (induction evs arbitrary: w) (simp_all add: dispatch_parts)

lemma dispatch_all_update: "dispatch_all now evs (w\<lparr>m_client := c\<rparr>) = (dispatch_all now evs w)\<lparr>m_client := c\<rparr>"
  by (induction evs arbitrary: w) (simp_all add: dispatch_parts)

lemma dispatch_all_append: "dispatch_all now (es @ fs) w = dispatch_all now fs (dispatch_all now es w)"
  by (simp add: dispatch_all_def)

lemma dispatch_all_socket: "mw_socket (dispatch_all now evs w) = mw_socket w @ filter (\<lambda>ev. \<not> is_signal ev) evs"
  by (induction evs arbitrary: w) (simp_all add: dispatch_parts)

lemma dispatch_all_user: "list_all (\<lambda>ev. \<forall>n. ev \<noteq> LoginSuccess n) evs \<Longrightarrow> m_currentUser (dispatch_all now evs w) = m_currentUser w"
  by (induction evs arbitrary: w) (auto simp: dispatch_parts split: client_event.split)

lemma on_line_parts:
  assumes "on_line f l c = (c', evs)"
  shows "gui_ok (w\<lparr>m_client := c\<rparr>) \<Longrightarrow> gui_ok (dispatch_all now evs (w\<lparr>m_client := c'\<rparr>))"
    "list_all is_signal evs" "m_socket c' = m_socket c"
  using assms
  by (auto simp: on_line_def on_object_def Let_def gui_ok_def dispatch_parts is_signal_def split: if_splits option.splits)

lemma read_parts:
  assumes "onReadyRead f d c = (c', evs, rest)"
  shows "gui_ok (w\<lparr>m_client := c\<rparr>) \<Longrightarrow> gui_ok (dispatch_all now evs (w\<lparr>m_client := c'\<rparr>))"
    "list_all is_signal evs" "m_socket c' = m_socket c"
proof -
  have "(gui_ok (w\<lparr>m_client := c\<rparr>) \<longrightarrow> gui_ok (dispatch_all now evs (w\<lparr>m_client := c'\<rparr>))) \<and>
      list_all is_signal evs \<and> m_socket c' = m_socket c"
    using assms
  proof (induction f d c arbitrary: w c' evs rest rule: onReadyRead.induct)
    case (1 f d c)
    show ?case
    proof (cases "NL \<in> set d")
      case True
      let ?line = "takeWhile (\<lambda>x. x \<noteq> NL) d @ [NL]"
      obtain c1 ev1 where l: "on_line f ?line c = (c1, ev1)" by fastforce
      obtain c2 ev2 r where r: "onReadyRead f (drop (length ?line) d) c1 = (c2, ev2, r)" by (metis prod_cases3)
      have res: "c' = c2" "evs = ev1 @ ev2"
        using "1.prems" True l r onReadyRead.simps [of f d c] by (simp_all add: Let_def)
      note IH = "1.IH" [OF True refl l [symmetric] refl r]
      let ?v = "dispatch_all now ev1 (w\<lparr>m_client := c1\<rparr>)"
      have v: "?v\<lparr>m_client := c1\<rparr> = ?v" "dispatch_all now evs (w\<lparr>m_client := c'\<rparr>) = dispatch_all now ev2 (?v\<lparr>m_client := c2\<rparr>)"
        by (simp_all add: res dispatch_all_append dispatch_all_update)
      have "gui_ok ?v \<longrightarrow> gui_ok (dispatch_all now ev2 (?v\<lparr>m_client := c2\<rparr>))" using IH [of ?v] unfolding v(1) by blast
      then show ?thesis
        using IH on_line_parts(1) [OF l, of w now] on_line_parts(2,3) [OF l] res unfolding v(2) by auto
    next
      case False
      then show ?thesis using "1.prems" onReadyRead.simps [of f d c] by simp
    qed
  qed
  then show "gui_ok (w\<lparr>m_client := c\<rparr>) \<Longrightarrow> gui_ok (dispatch_all now evs (w\<lparr>m_client := c'\<rparr>))"
    "list_all is_signal evs" "m_socket c' = m_socket c" by blast+
qed

lemmas command_defs = registerUser_def loginUser_def sendMessage_def sendPrivateMessage_def sendEncryptedMessage_def
  requestOnlineUsers_def requestHelp_def p2pConnect_def write_command_def

lemmas click_defs = onConnectClicked_def onDisconnectClicked_def onRegisterClicked_def onLoginClicked_def onSendClicked_def
  onPrivateSendClicked_def onEncryptedSendClicked_def onOnlineClicked_def onHelpClicked_def onP2PConnectClicked_def

lemma clicked_ok: "gui_ok w \<Longrightarrow> gui_ok (clicked to_int now b w)"
  by (cases b) (auto simp: click_defs command_defs connectToServer_def disconnectFromServer_def gui_ok_def
      dispatch_parts box_def Let_def)

lemma clicked_writes: "m_socket (m_client w) \<noteq> ConnectedState \<Longrightarrow> filter is_write (mw_socket (clicked to_int now b w)) = filter is_write (mw_socket w)"
  by (cases b) (auto simp: click_defs command_defs connectToServer_def disconnectFromServer_def dispatch_parts box_def
      Let_def is_write_def is_signal_def)

lemma signalled_ok: "gui_ok w \<Longrightarrow> gui_ok (signalled_window now sg w)"
  by (cases sg) (auto simp: signalled_window_def onConnected_def onDisconnected_def onError_def onTimeout_def gui_ok_def dispatch_parts)

lemma signalled_writes: "filter is_write (mw_socket (signalled_window now sg w)) = filter is_write (mw_socket w)"
  by (cases sg) (auto simp: signalled_window_def onConnected_def onDisconnected_def onError_def onTimeout_def dispatch_parts
      is_write_def is_signal_def)

lemma same_fields:
  "same_but_fields w w' \<Longrightarrow> m_client w' = m_client w \<and> m_currentUser w' = m_currentUser w \<and> mw_socket w' = mw_socket w"
  by (cases w, cases w') (simp add: same_but_fields_def)

lemma gui_step_ok: "gui_step to_int f e w w' \<Longrightarrow> gui_ok w \<Longrightarrow> gui_ok w'"
proof (induction rule: gui_step.induct)
  case (edit w w')
  with same_fields [of w w'] show ?case by (simp add: gui_ok_def)
next
  case (data d w now)
  obtain c evs r where "onReadyRead f d (m_client w) = (c, evs, r)" by (metis prod_cases3)
  from read_parts(1) [OF this, of w now] data this show ?case by (simp add: window_reads_def)
next
  case (move s w)
  then show ?case by (simp add: gui_ok_def)
qed (simp_all add: clicked_ok signalled_ok)

lemma gui_step_writes:
  "gui_step to_int f e w w' \<Longrightarrow> m_socket (m_client w) \<noteq> ConnectedState \<Longrightarrow> filter is_write (mw_socket w') = filter is_write (mw_socket w)"
proof (induction rule: gui_step.induct)
  case (edit w w')
  with same_fields [of w w'] show ?case by simp
next
  case (data d w now)
  obtain c evs r where r: "onReadyRead f d (m_client w) = (c, evs, r)" by (metis prod_cases3)
  from read_parts(2) [OF this] have "filter (\<lambda>ev. \<not> is_signal ev) evs = []" by (simp add: list_all_iff filter_empty_conv)
  with r show ?case by (simp add: window_reads_def dispatch_all_socket)
qed (auto simp: clicked_writes signalled_writes)

lemma gui_reachable_ok: "gui_reachable to_int f w v \<Longrightarrow> gui_ok w \<Longrightarrow> gui_ok v"
  by (induction rule: gui_reachable.induct) (auto simp: gui_step_ok)

lemma gui_init_ok: "gui_ok (MainWindow_init host port status)"
  by (simp add: gui_ok_def MainWindow_init_def ChatClient_init_def)

lemma timeout_window:
  "m_socket (m_client w) \<noteq> ConnectedState \<Longrightarrow> signalled_window now Timer_timeout w =
     w\<lparr>mw_boxes := mw_boxes w @ [(Critical, ''Error'', ''Connection timeout'')], mw_socket := mw_socket w @ [Abort]\<rparr>"
  by (simp add: signalled_window_def onTimeout_def dispatch_def onErrorOccurred_def box_def)

section \<open>Properties\<close>

text \<open>
  C30. Whatever the user clicks and types and whatever the network does, in every state the graphical client can reach
  from its start: while it is logged in, the window knows it under the name the server confirmed; a client that is
  not logged in has no name; no token is ever kept in the client. And no step writes to the socket unless it is
  connected.
\<close>

theorem gui_invariant:
  assumes "gui_reachable to_int f (MainWindow_init host port status) w"
  shows "gui_ok w \<and> (\<forall>e w'. gui_step to_int f e w w' \<and> m_socket (m_client w) \<noteq> ConnectedState \<longrightarrow>
    filter is_write (mw_socket w') = filter is_write (mw_socket w))"
  using gui_reachable_ok [OF assms gui_init_ok] gui_step_writes by blast

theorem gui_invariant_witness:
  "gui_ok (clicked (\<lambda>_. 5555) ''12:00'' OnlineButton (MainWindow_init ''localhost'' ''5555'' []))"
proof -
  have "gui_reachable (\<lambda>_. 5555) flat_json (MainWindow_init ''localhost'' ''5555'' [])
      (clicked (\<lambda>_. 5555) ''12:00'' OnlineButton (MainWindow_init ''localhost'' ''5555'' []))"
    by (rule gui_reachable.more [OF gui_reachable.start gui_step.press])
  then show ?thesis using gui_invariant by blast
qed

text \<open>
  A lost connection leaves the window as it was: when the server closes the connection the client is logged out,
  but the status line and the current user of the window stay those of the login.
\<close>

theorem lost_connection_unnoticed:
  assumes "m_loggedIn (m_client w)" "w' = signalled_window now Socket_disconnected w"
  shows "\<not> m_loggedIn (m_client w') \<and> m_nick (m_client w') = [] \<and> statusLabel w' = statusLabel w \<and> m_currentUser w' = m_currentUser w"
  using assms by (simp add: signalled_window_def onDisconnected_def dispatch_def box_def)

theorem lost_connection_unnoticed_witness:
  "m_currentUser (signalled_window ''12:00'' Socket_disconnected (demo_window\<lparr>m_currentUser := ''ann''\<rparr>)) = ''ann''"
  using lost_connection_unnoticed [OF _ refl, of "demo_window\<lparr>m_currentUser := ''ann''\<rparr>" "''12:00''"]
  by (simp add: demo_window_def demo_chat_client_def)

text \<open>
  A connection that cannot be made is reported over and over: the timer started with the attempt is not a single shot
  and nothing stops it when it fires, so every further period shows one more error box and the timer stays armed.
\<close>

theorem timeouts_repeat:
  assumes "m_socket (m_client w) \<noteq> ConnectedState" "m_timeoutTimer (m_client w)"
  shows "signal_possible Timer_timeout (m_client (timeouts nows w)) \<and>
    mw_boxes (timeouts nows w) = mw_boxes w @ replicate (length nows) (Critical, ''Error'', ''Connection timeout'')"
  using assms
proof (induction nows arbitrary: w)
  case (Cons now nows)
  then show ?case
    using Cons.IH [of "signalled_window now Timer_timeout w"] by (simp add: timeout_window replicate_app_Cons_same [symmetric])
qed simp

theorem timeouts_repeat_witness:
  "length (mw_boxes (timeouts [''12:00:10'', ''12:00:20''] (clicked (\<lambda>_. 5555) ''12:00:00'' ConnectButton (MainWindow_init ''h'' ''5555'' [])))) = 2"
proof -
  let ?w = "clicked (\<lambda>_. 5555) ''12:00:00'' ConnectButton (MainWindow_init ''h'' ''5555'' [])"
  have w: "m_socket (m_client ?w) \<noteq> ConnectedState" "m_timeoutTimer (m_client ?w)" "mw_boxes ?w = []"
    by (simp_all add: onConnectClicked_def connectToServer_def MainWindow_init_def ChatClient_init_def dispatch_def Let_def)
  from timeouts_repeat [OF w(1,2), of "[''12:00:10'', ''12:00:20'']"] show ?thesis
    by (simp only: w(3) list.size append_Nil length_replicate)
qed

end
