(* ===== verification/Chat_Paths.thy ===== *)
theory Chat_Paths
  imports Chat_Gui
begin

text \<open>
  Messages from window to window: the graphical client (\<^verbatim>\<open>src/src/assets\<close>) and the server (\<^verbatim>\<open>src/src/server.c\<close>)
  together. A line of the socket is read by a turn of a session, run as a command and written as frames, which other
  clients read line by line. Within the limits of the buffers, and for one line at a time, a message arrives with
  its text and its sender; two lines in one piece and a text that is too long show where the framing by newlines gives way.
\<close>

section \<open>What the properties speak of\<close>

text \<open>A logged-in user in a slot, and a turn of its session that receives a line.\<close>

definition user_at :: "'db world \<Rightarrow> nat \<Rightarrow> string \<Rightarrow> bool" where
  "user_at w i nick = (s_running (w_srv w) \<and> i < length (s_clients (w_srv w)) \<and> 0 \<le> c_fd (client w i) \<and>
     c_authorized (client w i) \<and> cstr (c_nick (client w i)) = nick \<and> validate_nickname nick \<and> length nick \<le> 31)"

definition receives :: "turn \<Rightarrow> secure_client_t \<Rightarrow> string \<Rightarrow> bool" where
  "receives t c line = (0 \<le> tn_fd t \<and> 0 < tn_selected t \<and> reads_ok (tn_reads t) 8191 \<and> Read_end \<in> set (tn_reads t) \<and>
     line_chunks (tn_reads t) 8191 = line @ [NL] \<and> is_cstr line \<and> fst (limit_request (tn_now t) (c_rate_limit c)))"

text \<open>The writes of a broadcast, and a line of the chat area.\<close>

definition broadcast_writes :: "'db world \<Rightarrow> string \<Rightarrow> event list" where
  "broadcast_writes w frame = map (\<lambda>c. Ssl_safe_write (c_ssl c) frame) (filter reachable_client (s_clients (w_srv w)))"

definition chat_line :: "string \<Rightarrow> string \<Rightarrow> string \<Rightarrow> string" where
  "chat_line now sender text = ''['' @ now @ ''] '' @ sender @ '': '' @ text"

definition names_sender :: "string \<Rightarrow> client_event \<Rightarrow> bool" where
  "names_sender from ev = (case ev of MessageReceived s _ \<Rightarrow> s = from | PrivateMessageReceived s _ _ \<Rightarrow> s = from | _ \<Rightarrow> False)"

text \<open>
  A write is to the user's own connection, or carries a frame that the client which gets it reads as messages of
  that user.
\<close>

definition speaks_for :: "(string \<Rightarrow> (string \<rightharpoonup> jvalue) option) \<Rightarrow> string \<Rightarrow> nat option \<Rightarrow> event \<Rightarrow> bool" where
  "speaks_for f from own e = (case e of
     Ssl_safe_write h frame \<Rightarrow> h = own \<or>
       (\<forall>c. \<exists>evs. onReadyRead f frame c = (c, evs, []) \<and> list_all (names_sender from) evs)
   | _ \<Rightarrow> True)"

text \<open>A text that the client takes for a line of its own: it is trimmed to itself and does not look like JSON.\<close>

definition loose_line :: "string \<Rightarrow> bool" where
  "loose_line l = (l \<noteq> [] \<and> NL \<notin> set l \<and> \<not> isspace (hd l) \<and> \<not> isspace (last l) \<and> hd l \<noteq> CHR ''{'')"

text \<open>A line the server passes on unchanged and the client takes for a line of its own.\<close>

definition safe_line :: "string \<Rightarrow> bool" where
  "safe_line l = (loose_line l \<and> list_all (\<lambda>c. isprint c \<and> \<not> unsafe_char c) l)"

definition message_head :: "string \<Rightarrow> string" where
  \<open>message_head a = ''{"type":"message","from":"'' @ a @ ''","text":"''\<close>

definition lines_text :: "string list \<Rightarrow> string" where
  "lines_text ls = concat (map (\<lambda>l. l @ [NL]) ls)"

text \<open>Two users online, and turns of the loop to evaluate.\<close>

definition chat_world :: "tables world" where
  "chat_world = demo_world\<lparr>w_srv := server_init\<lparr>s_running := True, s_clients := [one_client 5 ''ann'', one_client 6 ''bob'']\<rparr>\<rparr>"

definition chat_turn :: "string list \<Rightarrow> turn" where
  "chat_turn chunks = demo_turn\<lparr>tn_reads := map Got chunks @ [Read_end]\<rparr>"

section \<open>A turn that receives a line\<close>

lemma turn_runs_command:
  assumes "user_at w i nick" "receives t (client w i) l" "length buffer = 8192"
    "filter (\<lambda>c. \<not> unsafe_char c) l = m" "m \<noteq> []" "hd m \<noteq> NL"
  shows "\<exists>buffer' c1. session_turn E i ip t buffer w =
      Some (map_sum id (\<lambda>w'. (Continue, buffer', w')) (process_client_command E (tn_cmd t) i m ip (set_client i c1 w))) \<and>
    c_nick c1 = c_nick (client w i) \<and> c_authorized c1 \<and> c_ssl c1 = c_ssl (client w i) \<and> c_fd c1 = c_fd (client w i)"
proof -
  obtain rl where rl: "limit_request (tn_now t) (c_rate_limit (client w i)) = (True, rl)"
    using assms(2) by (cases "limit_request (tn_now t) (c_rate_limit (client w i))") (auto simp: receives_def)
  let ?c1 = "(client w i)\<lparr>c_last_activity := tn_activity_now t, c_rate_limit := rl\<rparr>"
  obtain buffer' where "session_turn E i ip t buffer w =
      Some (map_sum id (\<lambda>w'. (Continue, buffer', w')) (process_client_command E (tn_cmd t) i m ip (set_client i ?c1 w)))"
    using session_turn_runs [of w i t buffer l m rl E ip] assms rl by (auto simp: user_at_def receives_def)
  with assms(1) show ?thesis by (intro exI [of _ buffer'] exI [of _ ?c1]) (simp add: user_at_def)
qed

lemma reachable_writes:
  assumes "i < length cs" "c_ssl c = c_ssl (cs ! i)" "reachable_client c = reachable_client (cs ! i)"
  shows "map (\<lambda>c. Ssl_safe_write (c_ssl c) x) (filter reachable_client (cs[i := c])) =
    map (\<lambda>c. Ssl_safe_write (c_ssl c) x) (filter reachable_client cs)"
  using assms
proof (induction cs arbitrary: i)
  case (Cons d cs)
  then show ?case by (cases i) auto
qed simp

lemma turn_broadcasts:
  assumes "user_at w i from" "receives t (client w i) l" "length buffer = 8192"
    "filter (\<lambda>c. \<not> unsafe_char c) l = m" "m \<noteq> []" "hd m \<noteq> NL" "hd m \<noteq> CHR ''/''"
  shows "\<exists>buffer' w'. session_turn E i ip t buffer w = Some (Inr (Continue, buffer', w')) \<and>
    w_trace w' = w_trace w @ broadcast_writes w (snprintf BUFFER_SIZE (json_message from m))"
proof -
  obtain buffer' c1 where turn: "session_turn E i ip t buffer w =
      Some (map_sum id (\<lambda>w'. (Continue, buffer', w')) (process_client_command E (tn_cmd t) i m ip (set_client i c1 w)))"
    and c1: "c_nick c1 = c_nick (client w i)" "c_authorized c1" "c_ssl c1 = c_ssl (client w i)" "c_fd c1 = c_fd (client w i)"
    using turn_runs_command [OF assms(1-6)] by blast
  have i: "i < length (s_clients (w_srv w))" "c_authorized (client w i)" "cstr (c_nick (client w i)) = from"
    using assms(1) by (simp_all add: user_at_def)
  obtain x u where m: "m = x # u" "x \<noteq> CHR ''/''" using assms(5,7) by (cases m) auto
  have "process_client_command E (tn_cmd t) i m ip (set_client i c1 w) = Inr (broadcast_message E from m (set_client i c1 w))"
    using i c1(1,2) m assms(5)
    by (simp add: process_client_command_def handle_authorized_commands_def strncmp_eq_def validate_message_iff)
  moreover have "w_trace (broadcast_message E from m (set_client i c1 w)) =
      w_trace w @ broadcast_writes w (snprintf BUFFER_SIZE (json_message from m))"
    using reachable_writes [OF i(1), of c1] c1 i
    by (simp add: broadcast_message_def broadcast_loop_eq broadcast_writes_def Let_def reachable_client_def)
  ultimately show ?thesis using turn by auto
qed

section \<open>What a window shows\<close>

lemma message_markers [simp]:
  "place_marker (CHR ''1'' # ''] %2: %3'') = Some (1, ''] %2: %3'')" "place_marker (CHR ''2'' # '': %3'') = Some (2, '': %3'')"
  using place_marker_digit [of "''] %2: %3''" 1] place_marker_digit [of "'': %3''" 2] by (simp_all add: is_digit_def)

lemma message_format:
  assumes "CHR ''%'' \<notin> set now" "CHR ''%'' \<notin> set a"
  shows "qarg (qarg (qarg ''[%1] %2: %3'' now) a) m = chat_line now a m"
proof -
  let ?p = "''['' @ now @ ''] ''" and ?q = "''['' @ now @ ''] '' @ a @ '': ''"
  have free: "CHR ''%'' \<notin> set ''[''" "CHR ''%'' \<notin> set ?p" "CHR ''%'' \<notin> set ?q" using assms by simp_all
  have split: "''[%1] %2: %3'' = ''['' @ ''%1] %2: %3''" by simp
  have "qarg ''[%1] %2: %3'' now = ?p @ ''%2: %3''"
    unfolding split qarg_def lowest_marker_append [OF free(1)] replace_marker_append [OF free(1)] by simp
  moreover have "qarg (?p @ ''%2: %3'') a = ?q @ ''%3''"
    unfolding qarg_def lowest_marker_append [OF free(2)] replace_marker_append [OF free(2)] by simp
  moreover have "qarg (?q @ ''%3'') m = ?q @ m"
    unfolding qarg_def lowest_marker_append [OF free(3)] replace_marker_append [OF free(3)] by simp
  ultimately show ?thesis by (simp add: chat_line_def)
qed

lemma dispatch_messages:
  "CHR ''%'' \<notin> set now \<Longrightarrow> CHR ''%'' \<notin> set a \<Longrightarrow>
   chatArea (dispatch_all now (map (MessageReceived a) ls) w) = chatArea w @ map (chat_line now a) ls"
  by (induction ls arbitrary: w) (simp_all add: dispatch_def onMessageReceived_def message_format)

lemma ready_message:
  "json_reader f \<Longrightarrow> plain a \<Longrightarrow> plain t \<Longrightarrow> onReadyRead f (json_message a t) c = (c, [MessageReceived a t], [])"
  by (simp add: frames_json ready_frame plain_members_def on_object_def str_of_def)

lemma window_reads_message:
  assumes "json_reader f" "plain a" "plain m" "CHR ''%'' \<notin> set a" "CHR ''%'' \<notin> set now"
  shows "chatArea (window_reads f now (json_message a m) w) = chatArea w @ [chat_line now a m]"
  using assms dispatch_messages [of now a "[m]"] by (simp add: window_reads_def ready_message)

text \<open>Text that arrives in lines which are no JSON is shown as coming from the system.\<close>

lemma ready_loose_lines:
  "list_all loose_line ls \<Longrightarrow> onReadyRead f (lines_text ls) c = (c, map (MessageReceived ''System'') ls, [])"
proof (induction ls)
  case (Cons l ls)
  have l: "l \<noteq> []" "NL \<notin> set l" "\<not> isspace (hd l)" "\<not> isspace (last l)" "take 1 l \<noteq> ''{''"
    using Cons.prems by (cases l; simp add: loose_line_def)+
  then show ?case
    using Cons ready_one_line [of l f "lines_text ls" c] text_line [of l f c] by (simp add: lines_text_def)
qed (simp add: lines_text_def ready_end)

lemma msg_fields:
  assumes "sscanf fmt_msg command = [target, message]"
  shows "length target \<le> 31" "length message \<le> 2047" "message \<noteq> []" "set target \<subseteq> set command" "set message \<subseteq> set command"
proof -
  obtain t where t: "sscanf [Ws, Word_field (Some 31), Ws, Line_field (Some 2047)] t = [target, message]"
    using assms unfolding fmt_msg_def by (rule sscanf_lits_fields)
  then have *: "sscanf [Word_field (Some 31), Ws, Line_field (Some 2047)] (dropWhile isspace t) = [target, message]"
    by simp
  from sscanf_word_hd [OF *] show "length target \<le> 31" by simp
  obtain t' where "sscanf [Ws, Line_field (Some 2047)] t' = [message]" using sscanf_word_hd(3) [OF *] by metis
  then have "sscanf [Line_field (Some 2047)] (dropWhile isspace t') = [message]" by simp
  from sscanf_line_hd [OF this] show "length message \<le> 2047" "message \<noteq> []" by simp_all
  show "set target \<subseteq> set command" "set message \<subseteq> set command"
    using sscanf_subset [of _ fmt_msg command] assms by auto
qed

lemma plain_subset: "plain m \<Longrightarrow> set s \<subseteq> set m \<Longrightarrow> plain s"
  by (auto simp: plain_def list_all_iff)

section \<open>Whom a line speaks for\<close>

lemma frames_speak:
  assumes "json_reader f" "plain a" "plain b" "plain m"
  shows "speaks_for f a own (Ssl_safe_write h (json_message a m))" "speaks_for f a own (Ssl_safe_write h (json_private a b m))"
  using ready_message [OF assms(1,2,4)] ready_private [OF assms] by (simp_all add: speaks_for_def names_sender_def)

lemma private_line_speaks:
  assumes "json_reader f" "plain m" "plain from" "length from \<le> 31" "cstr (c_nick (client w i)) = from"
  shows "\<exists>es. w_trace (handle_private_message E i m w) = w_trace w @ es \<and> list_all (speaks_for f from own) es"
proof (cases "\<exists>target message j. sscanf fmt_msg m = [target, message] \<and> find_client_by_nick (w_srv w) target = Some j")
  case True
  then obtain target message j where scan: "sscanf fmt_msg m = [target, message]"
    and j: "find_client_by_nick (w_srv w) target = Some j" by blast
  note mf = msg_fields [OF scan]
  have "speaks_for f from own (Ssl_safe_write h (json_private from target message))" for h
    by (rule frames_speak(2) [OF assms(1,3) plain_subset [OF assms(2) mf(4)] plain_subset [OF assms(2) mf(5)]])
  then show ?thesis
    using scan assms(5) mf(3) private_message_trace [OF assms(4) mf(1,2) j, of E]
    by (simp add: handle_private_message_def validate_message_iff)
next
  case False
  then have "handle_private_message E i m w = w"
    by (auto simp: handle_private_message_def send_private_message_def split: list.split option.split)
  then show ?thesis by simp
qed

lemma authorized_line_speaks:
  assumes "json_reader f" "plain m" "m \<noteq> []" "length m \<le> 8100" "\<not> strncmp_eq m ''/send_enc'' 9"
    "plain from" "length from \<le> 31" "cstr (c_nick (client w i)) = from" "c_authorized (client w i)"
  shows "\<exists>w' es. process_client_command E env i m ip w = Inr w' \<and> w_trace w' = w_trace w @ es \<and>
    list_all (speaks_for f from (c_ssl (client w i))) es"
proof -
  consider (online) "m = ''/online''" | (direct) "m \<noteq> ''/online''" "strncmp_eq m ''/msg'' 4"
    | (public) "m \<noteq> ''/online''" "\<not> strncmp_eq m ''/msg'' 4" by blast
  then show ?thesis
  proof cases
    case online
    then show ?thesis using assms(9)
      by (simp add: process_client_command_def handle_authorized_commands_def send_online_users_def speaks_for_def)
  next
    case direct
    with private_line_speaks [OF assms(1,2,6-8), of E "c_ssl (client w i)"] assms(9) show ?thesis
      by (simp add: process_client_command_def handle_authorized_commands_def)
  next
    case public
    then have "process_client_command E env i m ip w = Inr (broadcast_message E from m w)"
      using assms by (simp add: process_client_command_def handle_authorized_commands_def validate_message_iff)
    moreover have "snprintf BUFFER_SIZE (json_message from m) = json_message from m"
      using assms(4,7) by (simp add: snprintf_fits length_json_message BUFFER_SIZE_def)
    ultimately show ?thesis
      using frames_speak(1) [OF assms(1,6,6,2)]
      by (simp add: broadcast_message_def broadcast_loop_eq Let_def list_all_iff)
  qed
qed

section \<open>Lines sent together\<close>

lemma safe_chars: "list_all safe_line ls \<Longrightarrow> c \<in> set (lines_text ls) \<Longrightarrow> \<not> unsafe_char c"
proof -
  assume ls: "list_all safe_line ls" and "c \<in> set (lines_text ls)"
  then have "c = NL \<or> (\<exists>l \<in> set ls. c \<in> set l)" by (auto simp: lines_text_def split: if_splits)
  with ls have "c = NL \<or> \<not> unsafe_char c" by (auto simp: safe_line_def list_all_iff)
  then show ?thesis by (auto simp: unsafe_char_def)
qed

lemma spoofed_frame:
  assumes "json_reader f" "plain a" "list_all safe_line (l # ls @ [k])" "last l \<noteq> CHR ''}''"
  shows "onReadyRead f (json_message a (l @ NL # lines_text ls @ k)) c =
    (c, map (MessageReceived ''System'') (ls @ [k @ [QUOTE, CHR ''}'']]), [])"
proof -
  let ?h = "message_head a @ l"
  have l: "l \<noteq> []" "NL \<notin> set l" "\<not> isspace (last l)" using assms(3) by (simp_all add: safe_line_def loose_line_def)
  have frame: "json_message a (l @ NL # lines_text ls @ k) = ?h @ NL # lines_text (ls @ [k @ [QUOTE, CHR ''}'']])"
    by (simp add: json_message_def message_head_def lines_text_def)
  obtain u where u: "?h = CHR ''{'' # u" by (simp add: message_head_def)
  have "NL \<notin> set ?h" using l(2) plain_chars [OF assms(2)] by (simp add: message_head_def)
  moreover have "last ?h = last l" using l(1) by simp
  then have "on_line f (?h @ [NL]) c = (c, [])"
    using json_reader.refuses [OF assms(1), of u] l assms(4) u trimmed_line [of ?h]
    by (simp add: on_line_def isspace_def)
  moreover have "list_all loose_line (ls @ [k @ [QUOTE, CHR ''}'']])"
    using assms(3) by (auto simp: list_all_iff safe_line_def loose_line_def isspace_def)
  note ready_loose_lines [OF this, of f c]
  ultimately show ?thesis
    using ready_one_line [of ?h f "lines_text (ls @ [k @ [QUOTE, CHR ''}'']])" c] unfolding frame by simp
qed

section \<open>Two users\<close>

lemma chat_world_clients:
  "s_clients (w_srv chat_world) = [one_client 5 ''ann'', one_client 6 ''bob'']" "s_running (w_srv chat_world)"
  "cstr (c_nick (one_client 5 ''ann'')) = ''ann''" "cstr (c_nick (one_client 6 ''bob'')) = ''bob''"
  "c_ssl (one_client h n) = Some h" "reachable_client (one_client h n)"
  "c_authorized (one_client h n)" "0 \<le> c_fd (one_client h n)" "w_trace chat_world = []"
  by (simp_all add: chat_world_def one_client_def cstr_def reachable_client_def numeral_eq_Suc)

lemma chat_world_users:
  "validate_nickname ''bob''" "validate_nickname ''ann''" "user_at chat_world 0 ''ann''"
proof -
  show nicks: "validate_nickname ''bob''" "validate_nickname ''ann''"
    by (simp_all add: validate_nickname_iff MAX_NICK_LENGTH_def nick_char_def isalnum_def forbidden_def)
  show "user_at chat_world 0 ''ann''" by (simp add: user_at_def chat_world_clients nicks)
qed

lemma chat_turn_receives:
  assumes "reads_ok (tn_reads (chat_turn chunks)) 8191" "line_chunks (tn_reads (chat_turn chunks)) 8191 = line @ [NL]" "is_cstr line"
  shows "receives (chat_turn chunks) (client chat_world 0) line"
  using assms
  by (simp add: receives_def) (simp add: chat_turn_def demo_turn_def chat_world_clients one_client_def limiter_defs
      zero_rate_limit_def zero_client_def)

section \<open>Properties\<close>

text \<open>
  C3. A message to all arrives everywhere: when a user presses the send button of a connected window with a text of
  printable characters that, without the characters the server takes out, is not empty, is no command and has at most
  8100 characters, and the server, in whatever pieces the line arrives, reads it in a turn of the session of a logged-in
  user below the rate limit, then the server writes one frame to every client that is connected and logged in
  and nothing else, and every window that reads it appends one line to its chat that names the sender and shows the
  text as typed, less the characters the server takes out.
\<close>

theorem public_chat_end_to_end:
  assumes window: "m_socket (m_client a) = ConnectedState" "messageEdit a = msg" "list_all isprint msg"
    and typed: "m = filter (\<lambda>c. \<not> unsafe_char c) msg" "m \<noteq> []" "hd m \<noteq> CHR ''/''" "length m \<le> 8100"
    and server: "user_at w i from" "receives t (client w i) msg" "length buffer = 8192"
    and reader: "json_reader f" "CHR ''%'' \<notin> set now'"
  shows "mw_socket (onSendClicked now a) = mw_socket a @ [Write (line_chunks (tn_reads t) 8191)] \<and>
    (\<exists>buffer' w' frame. session_turn E i ip t buffer w = Some (Inr (Continue, buffer', w')) \<and>
      w_trace w' = w_trace w @ broadcast_writes w frame \<and>
      (\<forall>b. chatArea (window_reads f now' frame b) = chatArea b @ [chat_line now' from m]))"
proof -
  have "plain m" using plain_filter [OF window(3)] typed(1) by simp
  moreover have sd: "validate_nickname from" "length from \<le> 31" using server(1) by (simp_all add: user_at_def)
  note sender = valid_nick_chars [OF sd]
  have "hd m \<noteq> NL" using plain_chars [OF \<open>plain m\<close>] typed(2) by (cases m) auto
  from turn_broadcasts [OF server typed(1) [symmetric] typed(2) this typed(3), of E ip]
  obtain buffer' w' where "session_turn E i ip t buffer w = Some (Inr (Continue, buffer', w'))"
    "w_trace w' = w_trace w @ broadcast_writes w (json_message from m)"
    using typed(4) sd(2) by (auto simp: snprintf_fits length_json_message BUFFER_SIZE_def)
  moreover have "mw_socket (onSendClicked now a) = mw_socket a @ [Write (line_chunks (tn_reads t) 8191)]"
    using window typed(1,2) server(2)
    by (auto simp: onSendClicked_def sendMessage_def write_command_def dispatch_def receives_def)
  ultimately show ?thesis
    using window_reads_message [OF reader(1) sender(5) _ sender(1) reader(2)] by blast
qed

theorem public_chat_end_to_end_witness:
  "\<exists>buffer' w' frame. session_turn table_engine 0 ''ip'' (chat_turn [''hi'', ''<!'' @ [NL]]) (nuls 8192) chat_world =
      Some (Inr (Continue, buffer', w')) \<and>
    w_trace w' = [Ssl_safe_write (Some 5) frame, Ssl_safe_write (Some 6) frame] \<and>
    chatArea (window_reads flat_json ''12:00'' frame demo_window) = [''[12:00] ann: hi!'']"
proof -
  let ?t = "chat_turn [''hi'', ''<!'' @ [NL]]"
  have rec: "receives ?t (client chat_world 0) ''hi<!''"
    by (rule chat_turn_receives) (simp_all add: chat_turn_def)
  have "mw_socket (onSendClicked ''12:00'' demo_window) = mw_socket demo_window @ [Write (line_chunks (tn_reads ?t) 8191)] \<and>
    (\<exists>buffer' w' frame. session_turn table_engine 0 ''ip'' ?t (nuls 8192) chat_world = Some (Inr (Continue, buffer', w')) \<and>
      w_trace w' = w_trace chat_world @ broadcast_writes chat_world frame \<and>
      (\<forall>b. chatArea (window_reads flat_json ''12:00'' frame b) = chatArea b @ [chat_line ''12:00'' ''ann'' ''hi!'']))"
    by (rule public_chat_end_to_end [OF _ _ _ _ _ _ _ chat_world_users(3) rec _ flat.json_reader_axioms])
       (simp_all add: demo_window_def demo_chat_client_def isprint_def unsafe_char_def)
  then show ?thesis by (auto simp: broadcast_writes_def chat_world_clients demo_window_def chat_line_def)
qed


text \<open>
  C2. Nobody speaks for somebody else: whatever single line of printable characters a logged-in user sends, except one
  that asks for encryption, if without the characters the server takes out it has at least one and at most 8100
  characters, every frame the server writes because of it goes either back to the user or is read by the client that
  gets it as messages which name that user as their sender; nothing of it is left in the socket.
\<close>

theorem sender_authentic:
  assumes "user_at w i from" "receives t (client w i) l" "length buffer = 8192" "list_all isprint l"
    "m = filter (\<lambda>c. \<not> unsafe_char c) l" "m \<noteq> []" "length m \<le> 8100" "\<not> strncmp_eq m ''/send_enc'' 9" "json_reader f"
  shows "\<exists>buffer' w' es. session_turn E i ip t buffer w = Some (Inr (Continue, buffer', w')) \<and>
    w_trace w' = w_trace w @ es \<and> list_all (speaks_for f from (c_ssl (client w i))) es"
proof -
  have m: "plain m" using plain_filter [OF assms(4)] assms(5) by simp
  have "hd m \<noteq> NL" using plain_chars [OF m] assms(6) by (cases m) auto
  then obtain buffer' c1 where turn: "session_turn E i ip t buffer w =
      Some (map_sum id (\<lambda>w'. (Continue, buffer', w')) (process_client_command E (tn_cmd t) i m ip (set_client i c1 w)))"
    and c1: "c_nick c1 = c_nick (client w i)" "c_authorized c1" "c_ssl c1 = c_ssl (client w i)"
    using turn_runs_command [OF assms(1-3) assms(5) [symmetric] assms(6)] by blast
  have i: "i < length (s_clients (w_srv w))" "cstr (c_nick (client w i)) = from" "validate_nickname from" "length from \<le> 31"
    using assms(1) by (simp_all add: user_at_def)
  have "client (set_client i c1 w) i = c1" using i(1) by simp
  then show ?thesis
    using authorized_line_speaks [OF assms(9) m assms(6-8) valid_nick_chars(5) [OF i(3,4)] i(4), of "set_client i c1 w" i E "tn_cmd t" ip]
      turn c1 i(2) by auto
qed

theorem sender_authentic_witness:
  "\<exists>buffer' w' es. session_turn table_engine 0 ''ip'' (chat_turn [''/msg bob hi'' @ [NL]]) (nuls 8192) chat_world =
      Some (Inr (Continue, buffer', w')) \<and> w_trace w' = es \<and> list_all (speaks_for flat_json ''ann'' (Some 5)) es"
proof -
  let ?t = "chat_turn [''/msg bob hi'' @ [NL]]"
  have rec: "receives ?t (client chat_world 0) ''/msg bob hi''"
    by (rule chat_turn_receives) (simp_all add: chat_turn_def)
  have "\<exists>buffer' w' es. session_turn table_engine 0 ''ip'' ?t (nuls 8192) chat_world = Some (Inr (Continue, buffer', w')) \<and>
      w_trace w' = w_trace chat_world @ es \<and> list_all (speaks_for flat_json ''ann'' (c_ssl (client chat_world 0))) es"
    by (rule sender_authentic [OF chat_world_users(3) rec _ _ refl _ _ _ flat.json_reader_axioms])
       (simp_all add: isprint_def unsafe_char_def strncmp_eq_def)
  then show ?thesis by (simp add: chat_world_clients)
qed


text \<open>
  C36. Lines that arrive in one piece forge messages of the system: the server takes all that one read delivers for one line,
  keeps the newlines inside and broadcasts it as one frame. For lines of at most 8100 characters in all that the server
  takes nothing out of, that neither start nor end with a blank nor start with a brace, and of which the first is no
  command and does not end with a brace, every window then drops the first line, shows the lines after it as messages from
  the system, exactly as they were sent, and the last one with the rest of the frame; the sender is named nowhere.
\<close>

theorem pipelined_lines_spoof_system:
  assumes "user_at w i from" "receives t (client w i) (l @ NL # lines_text ls @ k)" "length buffer = 8192"
    "list_all safe_line (l # ls @ [k])" "hd l \<noteq> CHR ''/''" "last l \<noteq> CHR ''}''" "length (l @ lines_text ls @ k) \<le> 8100"
    "json_reader f" "CHR ''%'' \<notin> set now"
  shows "\<exists>buffer' w' frame. session_turn E i ip t buffer w = Some (Inr (Continue, buffer', w')) \<and>
    w_trace w' = w_trace w @ broadcast_writes w frame \<and>
    (\<forall>b. chatArea (window_reads f now frame b) = chatArea b @ map (chat_line now ''System'') (ls @ [k @ [QUOTE, CHR ''}'']]))"
proof -
  let ?m = "l @ NL # lines_text ls @ k"
  have "\<not> unsafe_char c" if "c \<in> set ?m" for c
    using safe_chars [OF assms(4), of c] that by (auto simp: lines_text_def)
  then have m: "filter (\<lambda>c. \<not> unsafe_char c) ?m = ?m" by (intro filter_True ballI)
  have l: "l \<noteq> []" "NL \<notin> set l" using assms(4) by (simp_all add: safe_line_def loose_line_def)
  then have hd: "?m \<noteq> []" "hd ?m \<noteq> NL" "hd ?m \<noteq> CHR ''/''" using assms(5) by (cases l; auto)+
  have sd: "validate_nickname from" "length from \<le> 31" using assms(1) by (simp_all add: user_at_def)
  obtain buffer' w' where "session_turn E i ip t buffer w = Some (Inr (Continue, buffer', w'))"
    "w_trace w' = w_trace w @ broadcast_writes w (json_message from ?m)"
    using turn_broadcasts [OF assms(1-3) m hd, of E ip] sd(2) assms(7)
    by (auto simp: snprintf_fits length_json_message BUFFER_SIZE_def)
  moreover have "chatArea (window_reads f now (json_message from ?m) b) =
      chatArea b @ map (chat_line now ''System'') (ls @ [k @ [QUOTE, CHR ''}'']])" for b
    using spoofed_frame [OF assms(8) valid_nick_chars(5) [OF sd] assms(4,6), of "m_client b"]
      dispatch_messages [OF assms(9), of "''System''" "ls @ [k @ [QUOTE, CHR ''}'']]"]
    by (simp add: window_reads_def)
  ultimately show ?thesis by blast
qed

theorem pipelined_lines_spoof_system_witness:
  "\<exists>buffer' w' frame. session_turn table_engine 0 ''ip''
      (chat_turn [''a'' @ [NL] @ ''Server stops'' @ [NL] @ ''b'' @ [NL]]) (nuls 8192) chat_world = Some (Inr (Continue, buffer', w')) \<and>
    w_trace w' = [Ssl_safe_write (Some 5) frame, Ssl_safe_write (Some 6) frame] \<and>
    chatArea (window_reads flat_json ''12:00'' frame demo_window) =
      [''[12:00] System: Server stops'', ''[12:00] System: b'' @ [QUOTE, CHR ''}'']]"
proof -
  let ?t = "chat_turn [''a'' @ [NL] @ ''Server stops'' @ [NL] @ ''b'' @ [NL]]"
  have rec: "receives ?t (client chat_world 0) (''a'' @ NL # lines_text [''Server stops''] @ ''b'')"
    by (rule chat_turn_receives) (simp_all add: chat_turn_def lines_text_def)
  have safe: "list_all safe_line (''a'' # [''Server stops''] @ [''b''])"
    by (simp add: safe_line_def loose_line_def isspace_def isprint_def unsafe_char_def)
  have "\<exists>buffer' w' frame. session_turn table_engine 0 ''ip'' ?t (nuls 8192) chat_world = Some (Inr (Continue, buffer', w')) \<and>
      w_trace w' = w_trace chat_world @ broadcast_writes chat_world frame \<and>
      (\<forall>b. chatArea (window_reads flat_json ''12:00'' frame b) =
        chatArea b @ map (chat_line ''12:00'' ''System'') ([''Server stops''] @ [''b'' @ [QUOTE, CHR ''}'']]))"
    by (rule pipelined_lines_spoof_system [OF chat_world_users(3) rec _ safe _ _ _ flat.json_reader_axioms])
       (simp_all add: lines_text_def)
  then show ?thesis by (auto simp: broadcast_writes_def chat_world_clients demo_window_def chat_line_def)
qed

text \<open>
  C39. A message to all that is too long blocks the window. Let a logged-in user send one line of printable characters that
  the server receives whole and whose text, without the characters the server removes, does not start with a slash and
  has with the user's nickname more than 8152 characters. The server sends everybody the same frame, cut at 8191
  characters: it has lost its newline, so a graphical client that has read the rest shows nothing and keeps the whole
  frame in the socket, in front of the next one.
\<close>

theorem overlong_message_not_shown:
  assumes "user_at w i from" "receives t (client w i) l" "length buffer = 8192" "list_all isprint l"
    "m = filter (\<lambda>c. \<not> unsafe_char c) l" "hd m \<noteq> CHR ''/''" "8152 < length from + length m"
  shows "\<exists>buffer' w' frame. session_turn E i ip t buffer w = Some (Inr (Continue, buffer', w')) \<and>
    w_trace w' = w_trace w @ broadcast_writes w frame \<and> length frame = 8191 \<and> (\<forall>c. onReadyRead f frame c = (c, [], frame))"
proof -
  have m: "plain m" using plain_filter [OF assms(4)] assms(5) by simp
  have sd: "validate_nickname from" "length from \<le> 31" using assms(1) by (simp_all add: user_at_def)
  then have ne: "m \<noteq> []" using assms(7) by auto
  have "hd m \<noteq> NL" using plain_chars [OF m] ne by (cases m) auto
  note run = turn_broadcasts [OF assms(1-3) assms(5) [symmetric] ne this assms(6), of E ip]
  let ?f = "snprintf BUFFER_SIZE (json_message from m)"
  have "?f = take 8191 (message_head from @ m @ [QUOTE, CHR ''}''])"
  proof -
    have "json_message from m = (message_head from @ m @ [QUOTE, CHR ''}'']) @ [NL]"
      by (simp add: json_message_def message_head_def)
    moreover have "8191 \<le> length (message_head from @ m @ [QUOTE, CHR ''}''])"
      using assms(7) by (simp add: message_head_def)
    ultimately show ?thesis unfolding snprintf_def BUFFER_SIZE_def by (simp only: take_append) simp
  qed
  moreover have "NL \<notin> set (message_head from @ m @ [QUOTE, CHR ''}''])"
    using plain_chars [OF m] plain_chars [OF valid_nick_chars(5) [OF sd]] by (simp add: message_head_def)
  ultimately have "NL \<notin> set ?f" "length ?f = 8191"
    using assms(7) by (auto simp: message_head_def dest: in_set_takeD)
  then show ?thesis using run ready_end by blast
qed

theorem overlong_message_not_shown_witness:
  "\<exists>buffer' w' frame. session_turn table_engine 0 ''ip'' (chat_turn [replicate 8180 CHR ''x'' @ [NL]]) (nuls 8192) chat_world =
      Some (Inr (Continue, buffer', w')) \<and>
    w_trace w' = [Ssl_safe_write (Some 5) frame, Ssl_safe_write (Some 6) frame] \<and>
    onReadyRead flat_json frame demo_chat_client = (demo_chat_client, [], frame)"
proof -
  let ?m = "replicate 8180 CHR ''x''" and ?t = "chat_turn [replicate 8180 CHR ''x'' @ [NL]]"
  have rec: "receives ?t (client chat_world 0) ?m"
    by (rule chat_turn_receives) (simp_all add: chat_turn_def is_cstr_def)
  have "\<exists>buffer' w' frame. session_turn table_engine 0 ''ip'' ?t (nuls 8192) chat_world = Some (Inr (Continue, buffer', w')) \<and>
      w_trace w' = w_trace chat_world @ broadcast_writes chat_world frame \<and> length frame = 8191 \<and>
      (\<forall>c. onReadyRead flat_json frame c = (c, [], frame))"
    by (rule overlong_message_not_shown [OF chat_world_users(3) rec _ _ refl])
       (simp_all add: list_all_iff isprint_def unsafe_char_def)
  then show ?thesis by (auto simp: broadcast_writes_def chat_world_clients)
qed

end
