(* ===== verification/P2P_Directory.thy ===== *)
theory P2P_Directory
  imports Server_State
begin

text \<open>
  The directory of the peer-to-peer messenger: the structs of
  \<^verbatim>\<open>src/p2p_messenger/p2p_messenger.h\<close> and the functions of
  \<^verbatim>\<open>src/p2p_messenger/network.c\<close> that keep its users and groups. Names are copied with
  \<^verbatim>\<open>strcpy\<close>, so a name that does not fit is a fault, and locking a held mutex is a
  self-deadlock. The locale \<open>name_table\<close> states what both tables promise of every call: names in the order of
  insertion, none twice, at most a fixed number; it is interpreted for the users and for the groups.
\<close>

section \<open>Structs\<close>

definition MAX_USERS :: nat where "MAX_USERS = 100"
definition MAX_MESSAGE_LEN :: nat where "MAX_MESSAGE_LEN = 4096"
definition MAX_USERNAME_LEN :: nat where "MAX_USERNAME_LEN = 32"
definition MAX_GROUP_NAME_LEN :: nat where "MAX_GROUP_NAME_LEN = 32"

lemmas p2p_limits = MAX_USERS_def MAX_MESSAGE_LEN_def MAX_USERNAME_LEN_def MAX_GROUP_NAME_LEN_def
  INET6_ADDRSTRLEN_def

text \<open>A \<^verbatim>\<open>signal_protocol_address\<close>: name and device.\<close>

type_synonym signal_address = "string \<times> int"

record user_info_t =
  ui_username :: "char list"
  ui_ip :: "char list"
  ui_port :: int
  ui_addr :: signal_address
  ui_last_seen :: time_t

record group_chat_t =
  gc_name :: "char list"
  gc_members :: "char list list"
  gc_count :: nat
  gc_key :: "byte list"

record p2p_network_t =
  pn_users :: "user_info_t list"
  pn_groups :: "group_chat_t list"
  pn_user_count :: nat
  pn_group_count :: nat
  pn_locked :: bool
  pn_db :: "nat option"
  pn_store :: "nat option"
  pn_context :: "nat option"
  pn_local_username :: "char list"
  pn_local_port :: int

definition zero_user :: user_info_t where
  "zero_user = \<lparr>ui_username = nuls MAX_USERNAME_LEN, ui_ip = nuls INET6_ADDRSTRLEN, ui_port = 0,
     ui_addr = ([], 0), ui_last_seen = 0\<rparr>"

definition zero_group :: group_chat_t where
  "zero_group = \<lparr>gc_name = nuls MAX_GROUP_NAME_LEN, gc_members = replicate MAX_USERS (nuls MAX_USERNAME_LEN),
     gc_count = 0, gc_key = zeros 32\<rparr>"

definition zero_network :: p2p_network_t where
  "zero_network = \<lparr>pn_users = replicate MAX_USERS zero_user, pn_groups = replicate MAX_USERS zero_group,
     pn_user_count = 0, pn_group_count = 0, pn_locked = False, pn_db = None, pn_store = None,
     pn_context = None, pn_local_username = nuls MAX_USERNAME_LEN, pn_local_port = 0\<rparr>"

section \<open>Operations\<close>

definition lock :: "p2p_network_t \<Rightarrow> fault + p2p_network_t" where
  "lock n = (if pn_locked n then Inl Self_deadlock else Inr (n\<lparr>pn_locked := True\<rparr>))"

definition unlock :: "p2p_network_t \<Rightarrow> p2p_network_t" where
  "unlock n = n\<lparr>pn_locked := False\<rparr>"

text \<open>The loop \<^verbatim>\<open>for (i = 0; i < count; i++) if (strcmp(...) == 0)\<close> over one table.\<close>

fun find_name :: "('a \<Rightarrow> string) \<Rightarrow> 'a list \<Rightarrow> nat \<Rightarrow> nat \<Rightarrow> string \<Rightarrow> nat option" where
  "find_name name xs 0 i s = None"
| "find_name name xs (Suc k) i s = (if name (xs ! i) = s then Some i else find_name name xs k (Suc i) s)"

definition user_name :: "user_info_t \<Rightarrow> string" where
  "user_name u = cstr (ui_username u)"

definition group_name :: "group_chat_t \<Rightarrow> string" where
  "group_name g = cstr (gc_name g)"

definition add_user :: "p2p_network_t \<Rightarrow> string \<Rightarrow> string \<Rightarrow> int \<Rightarrow> time_t \<Rightarrow> fault + int \<times> p2p_network_t" where
  "add_user net username ip port now =
     (case lock net of
        Inl e \<Rightarrow> Inl e
      | Inr n \<Rightarrow>
          (case find_name user_name (pn_users n) (pn_user_count n) 0 username of
             Some i \<Rightarrow>
               (case strcpy (ui_ip (pn_users n ! i)) ip of
                  Inl e \<Rightarrow> Inl e
                | Inr ip' \<Rightarrow> Inr (0, unlock (n\<lparr>pn_users := (pn_users n)[i :=
                    (pn_users n ! i)\<lparr>ui_ip := ip', ui_port := port, ui_last_seen := now\<rparr>]\<rparr>)))
           | None \<Rightarrow>
               if pn_user_count n < MAX_USERS then
                 let u = pn_users n ! pn_user_count n in
                 (case strcpy (ui_username u) username of
                    Inl e \<Rightarrow> Inl e
                  | Inr name' \<Rightarrow>
                      (case strcpy (ui_ip u) ip of
                         Inl e \<Rightarrow> Inl e
                       | Inr ip' \<Rightarrow>
                           let u' = u\<lparr>ui_username := name', ui_ip := ip', ui_port := port,
                                     ui_last_seen := now, ui_addr := (username, 1)\<rparr>
                           in Inr (0, unlock (n\<lparr>pn_users := (pn_users n)[pn_user_count n := u'],
                                               pn_user_count := pn_user_count n + 1\<rparr>))))
               else Inr (-1, unlock n)))"

definition find_user :: "p2p_network_t \<Rightarrow> string \<Rightarrow> nat option" where
  "find_user net username = find_name user_name (pn_users net) (pn_user_count net) 0 username"

text \<open>\<open>key\<close>: what \<^verbatim>\<open>RAND_bytes\<close> wrote.\<close>

definition create_group :: "p2p_network_t \<Rightarrow> string \<Rightarrow> byte list \<Rightarrow> fault + int \<times> p2p_network_t" where
  "create_group net name key =
     (case lock net of
        Inl e \<Rightarrow> Inl e
      | Inr n \<Rightarrow>
          (case find_name group_name (pn_groups n) (pn_group_count n) 0 name of
             Some _ \<Rightarrow> Inr (-1, unlock n)
           | None \<Rightarrow>
               if pn_group_count n < MAX_USERS then
                 let g = pn_groups n ! pn_group_count n in
                 (case strcpy (gc_name g) name of
                    Inl e \<Rightarrow> Inl e
                  | Inr name' \<Rightarrow>
                      (case strcpy (gc_members g ! 0) (cstr (pn_local_username n)) of
                         Inl e \<Rightarrow> Inl e
                       | Inr m' \<Rightarrow>
                           let g' = g\<lparr>gc_name := name', gc_members := (gc_members g)[0 := m'],
                                     gc_count := 1, gc_key := take 32 key\<rparr>
                           in Inr (0, unlock (n\<lparr>pn_groups := (pn_groups n)[pn_group_count n := g'],
                                               pn_group_count := pn_group_count n + 1\<rparr>))))
               else Inr (-1, unlock n)))"

text \<open>A full group does not end the search: the loop goes on with the next group.\<close>

fun join_loop :: "nat \<Rightarrow> nat \<Rightarrow> string \<Rightarrow> string \<Rightarrow> p2p_network_t \<Rightarrow> fault + int \<times> p2p_network_t" where
  "join_loop 0 i name user n = Inr (-1, unlock n)"
| "join_loop (Suc k) i name user n =
     (let g = pn_groups n ! i in
      if group_name g = name then
        (case find_name cstr (gc_members g) (gc_count g) 0 user of
           Some _ \<Rightarrow> Inr (-1, unlock n)
         | None \<Rightarrow>
             if gc_count g < MAX_USERS then
               (case strcpy (gc_members g ! gc_count g) user of
                  Inl e \<Rightarrow> Inl e
                | Inr m' \<Rightarrow> Inr (0, unlock (n\<lparr>pn_groups := (pn_groups n)[i :=
                    g\<lparr>gc_members := (gc_members g)[gc_count g := m'], gc_count := gc_count g + 1\<rparr>]\<rparr>)))
             else join_loop k (Suc i) name user n)
      else join_loop k (Suc i) name user n)"

definition join_group :: "p2p_network_t \<Rightarrow> string \<Rightarrow> string \<Rightarrow> fault + int \<times> p2p_network_t" where
  "join_group net name user =
     (case lock net of Inl e \<Rightarrow> Inl e | Inr n \<Rightarrow> join_loop (pn_group_count n) 0 name user n)"

section \<open>What the tables hold\<close>

definition users_of :: "p2p_network_t \<Rightarrow> user_info_t list" where
  "users_of n = take (pn_user_count n) (pn_users n)"

definition groups_of :: "p2p_network_t \<Rightarrow> group_chat_t list" where
  "groups_of n = take (pn_group_count n) (pn_groups n)"

definition members_of :: "group_chat_t \<Rightarrow> string list" where
  "members_of g = map cstr (take (gc_count g) (gc_members g))"

definition usernames :: "p2p_network_t \<Rightarrow> string list" where
  "usernames n = map user_name (users_of n)"

definition groupnames :: "p2p_network_t \<Rightarrow> string list" where
  "groupnames n = map group_name (groups_of n)"

definition wf_user :: "user_info_t \<Rightarrow> bool" where
  "wf_user u = (length (ui_username u) = MAX_USERNAME_LEN \<and> length (ui_ip u) = INET6_ADDRSTRLEN)"

definition wf_group :: "group_chat_t \<Rightarrow> bool" where
  "wf_group g = (length (gc_name g) = MAX_GROUP_NAME_LEN \<and> length (gc_members g) = MAX_USERS \<and>
     list_all (\<lambda>m. length m = MAX_USERNAME_LEN) (gc_members g) \<and> gc_count g \<le> MAX_USERS)"

definition wf_p2p :: "p2p_network_t \<Rightarrow> bool" where
  "wf_p2p n = (length (pn_users n) = MAX_USERS \<and> list_all wf_user (pn_users n) \<and> pn_user_count n \<le> MAX_USERS \<and>
     length (pn_groups n) = MAX_USERS \<and> list_all wf_group (pn_groups n) \<and> pn_group_count n \<le> MAX_USERS \<and>
     length (pn_local_username n) = MAX_USERNAME_LEN \<and> pn_local_username n ! (MAX_USERNAME_LEN - 1) = NUL \<and>
     \<not> pn_locked n)"

text \<open>The directory as a map from names to addresses.\<close>

definition directory :: "p2p_network_t \<Rightarrow> string \<rightharpoonup> string \<times> int" where
  "directory n username = map_option (\<lambda>j. (cstr (ui_ip (pn_users n ! j)), ui_port (pn_users n ! j))) (find_user n username)"

definition entry :: "user_info_t \<Rightarrow> string \<times> int" where
  "entry u = (cstr (ui_ip u), ui_port u)"

text \<open>A run of calls, as the clients of the tables make them.\<close>

fun insert_all :: "('k \<Rightarrow> 's \<Rightarrow> fault + int \<times> 's) \<Rightarrow> 'k list \<Rightarrow> 's \<Rightarrow> fault + 's" where
  "insert_all ins [] s = Inr s"
| "insert_all ins (k # ks) s = (case ins k s of Inl e \<Rightarrow> Inl e | Inr (r, s') \<Rightarrow> insert_all ins ks s')"

text \<open>The three calls that change the tables, with their arguments, and which arguments fit the arrays.\<close>

datatype table_call =
    Add_user string string int time_t
  | Create_group string "byte list"
  | Join_group string string

fun call_table :: "table_call \<Rightarrow> p2p_network_t \<Rightarrow> fault + int \<times> p2p_network_t" where
  "call_table (Add_user username ip port now) n = add_user n username ip port now"
| "call_table (Create_group name key) n = create_group n name key"
| "call_table (Join_group name user) n = join_group n name user"

fun call_fits :: "table_call \<Rightarrow> bool" where
  "call_fits (Add_user username ip port now) =
     (length username < MAX_USERNAME_LEN \<and> is_cstr username \<and> length ip < INET6_ADDRSTRLEN \<and> is_cstr ip)"
| "call_fits (Create_group name key) = (length name < MAX_GROUP_NAME_LEN \<and> is_cstr name)"
| "call_fits (Join_group name user) = (length user < MAX_USERNAME_LEN \<and> is_cstr user)"

fun user_key :: "table_call \<Rightarrow> string list" where
  "user_key (Add_user username ip port now) = [username]"
| "user_key _ = []"

fun group_key :: "table_call \<Rightarrow> string list" where
  "group_key (Create_group name key) = [name]"
| "group_key _ = []"

text \<open>The reference: a list of at most \<open>cap\<close> names in the order in which they were entered first.\<close>

definition enter :: "nat \<Rightarrow> string \<Rightarrow> string list \<Rightarrow> string list" where
  "enter cap k ns = (if k \<in> set ns \<or> cap \<le> length ns then ns else ns @ [k])"

text \<open>The local user is a member of every group.\<close>

definition local_everywhere :: "p2p_network_t \<Rightarrow> bool" where
  "local_everywhere n = list_all (\<lambda>g. cstr (pn_local_username n) \<in> set (members_of g)) (groups_of n)"

text \<open>A network with one group, to evaluate.\<close>

definition demo_group :: group_chat_t where
  "demo_group = zero_group\<lparr>gc_name := ''chat'' @ nuls 28, gc_members := (''ann'' @ nuls 29) # replicate 99 (nuls 32), gc_count := 1\<rparr>"

definition demo_net :: p2p_network_t where
  "demo_net = zero_network\<lparr>pn_groups := demo_group # replicate 99 zero_group, pn_group_count := 1\<rparr>"

section \<open>Lemmas\<close>

lemma find_name_from:
  "i + k \<le> length xs \<Longrightarrow> find_name f xs k i s = None \<longleftrightarrow> s \<notin> f ` set (take k (drop i xs))"
proof (induction k arbitrary: i)
  case (Suc k)
  have "drop i xs = xs ! i # drop (Suc i) xs"
    using Suc.prems by (simp add: Cons_nth_drop_Suc)
  with Suc show ?case by auto
qed simp

lemma find_name_None: "k \<le> length xs \<Longrightarrow> find_name f xs k 0 s = None \<longleftrightarrow> s \<notin> f ` set (take k xs)"
  using find_name_from [of 0 k xs f s] by simp

lemma find_name_Some: "find_name f xs k i s = Some j \<Longrightarrow> i \<le> j \<and> j < i + k \<and> f (xs ! j) = s"
  by (induction k arbitrary: i) (fastforce split: if_splits)+

lemma strcpy_ok: "length s < length dst \<Longrightarrow> is_cstr s \<Longrightarrow>
  \<exists>b. strcpy dst s = Inr b \<and> length b = length dst \<and> cstr b = s"
  by (simp add: strcpy_def)

lemma set_update_wf: "list_all P xs \<Longrightarrow> P x \<Longrightarrow> list_all P (xs[i := x])"
  by (auto simp: list_all_iff dest: set_update_subset_insert [THEN subsetD])

lemma take_Suc_update: "k < length xs \<Longrightarrow> take (Suc k) (xs[k := x]) = take k xs @ [x]"
  by (simp add: take_Suc_conv_app_nth)

text \<open>The insertions on inputs that fit: known name, new name, table full.\<close>

lemma wf_p2pD:
  assumes "wf_p2p n"
  shows "pn_user_count n \<le> length (pn_users n)" "length (pn_users n) = MAX_USERS" "list_all wf_user (pn_users n)"
    "pn_group_count n \<le> length (pn_groups n)" "length (pn_groups n) = MAX_USERS" "list_all wf_group (pn_groups n)"
    "\<not> pn_locked n" "length (cstr (pn_local_username n)) < MAX_USERNAME_LEN"
proof -
  let ?l = "pn_local_username n"
  have l: "length ?l = MAX_USERNAME_LEN" "?l ! (MAX_USERNAME_LEN - 1) = NUL" using assms by (simp_all add: wf_p2p_def)
  have "cstr ?l \<noteq> ?l"
    using l cstr_no_nul [of ?l] by (metis MAX_USERNAME_LEN_def diff_less nth_mem zero_less_numeral zero_less_one)
  then show "length (cstr ?l) < MAX_USERNAME_LEN"
    using l(1) length_cstr_le [of ?l] by (metis cstr_def le_neq_implies_less takeWhile_eq_take take_all_iff order.refl)
qed (use assms in \<open>simp_all add: wf_p2p_def\<close>)

lemma find_user_None: "wf_p2p n \<Longrightarrow> find_user n s = None \<longleftrightarrow> s \<notin> set (usernames n)"
  using find_name_None [OF wf_p2pD(1)] by (simp add: find_user_def usernames_def users_of_def)

lemma find_user_Some:
  "wf_p2p n \<Longrightarrow> find_user n s = Some j \<Longrightarrow> j < length (users_of n) \<and> user_name (users_of n ! j) = s"
  using find_name_Some [of user_name "pn_users n" "pn_user_count n" 0 s j] wf_p2pD(1) [of n]
  by (auto simp: find_user_def users_of_def)

lemma add_user_known:
  assumes "wf_p2p n" "username \<in> set (usernames n)" "length ip < INET6_ADDRSTRLEN" "is_cstr ip"
  obtains n' j u where "add_user n username ip port now = Inr (0, n')" "wf_p2p n'" "groups_of n' = groups_of n"
    "pn_local_username n' = pn_local_username n"
    "find_user n username = Some j" "users_of n' = (users_of n)[j := u]" "usernames n' = usernames n"
    "user_name u = username" "cstr (ui_ip u) = ip" "ui_port u = port"
proof -
  note wf = wf_p2pD [OF assms(1)]
  obtain j where j: "find_user n username = Some j" using find_user_None [OF assms(1)] assms(2) by blast
  then have jn: "j < pn_user_count n" "user_name (pn_users n ! j) = username"
    using find_name_Some [of user_name "pn_users n" "pn_user_count n" 0 username j] by (simp_all add: find_user_def)
  have wfj: "wf_user (pn_users n ! j)" using wf jn(1) by (simp add: list_all_iff)
  obtain b where b: "strcpy (ui_ip (pn_users n ! j)) ip = Inr b" "length b = INET6_ADDRSTRLEN" "cstr b = ip"
    using strcpy_ok [of ip "ui_ip (pn_users n ! j)"] assms(3,4) wfj by (auto simp: wf_user_def)
  let ?u = "(pn_users n ! j)\<lparr>ui_ip := b, ui_port := port, ui_last_seen := now\<rparr>"
  let ?n = "n\<lparr>pn_users := (pn_users n)[j := ?u], pn_locked := False\<rparr>"
  have "add_user n username ip port now = Inr (0, ?n)"
    using j b wf(7) by (simp add: add_user_def lock_def unlock_def find_user_def)
  moreover have "wf_p2p ?n"
    using assms(1) wfj b(2) by (simp add: wf_p2p_def wf_user_def set_update_wf)
  moreover have un: "users_of ?n = (users_of n)[j := ?u]" by (simp add: users_of_def take_update_swap)
  moreover have "usernames ?n = usernames n"
  proof -
    have "map user_name (users_of n) ! j = user_name ?u" "j < length (map user_name (users_of n))"
      using jn wf by (simp_all add: users_of_def user_name_def)
    then show ?thesis unfolding usernames_def un map_update by (metis list_update_id)
  qed
  ultimately show thesis
    using that [of ?n j ?u] j b(3) jn(2) by (simp add: groups_of_def user_name_def)
qed

lemma add_user_new:
  assumes "wf_p2p n" "username \<notin> set (usernames n)" "length (usernames n) < MAX_USERS"
    "length username < MAX_USERNAME_LEN" "is_cstr username" "length ip < INET6_ADDRSTRLEN" "is_cstr ip"
  obtains n' u where "add_user n username ip port now = Inr (0, n')" "wf_p2p n'" "groups_of n' = groups_of n"
    "pn_local_username n' = pn_local_username n" "users_of n' = users_of n @ [u]"
    "user_name u = username" "cstr (ui_ip u) = ip" "ui_port u = port"
proof -
  note wf = wf_p2pD [OF assms(1)]
  let ?k = "pn_user_count n"
  have k: "?k < MAX_USERS" using assms(3) wf by (simp add: usernames_def users_of_def)
  have wfk: "wf_user (pn_users n ! ?k)" using wf k by (simp add: list_all_iff)
  obtain a where a: "strcpy (ui_username (pn_users n ! ?k)) username = Inr a" "length a = MAX_USERNAME_LEN" "cstr a = username"
    using strcpy_ok [of username "ui_username (pn_users n ! ?k)"] assms(4,5) wfk by (auto simp: wf_user_def)
  obtain b where b: "strcpy (ui_ip (pn_users n ! ?k)) ip = Inr b" "length b = INET6_ADDRSTRLEN" "cstr b = ip"
    using strcpy_ok [of ip "ui_ip (pn_users n ! ?k)"] assms(6,7) wfk by (auto simp: wf_user_def)
  let ?u = "(pn_users n ! ?k)\<lparr>ui_username := a, ui_ip := b, ui_port := port, ui_last_seen := now, ui_addr := (username, 1)\<rparr>"
  let ?n = "n\<lparr>pn_users := (pn_users n)[?k := ?u], pn_user_count := Suc ?k, pn_locked := False\<rparr>"
  have "find_name user_name (pn_users n) ?k 0 username = None"
    using assms(2) find_user_None [OF assms(1)] by (simp add: find_user_def)
  then have "add_user n username ip port now = Inr (0, ?n)"
    using k a(1) b(1) wf(7) by (simp add: add_user_def lock_def unlock_def Let_def)
  moreover have "wf_p2p ?n"
    using assms(1) a(2) b(2) k by (simp add: wf_p2p_def wf_user_def set_update_wf)
  moreover have "users_of ?n = users_of n @ [?u]" using k wf by (simp add: users_of_def take_Suc_update)
  ultimately show thesis
    using that [of ?n ?u] a(3) b(3) by (simp add: groups_of_def user_name_def)
qed

lemma add_user_full:
  assumes "wf_p2p n" "username \<notin> set (usernames n)" "MAX_USERS \<le> length (usernames n)"
  shows "add_user n username ip port now = Inr (-1, n)"
proof -
  have "find_name user_name (pn_users n) (pn_user_count n) 0 username = None"
    using assms(2) find_user_None [OF assms(1)] by (simp add: find_user_def)
  moreover have "\<not> pn_user_count n < MAX_USERS" "\<not> pn_locked n"
    using assms(3) wf_p2pD [OF assms(1)] by (simp_all add: usernames_def users_of_def)
  ultimately show ?thesis by (cases n) (simp add: add_user_def lock_def unlock_def)
qed

section \<open>Groups\<close>

lemma find_group_None:
  "wf_p2p n \<Longrightarrow> find_name group_name (pn_groups n) (pn_group_count n) 0 s = None \<longleftrightarrow> s \<notin> set (groupnames n)"
  using find_name_None [OF wf_p2pD(4)] by (simp add: groupnames_def groups_of_def)

lemma unlock_lock: "\<not> pn_locked n \<Longrightarrow> unlock (n\<lparr>pn_locked := True\<rparr>) = n"
  by (cases n) (simp add: unlock_def)

lemma create_group_refused:
  assumes "wf_p2p n" "name \<in> set (groupnames n) \<or> MAX_USERS \<le> length (groupnames n)"
  shows "create_group n name key = Inr (-1, n)"
proof (cases "find_name group_name (pn_groups n) (pn_group_count n) 0 name")
  case None
  then have "\<not> pn_group_count n < MAX_USERS"
    using assms find_group_None [OF assms(1)] wf_p2pD [OF assms(1)] by (auto simp: groupnames_def groups_of_def)
  with None wf_p2pD(7) [OF assms(1)] show ?thesis by (simp add: create_group_def lock_def unlock_lock)
next
  case (Some i)
  with wf_p2pD(7) [OF assms(1)] show ?thesis by (simp add: create_group_def lock_def unlock_lock)
qed

lemma create_group_new:
  assumes "wf_p2p n" "name \<notin> set (groupnames n)" "length (groupnames n) < MAX_USERS"
    "length name < MAX_GROUP_NAME_LEN" "is_cstr name"
  obtains n' g where "create_group n name key = Inr (0, n')" "wf_p2p n'" "users_of n' = users_of n"
    "pn_local_username n' = pn_local_username n" "groups_of n' = groups_of n @ [g]"
    "group_name g = name" "members_of g = [cstr (pn_local_username n)]"
proof -
  note wf = wf_p2pD [OF assms(1)]
  let ?k = "pn_group_count n" and ?me = "cstr (pn_local_username n)"
  let ?g = "pn_groups n ! ?k"
  have k: "?k < MAX_USERS" using assms(3) wf by (simp add: groupnames_def groups_of_def)
  have wfk: "wf_group ?g" using wf k by (simp add: list_all_iff)
  then have m0: "length (gc_members ?g ! 0) = MAX_USERNAME_LEN" "0 < length (gc_members ?g)"
    by (simp_all add: wf_group_def list_all_iff MAX_USERS_def)
  obtain a where a: "strcpy (gc_name ?g) name = Inr a" "length a = MAX_GROUP_NAME_LEN" "cstr a = name"
    using strcpy_ok [of name "gc_name ?g"] assms(4,5) wfk by (auto simp: wf_group_def)
  obtain b where b: "strcpy (gc_members ?g ! 0) ?me = Inr b" "length b = MAX_USERNAME_LEN" "cstr b = ?me"
    using strcpy_ok [of ?me "gc_members ?g ! 0"] wf(8) m0(1) by auto
  let ?g' = "?g\<lparr>gc_name := a, gc_members := (gc_members ?g)[0 := b], gc_count := Suc 0, gc_key := take 32 key\<rparr>"
  let ?n = "n\<lparr>pn_groups := (pn_groups n)[?k := ?g'], pn_group_count := Suc ?k, pn_locked := False\<rparr>"
  have "find_name group_name (pn_groups n) ?k 0 name = None"
    using assms(2) find_group_None [OF assms(1)] by simp
  then have "create_group n name key = Inr (0, ?n)"
    using k a(1) b(1) wf(7) by (simp add: create_group_def lock_def unlock_def Let_def)
  moreover have "wf_group ?g'"
    using wfk a(2) b(2) by (simp add: wf_group_def set_update_wf MAX_USERS_def)
  then have "wf_p2p ?n" using assms(1) k by (simp add: wf_p2p_def set_update_wf)
  moreover have "groups_of ?n = groups_of n @ [?g']" using k wf by (simp add: groups_of_def take_Suc_update)
  moreover have "members_of ?g' = [?me]" using b(3) m0(2) by (cases "gc_members ?g") (simp_all add: members_of_def)
  ultimately show thesis
    using that [of ?n ?g'] a(3) by (simp add: users_of_def group_name_def)
qed

section \<open>The interface of both tables\<close>

lemma enter_all:
  "distinct ns \<Longrightarrow> length ns \<le> cap \<Longrightarrow>
   distinct (fold (enter cap) ks ns) \<and> length (fold (enter cap) ks ns) \<le> cap \<and> set ns \<subseteq> set (fold (enter cap) ks ns) \<and>
   set (fold (enter cap) ks ns) \<subseteq> set ns \<union> set ks \<and>
   (length ns + length ks \<le> cap \<longrightarrow> set ks \<subseteq> set (fold (enter cap) ks ns))"
proof (induction ks arbitrary: ns)
  case (Cons k ks)
  have "distinct (enter cap k ns)" "length (enter cap k ns) \<le> cap" "set ns \<subseteq> set (enter cap k ns)"
    "set (enter cap k ns) \<subseteq> insert k (set ns)" "length (enter cap k ns) \<le> Suc (length ns)"
    "length ns < cap \<longrightarrow> k \<in> set (enter cap k ns)"
    using Cons.prems by (auto simp: enter_def)
  with Cons.IH [of "enter cap k ns"] show ?case by auto
qed simp

locale name_table =
  fixes ins :: "'k \<Rightarrow> 's \<Rightarrow> fault + int \<times> 's"
    and key :: "'k \<Rightarrow> string list"
    and fits :: "'k \<Rightarrow> bool"
    and inv :: "'s \<Rightarrow> bool"
    and names :: "'s \<Rightarrow> string list"
    and cap :: nat
  assumes ins_spec: "inv s \<Longrightarrow> fits k \<Longrightarrow>
    \<exists>r s'. ins k s = Inr (r, s') \<and> inv s' \<and> names s' = fold (enter cap) (key k) (names s)"
begin

lemma insert_all_enters:
  "inv s \<Longrightarrow> list_all fits ks \<Longrightarrow>
   \<exists>s'. insert_all ins ks s = Inr s' \<and> inv s' \<and> names s' = fold (enter cap) (concat (map key ks)) (names s)"
proof (induction ks arbitrary: s)
  case (Cons k ks)
  obtain r s1 where "ins k s = Inr (r, s1)" "inv s1" "names s1 = fold (enter cap) (key k) (names s)"
    using ins_spec [of s k] Cons.prems by auto
  with Cons.IH [of s1] Cons.prems(2) show ?case by simp
qed simp

end

lemma join_loop_outcome:
  "i + k \<le> length (pn_groups n) \<Longrightarrow> list_all wf_group (pn_groups n) \<Longrightarrow> length user < MAX_USERNAME_LEN \<Longrightarrow> is_cstr user \<Longrightarrow>
   \<exists>r gs. join_loop k i name user n = Inr (r, unlock (n\<lparr>pn_groups := gs\<rparr>)) \<and> list_all wf_group gs \<and>
     map group_name gs = map group_name (pn_groups n)"
proof (induction k arbitrary: i)
  case 0
  then show ?case by (intro exI [of _ "-1"] exI [of _ "pn_groups n"]) simp
next
  case (Suc k)
  let ?g = "pn_groups n ! i"
  have wfg: "wf_group ?g" using Suc.prems by (simp add: list_all_iff)
  show ?case
  proof (cases "group_name ?g = name \<and> find_name cstr (gc_members ?g) (gc_count ?g) 0 user = None \<and> gc_count ?g < MAX_USERS")
    case True
    then have len: "length (gc_members ?g ! gc_count ?g) = MAX_USERNAME_LEN"
      using wfg by (simp add: wf_group_def list_all_iff)
    obtain b where b: "strcpy (gc_members ?g ! gc_count ?g) user = Inr b" "length b = MAX_USERNAME_LEN"
      using strcpy_ok [of user "gc_members ?g ! gc_count ?g"] Suc.prems(3,4) len by auto
    let ?g' = "?g\<lparr>gc_members := (gc_members ?g)[gc_count ?g := b], gc_count := gc_count ?g + 1\<rparr>"
    have "wf_group ?g'" using wfg b(2) True by (simp add: wf_group_def set_update_wf)
    moreover have "map group_name ((pn_groups n)[i := ?g']) = map group_name (pn_groups n)"
      using Suc.prems(1) by (intro nth_equalityI) (auto simp: nth_list_update group_name_def)
    ultimately show ?thesis
      using True b(1) Suc.prems(2) by (intro exI [of _ 0] exI [of _ "(pn_groups n)[i := ?g']"]) (simp add: Let_def set_update_wf)
  next
    case False
    have "\<exists>r gs. Inr (-1, unlock n) = (Inr (r, unlock (n\<lparr>pn_groups := gs\<rparr>)) :: fault + int \<times> p2p_network_t) \<and>
        list_all wf_group gs \<and> map group_name gs = map group_name (pn_groups n)"
      using Suc.prems(2) by (intro exI [of _ "-1"] exI [of _ "pn_groups n"]) simp
    with Suc.IH [of "Suc i"] Suc.prems False show ?thesis by (auto simp: Let_def split: option.split)
  qed
qed

lemma join_group_keeps:
  assumes "wf_p2p n" "length user < MAX_USERNAME_LEN" "is_cstr user"
  shows "\<exists>r n'. join_group n name user = Inr (r, n') \<and> wf_p2p n' \<and> usernames n' = usernames n \<and> groupnames n' = groupnames n"
proof -
  note wf = wf_p2pD [OF assms(1)]
  obtain r gs where gs: "join_loop (pn_group_count n) 0 name user (n\<lparr>pn_locked := True\<rparr>) =
      Inr (r, unlock (n\<lparr>pn_locked := True, pn_groups := gs\<rparr>))" "list_all wf_group gs"
    "map group_name gs = map group_name (pn_groups n)"
    using join_loop_outcome [of 0 "pn_group_count n" "n\<lparr>pn_locked := True\<rparr>" user name] wf assms(2,3) by auto
  let ?n = "unlock (n\<lparr>pn_locked := True, pn_groups := gs\<rparr>)"
  have "length gs = length (pn_groups n)" using gs(3) map_eq_imp_length_eq by blast
  then have "wf_p2p ?n" using assms(1) gs(2) by (simp add: wf_p2p_def unlock_def)
  moreover have "groupnames ?n = groupnames n" "usernames ?n = usernames n"
    using gs(3) by (simp_all add: groupnames_def groups_of_def usernames_def users_of_def unlock_def take_map [symmetric])
  ultimately show ?thesis using gs(1) wf(7) by (simp add: join_group_def lock_def)
qed

lemma add_user_enters:
  assumes "wf_p2p n" "call_fits (Add_user username ip port now)"
  shows "\<exists>r n'. add_user n username ip port now = Inr (r, n') \<and> wf_p2p n' \<and>
    usernames n' = enter MAX_USERS username (usernames n) \<and> groupnames n' = groupnames n"
proof -
  have k: "length username < MAX_USERNAME_LEN" "is_cstr username" "length ip < INET6_ADDRSTRLEN" "is_cstr ip"
    using assms(2) by simp_all
  consider "username \<in> set (usernames n)" | "username \<notin> set (usernames n)" "length (usernames n) < MAX_USERS"
    | "username \<notin> set (usernames n)" "MAX_USERS \<le> length (usernames n)" by linarith
  then show ?thesis
  proof cases
    case 1
    obtain n' where "add_user n username ip port now = Inr (0, n')" "wf_p2p n'" "usernames n' = usernames n" "groups_of n' = groups_of n"
      using add_user_known [OF assms(1) 1 k(3,4)] by metis
    with 1 show ?thesis by (simp add: enter_def groupnames_def)
  next
    case 2
    from add_user_new [OF assms(1) this k, of port now] 2 show ?thesis
      by (fastforce simp: enter_def usernames_def groupnames_def)
  next
    case 3
    from add_user_full [OF assms(1) this] 3 assms(1) show ?thesis by (auto simp: enter_def)
  qed
qed

lemma create_group_enters:
  assumes "wf_p2p n" "call_fits (Create_group name key)"
  shows "\<exists>r n'. create_group n name key = Inr (r, n') \<and> wf_p2p n' \<and>
    groupnames n' = enter MAX_USERS name (groupnames n) \<and> usernames n' = usernames n"
proof (cases "name \<in> set (groupnames n) \<or> MAX_USERS \<le> length (groupnames n)")
  case True
  with create_group_refused [OF assms(1) True] assms(1) show ?thesis by (simp add: enter_def)
next
  case False
  then have "name \<notin> set (groupnames n)" "length (groupnames n) < MAX_USERS" by auto
  from create_group_new [OF assms(1) this, of key] False assms(2) show ?thesis
    by (fastforce simp: enter_def usernames_def groupnames_def)
qed

lemma call_table_enters:
  assumes "wf_p2p n" "call_fits k"
  shows "\<exists>r n'. call_table k n = Inr (r, n') \<and> wf_p2p n' \<and>
    usernames n' = fold (enter MAX_USERS) (user_key k) (usernames n) \<and>
    groupnames n' = fold (enter MAX_USERS) (group_key k) (groupnames n)"
proof (cases k)
  case (Add_user username ip port now)
  with add_user_enters [OF assms(1)] assms(2) show ?thesis by fastforce
next
  case (Create_group name key)
  with create_group_enters [OF assms(1)] assms(2) show ?thesis by fastforce
next
  case (Join_group name user)
  with join_group_keeps [OF assms(1)] assms(2) show ?thesis by fastforce
qed

interpretation user_table: name_table call_table user_key call_fits wf_p2p usernames MAX_USERS
  by unfold_locales (use call_table_enters in blast)

interpretation group_table: name_table call_table group_key call_fits wf_p2p groupnames MAX_USERS
  by unfold_locales (use call_table_enters in blast)

section \<open>Joining\<close>

lemma member_found:
  "wf_group g \<Longrightarrow> find_name cstr (gc_members g) (gc_count g) 0 u = None \<longleftrightarrow> u \<notin> set (members_of g)"
  using find_name_None [of "gc_count g" "gc_members g" cstr u] by (simp add: wf_group_def members_of_def)

text \<open>A user that is a member of every group of that name is refused.\<close>

lemma join_loop_member:
  "i + k \<le> length (pn_groups n) \<Longrightarrow> list_all wf_group (pn_groups n) \<Longrightarrow>
   list_all (\<lambda>g. group_name g = name \<longrightarrow> user \<in> set (members_of g)) (take k (drop i (pn_groups n))) \<Longrightarrow>
   join_loop k i name user n = Inr (-1, unlock n)"
proof (induction k arbitrary: i)
  case (Suc k)
  have hd: "drop i (pn_groups n) = pn_groups n ! i # drop (Suc i) (pn_groups n)"
    using Suc.prems(1) by (simp add: Cons_nth_drop_Suc)
  have wfg: "wf_group (pn_groups n ! i)" using Suc.prems(1,2) by (simp add: list_all_iff)
  have rest: "join_loop k (Suc i) name user n = Inr (-1, unlock n)"
    using Suc.IH [of "Suc i"] Suc.prems hd by simp
  show ?case
  proof (cases "group_name (pn_groups n ! i) = name")
    case True
    with Suc.prems(3) hd have "user \<in> set (members_of (pn_groups n ! i))" by simp
    with member_found [OF wfg, of user] True show ?thesis by (auto simp: Let_def split: option.splits)
  qed (simp add: rest Let_def)
qed simp

text \<open>A user that is not a member joins the first group of that name that is not full.\<close>

lemma join_loop_joins:
  "i + k \<le> length (pn_groups n) \<Longrightarrow> list_all wf_group (pn_groups n) \<Longrightarrow> i \<le> j \<Longrightarrow> j < i + k \<Longrightarrow>
   list_all (\<lambda>g. group_name g \<noteq> name) (take (j - i) (drop i (pn_groups n))) \<Longrightarrow>
   group_name (pn_groups n ! j) = name \<Longrightarrow> user \<notin> set (members_of (pn_groups n ! j)) \<Longrightarrow>
   gc_count (pn_groups n ! j) < MAX_USERS \<Longrightarrow> length user < MAX_USERNAME_LEN \<Longrightarrow> is_cstr user \<Longrightarrow>
   \<exists>g'. join_loop k i name user n = Inr (0, unlock (n\<lparr>pn_groups := (pn_groups n)[j := g']\<rparr>)) \<and>
     group_name g' = name \<and> members_of g' = members_of (pn_groups n ! j) @ [user] \<and> wf_group g'"
proof (induction k arbitrary: i)
  case (Suc k)
  let ?g = "pn_groups n ! j"
  show ?case
  proof (cases "i = j")
    case True
    have wfg: "wf_group ?g" using Suc.prems by (simp add: list_all_iff)
    have len: "gc_count ?g < length (gc_members ?g)" "length (gc_members ?g ! gc_count ?g) = MAX_USERNAME_LEN"
      using wfg Suc.prems(8) by (simp_all add: wf_group_def list_all_iff)
    obtain b where b: "strcpy (gc_members ?g ! gc_count ?g) user = Inr b" "length b = MAX_USERNAME_LEN" "cstr b = user"
      using strcpy_ok [of user "gc_members ?g ! gc_count ?g"] Suc.prems(9,10) len(2) by auto
    let ?g' = "?g\<lparr>gc_members := (gc_members ?g)[gc_count ?g := b], gc_count := Suc (gc_count ?g)\<rparr>"
    have "join_loop (Suc k) i name user n = Inr (0, unlock (n\<lparr>pn_groups := (pn_groups n)[j := ?g']\<rparr>))"
      using True Suc.prems member_found [OF wfg, of user] b(1) by (simp add: Let_def)
    moreover have "members_of ?g' = members_of ?g @ [user]"
      using len(1) b(3) by (simp add: members_of_def take_Suc_update)
    moreover have "wf_group ?g'"
      using wfg b(2) Suc.prems(8) by (simp add: wf_group_def set_update_wf)
    ultimately show ?thesis using Suc.prems(6) by (auto simp: group_name_def)
  next
    case False
    have hd: "drop i (pn_groups n) = pn_groups n ! i # drop (Suc i) (pn_groups n)"
      using Suc.prems(1) by (simp add: Cons_nth_drop_Suc)
    have ji: "j - i = Suc (j - Suc i)" using False Suc.prems(3) by simp
    then have skip: "group_name (pn_groups n ! i) \<noteq> name"
      "list_all (\<lambda>g. group_name g \<noteq> name) (take (j - Suc i) (drop (Suc i) (pn_groups n)))"
      using Suc.prems(5) unfolding hd ji by simp_all
    with Suc.IH [of "Suc i"] Suc.prems False show ?thesis by (simp add: Let_def)
  qed
qed simp

section \<open>The directory\<close>

lemma find_name_map_of:
  "i + k \<le> length xs \<Longrightarrow>
   map_option (\<lambda>j. g (xs ! j)) (find_name f xs k i s) = map_of (map (\<lambda>x. (f x, g x)) (take k (drop i xs))) s"
proof (induction k arbitrary: i)
  case (Suc k)
  have "drop i xs = xs ! i # drop (Suc i) xs"
    using Suc.prems by (simp add: Cons_nth_drop_Suc)
  with Suc show ?case by auto
qed simp

lemma directory_eq: "wf_p2p n \<Longrightarrow> directory n = map_of (map (\<lambda>u. (user_name u, entry u)) (users_of n))"
  using find_name_map_of [of 0 "pn_user_count n" "pn_users n" entry user_name] wf_p2pD(1) [of n]
  by (auto simp: directory_def find_user_def users_of_def entry_def fun_eq_iff)

lemma map_of_update:
  "j < length xs \<Longrightarrow> f (xs ! j) = k \<Longrightarrow> f u = k \<Longrightarrow> distinct (map f xs) \<Longrightarrow>
   map_of (map (\<lambda>x. (f x, g x)) (xs[j := u])) = (map_of (map (\<lambda>x. (f x, g x)) xs))(k \<mapsto> g u)"
proof (induction xs arbitrary: j)
  case (Cons x xs)
  show ?case
  proof (cases j)
    case (Suc i)
    with Cons.prems have "k \<in> f ` set xs" by auto
    with Cons.prems(4) have "f x \<noteq> k" by auto
    with Suc Cons show ?thesis by (auto simp: fun_upd_twist)
  qed (use Cons.prems in \<open>auto simp: fun_eq_iff\<close>)
qed simp

lemma map_of_snoc:
  "f u = k \<Longrightarrow> k \<notin> f ` set xs \<Longrightarrow>
   map_of (map (\<lambda>x. (f x, g x)) (xs @ [u])) = (map_of (map (\<lambda>x. (f x, g x)) xs))(k \<mapsto> g u)"
  by (induction xs) (auto simp: fun_upd_twist)

lemma join_refused:
  assumes "wf_p2p n" "list_all (\<lambda>g. group_name g = name \<longrightarrow> user \<in> set (members_of g)) (groups_of n)"
  shows "join_group n name user = Inr (-1, n)"
  using assms join_loop_member [of 0 "pn_group_count n" "n\<lparr>pn_locked := True\<rparr>" name user] wf_p2pD [OF assms(1)]
  by (simp add: join_group_def lock_def groups_of_def unlock_lock)

lemma wf_zero_network: "wf_p2p zero_network" "usernames zero_network = []" "groups_of zero_network = []"
  by (simp_all add: wf_p2p_def zero_network_def p2p_limits wf_user_def zero_user_def wf_group_def zero_group_def list_all_iff
      usernames_def users_of_def groups_of_def)

lemma wf_demo_net: "wf_p2p demo_net" "groups_of demo_net = [demo_group]" "members_of demo_group = [''ann'']"
  "group_name demo_group = ''chat''"
proof -
  show "groups_of demo_net = [demo_group]" by (simp add: demo_net_def groups_of_def)
  show "members_of demo_group = [''ann'']" "group_name demo_group = ''chat''"
    by (simp_all add: demo_group_def members_of_def group_name_def cstr_def numeral_eq_Suc)
  show "wf_p2p demo_net"
    by (simp add: demo_net_def wf_p2p_def zero_network_def p2p_limits wf_user_def zero_user_def wf_group_def zero_group_def
        list_all_iff demo_group_def)
qed

section \<open>Properties\<close>

text \<open>
  C20. Adding a user is a map update: for names and addresses that fit and a name that is known or room
  for a new one, \<open>add_user\<close> returns 0, the mutex is free again, looking that name up gives the new
  address and port, and every other lookup and every group is unchanged.
\<close>

theorem add_user_updates_directory:
  assumes "wf_p2p n" "distinct (usernames n)" "length username < 32" "is_cstr username" "length ip < 46" "is_cstr ip"
    "username \<in> set (usernames n) \<or> length (usernames n) < 100"
  shows "\<exists>n'. add_user n username ip port now = Inr (0, n') \<and> wf_p2p n' \<and>
    directory n' = (directory n)(username \<mapsto> (ip, port)) \<and> groups_of n' = groups_of n"
proof (cases "username \<in> set (usernames n)")
  case True
  obtain n' j u where n': "add_user n username ip port now = Inr (0, n')" "wf_p2p n'" "groups_of n' = groups_of n"
    "find_user n username = Some j" "users_of n' = (users_of n)[j := u]" "user_name u = username"
    "cstr (ui_ip u) = ip" "ui_port u = port"
    using add_user_known [OF assms(1) True, of ip] assms(5,6) by (metis INET6_ADDRSTRLEN_def)
  have "directory n' = (directory n)(username \<mapsto> entry u)"
    using map_of_update [of j "users_of n" user_name username u entry] find_user_Some [OF assms(1) n'(4)]
      n'(2,5,6) assms(1,2) by (simp add: directory_eq usernames_def)
  with n' show ?thesis by (simp add: entry_def)
next
  case False
  obtain n' u where n': "add_user n username ip port now = Inr (0, n')" "wf_p2p n'" "groups_of n' = groups_of n"
    "users_of n' = users_of n @ [u]" "user_name u = username" "cstr (ui_ip u) = ip" "ui_port u = port"
    using add_user_new [OF assms(1) False _ _ assms(4) _ assms(6)] assms(3,5,7) False
    by (metis MAX_USERS_def MAX_USERNAME_LEN_def INET6_ADDRSTRLEN_def)
  have "directory n' = (directory n)(username \<mapsto> entry u)"
    using map_of_snoc [of user_name u username "users_of n" entry] False n'(2,4,5) assms(1)
    by (simp add: directory_eq usernames_def)
  with n' show ?thesis by (simp add: entry_def)
qed

theorem add_user_updates_directory_witness:
  "\<exists>n'. add_user zero_network ''bob'' ''127.0.0.1'' 8888 5 = Inr (0, n') \<and> directory n' ''bob'' = Some (''127.0.0.1'', 8888)"
  using add_user_updates_directory [OF wf_zero_network(1), of "''bob''" "''127.0.0.1''" 8888 5]
  by (auto simp: wf_zero_network)

text \<open>
  C21. The two tables stay tables of distinct names: whatever users are added, groups created and groups joined, in any
  number and any order of the three calls, as long as every name and address fits its array, no call faults, the
  network stays well formed, and each table holds exactly the names entered into it, in the order of their first
  entry, none twice and at most 100, later ones being refused.
\<close>

theorem tables_hold_distinct_names:
  assumes "wf_p2p n" "list_all call_fits ks"
    "distinct (usernames n)" "length (usernames n) \<le> 100" "distinct (groupnames n)" "length (groupnames n) \<le> 100"
  shows "\<exists>n'. insert_all call_table ks n = Inr n' \<and> wf_p2p n' \<and>
    usernames n' = fold (enter 100) (concat (map user_key ks)) (usernames n) \<and>
    distinct (usernames n') \<and> length (usernames n') \<le> 100 \<and>
    groupnames n' = fold (enter 100) (concat (map group_key ks)) (groupnames n) \<and>
    distinct (groupnames n') \<and> length (groupnames n') \<le> 100"
  using user_table.insert_all_enters [OF assms(1,2)] group_table.insert_all_enters [OF assms(1,2)]
    enter_all [OF assms(3,4)] enter_all [OF assms(5,6)] by (auto simp: MAX_USERS_def)

theorem tables_hold_distinct_names_witness:
  "\<exists>n'. insert_all call_table [Add_user ''bob'' ''127.0.0.1'' 8888 5, Create_group ''chat'' (zeros 32), Join_group ''chat'' ''bob'',
      Add_user ''ann'' ''127.0.0.1'' 8889 6, Add_user ''bob'' ''10.0.0.2'' 8888 7, Create_group ''chat'' (zeros 32)] zero_network = Inr n' \<and>
    usernames n' = [''bob'', ''ann''] \<and> groupnames n' = [''chat'']"
  using tables_hold_distinct_names [OF wf_zero_network(1), of "[Add_user ''bob'' ''127.0.0.1'' 8888 5, Create_group ''chat'' (zeros 32),
      Join_group ''chat'' ''bob'', Add_user ''ann'' ''127.0.0.1'' 8889 6, Add_user ''bob'' ''10.0.0.2'' 8888 7, Create_group ''chat'' (zeros 32)]"]
  by (auto simp: wf_zero_network p2p_limits groupnames_def enter_def)

text \<open>
  Joining a group that exists and has room appends exactly that user to its members and changes no
  other group and no user.
\<close>

theorem join_group_adds_member:
  assumes "wf_p2p n" "j < length (groups_of n)" "group_name (groups_of n ! j) = name"
    "list_all (\<lambda>g. group_name g \<noteq> name) (take j (groups_of n))"
    "user \<notin> set (members_of (groups_of n ! j))" "length (members_of (groups_of n ! j)) < 100"
    "length user < 32" "is_cstr user"
  shows "\<exists>n' g'. join_group n name user = Inr (0, n') \<and> wf_p2p n' \<and> groups_of n' = (groups_of n)[j := g'] \<and>
    group_name g' = name \<and> members_of g' = members_of (groups_of n ! j) @ [user] \<and> users_of n' = users_of n"
proof -
  note wf = wf_p2pD [OF assms(1)]
  have j: "j < pn_group_count n" using assms(2) by (simp add: groups_of_def)
  then have gj: "groups_of n ! j = pn_groups n ! j" "take j (groups_of n) = take j (pn_groups n)"
    by (simp_all add: groups_of_def min_absorb1)
  have "wf_group (pn_groups n ! j)" using wf j by (simp add: list_all_iff)
  then have cnt: "gc_count (pn_groups n ! j) < MAX_USERS"
    using assms(6) gj by (simp add: members_of_def wf_group_def MAX_USERS_def)
  obtain g' where g': "join_loop (pn_group_count n) 0 name user (n\<lparr>pn_locked := True\<rparr>) =
      Inr (0, unlock (n\<lparr>pn_locked := True, pn_groups := (pn_groups n)[j := g']\<rparr>))"
    "group_name g' = name" "members_of g' = members_of (pn_groups n ! j) @ [user]" "wf_group g'"
    using join_loop_joins [of 0 "pn_group_count n" "n\<lparr>pn_locked := True\<rparr>" j name user] wf j cnt gj assms
    by (auto simp: MAX_USERNAME_LEN_def)
  let ?n = "unlock (n\<lparr>pn_locked := True, pn_groups := (pn_groups n)[j := g']\<rparr>)"
  have "join_group n name user = Inr (0, ?n)" using g'(1) wf(7) by (simp add: join_group_def lock_def)
  moreover have "wf_p2p ?n" using assms(1) g'(4) by (simp add: wf_p2p_def unlock_def set_update_wf)
  moreover have "groups_of ?n = (groups_of n)[j := g']" by (simp add: groups_of_def unlock_def take_update_swap)
  moreover have "users_of ?n = users_of n" by (simp add: users_of_def unlock_def)
  ultimately show ?thesis using g'(2,3) gj(1) by metis
qed

theorem join_group_adds_member_witness:
  "\<exists>n' g'. join_group demo_net ''chat'' ''bob'' = Inr (0, n') \<and> groups_of n' = [g'] \<and> members_of g' = [''ann'', ''bob'']"
  using join_group_adds_member [OF wf_demo_net(1), of 0 "''chat''" "''bob''"]
  by (auto simp: wf_demo_net)

text \<open>
  The client's own \<^verbatim>\<open>/join_group\<close> can never succeed: groups come into being only through
  \<open>create_group\<close>, which puts the local user into them, and a member is refused.
\<close>

theorem local_user_never_joins:
  assumes "wf_p2p n" "local_everywhere n"
  shows "join_group n name (cstr (pn_local_username n)) = Inr (-1, n) \<and>
    (length name' < 32 \<longrightarrow> is_cstr name' \<longrightarrow>
      (\<exists>r n'. create_group n name' key = Inr (r, n') \<and> wf_p2p n' \<and> local_everywhere n' \<and>
         pn_local_username n' = pn_local_username n))"
proof (intro conjI impI)
  show "join_group n name (cstr (pn_local_username n)) = Inr (-1, n)"
    using assms by (intro join_refused) (auto simp: local_everywhere_def list_all_iff)
  assume name': "length name' < 32" "is_cstr name'"
  show "\<exists>r n'. create_group n name' key = Inr (r, n') \<and> wf_p2p n' \<and> local_everywhere n' \<and>
      pn_local_username n' = pn_local_username n"
  proof (cases "name' \<in> set (groupnames n) \<or> MAX_USERS \<le> length (groupnames n)")
    case True
    from create_group_refused [OF assms(1) this] assms show ?thesis by simp
  next
    case False
    then have new: "name' \<notin> set (groupnames n)" "length (groupnames n) < MAX_USERS" by auto
    obtain n' g where "create_group n name' key = Inr (0, n')" "wf_p2p n'"
      "pn_local_username n' = pn_local_username n" "groups_of n' = groups_of n @ [g]"
      "members_of g = [cstr (pn_local_username n)]"
      using create_group_new [OF assms(1) new] name' by (metis MAX_GROUP_NAME_LEN_def)
    with assms(2) show ?thesis by (simp add: local_everywhere_def)
  qed
qed

theorem local_user_never_joins_witness:
  "join_group zero_network ''chat'' (cstr (pn_local_username zero_network)) = Inr (-1, zero_network)"
  using local_user_never_joins [OF wf_zero_network(1), of "''chat''" "[]" "[]"]
  by (simp add: local_everywhere_def wf_zero_network)

text \<open>
  A new user name of 32 or more characters overflows the array it is copied to.
\<close>

theorem long_username_overflows:
  assumes "wf_p2p n" "username \<notin> set (usernames n)" "length (usernames n) < 100" "32 \<le> length username"
  shows "add_user n username ip port now = Inl Buffer_overflow"
proof -
  note wf = wf_p2pD [OF assms(1)]
  have "find_name user_name (pn_users n) (pn_user_count n) 0 username = None"
    using assms(2) find_user_None [OF assms(1)] by (simp add: find_user_def)
  moreover have "pn_user_count n < MAX_USERS" using assms(3) wf by (simp add: usernames_def users_of_def MAX_USERS_def)
  moreover from this have "length (ui_username (pn_users n ! pn_user_count n)) = 32"
    using wf by (simp add: list_all_iff wf_user_def MAX_USERNAME_LEN_def)
  ultimately show ?thesis using wf(7) assms(4) by (simp add: add_user_def lock_def strcpy_def Let_def)
qed

theorem long_username_overflows_witness:
  "add_user zero_network (replicate 40 CHR ''a'') ''127.0.0.1'' 8888 5 = Inl Buffer_overflow"
  by (rule long_username_overflows [OF wf_zero_network(1)]) (simp_all add: wf_zero_network)

end
