(* ===== verification/P2P_Messages.thy ===== *)
theory P2P_Messages
  imports P2P_Directory Signal_Protocol
begin

text \<open>
  Messages of the peer-to-peer messenger, from \<^verbatim>\<open>src/p2p_messenger/network.c\<close> and
  \<^verbatim>\<open>src/p2p_messenger/store.c\<close>: the AES-GCM helpers, sending to a user and to a group, the
  frames on the wire, the receiver, stored messages and the history query, and the set-up of the
  network. What libsignal, OpenSSL, SQLite and the socket calls answer are parameters; integers go
  to the wire as their little-endian bytes.
\<close>

section \<open>AES-GCM\<close>

definition encrypt_aes_gcm ::
  "rand_result \<Rightarrow> evp \<Rightarrow> byte list \<Rightarrow> byte list \<Rightarrow> int \<times> cipher_out option \<times> evp_event list" where
  "encrypt_aes_gcm rnd P plaintext key =
     (let err = (-1, None, [Ctx_new, Ctx_free]) in
      if \<not> ev_new P then (-1, None, [])
      else if fst rnd = 0 then err
      else let iv = take 12 (snd rnd) in
      if \<not> ev_init_key P then err
      else case ev_update P key iv plaintext of
        None \<Rightarrow> err
      | Some c1 \<Rightarrow>
          (case ev_final P key iv plaintext of
             None \<Rightarrow> err
           | Some c2 \<Rightarrow>
               (case ev_tag P key iv plaintext of
                  None \<Rightarrow> err
                | Some tag \<Rightarrow> (int (length c1 + length c2),
                    Some \<lparr>co_ct = c1 @ c2, co_iv = iv, co_tag = take 16 tag\<rparr>, [Ctx_new, Ctx_free]))))"

record evp_dec =
  dv_new :: bool
  dv_init :: bool
  dv_update :: "byte list \<Rightarrow> byte list \<Rightarrow> byte list \<Rightarrow> byte list option"
  dv_set_tag :: bool
  dv_final :: "byte list \<Rightarrow> byte list \<Rightarrow> byte list \<Rightarrow> byte list \<Rightarrow> byte list option"

definition decrypt_aes_gcm ::
  "evp_dec \<Rightarrow> byte list \<Rightarrow> byte list \<Rightarrow> byte list \<Rightarrow> byte list \<Rightarrow> int \<times> byte list option \<times> evp_event list" where
  "decrypt_aes_gcm P ciphertext key iv tag =
     (let err = (-1, None, [Ctx_new, Ctx_free]) in
      if \<not> dv_new P then (-1, None, [])
      else if \<not> dv_init P then err
      else case dv_update P key iv ciphertext of
        None \<Rightarrow> err
      | Some p1 \<Rightarrow>
          if \<not> dv_set_tag P then err
          else (case dv_final P key iv tag ciphertext of
             None \<Rightarrow> err
           | Some p2 \<Rightarrow> (int (length p1 + length p2), Some (p1 @ p2), [Ctx_new, Ctx_free])))"

text \<open>
  What OpenSSL documents of GCM: the calls of both directions answer, the ciphertext has the length
  of the plaintext, a tag has 16 bytes, and decrypting with the key, nonce and tag of an encryption
  gives the plaintext back.
\<close>

definition gcm_pair :: "evp \<Rightarrow> evp_dec \<Rightarrow> bool" where
  "gcm_pair P Q = (ev_new P \<and> ev_init_key P \<and> dv_new Q \<and> dv_init Q \<and> dv_set_tag Q \<and>
     (\<forall>key iv p. \<exists>c1 c2 tag p1 p2. ev_update P key iv p = Some c1 \<and> ev_final P key iv p = Some c2 \<and>
        ev_tag P key iv p = Some tag \<and> length (c1 @ c2) = length p \<and> length tag = 16 \<and>
        dv_update Q key iv (c1 @ c2) = Some p1 \<and> dv_final Q key iv tag (c1 @ c2) = Some p2 \<and> p1 @ p2 = p))"

section \<open>Frames\<close>

fun le_bytes :: "nat \<Rightarrow> nat \<Rightarrow> byte list" where
  "le_bytes 0 x = []"
| "le_bytes (Suc k) x = word_of_nat (x mod 256) # le_bytes k (x div 256)"

fun of_le :: "byte list \<Rightarrow> nat" where
  "of_le [] = 0"
| "of_le (b # bs) = unat b + 256 * of_le bs"

definition direct_frame :: "byte list \<Rightarrow> byte list" where
  "direct_frame data = le_bytes 8 (length data) @ data"

text \<open>\<open>send(sock, group_name, MAX_GROUP_NAME_LEN, 0)\<close> sends 32 bytes from where the name starts.\<close>

definition group_frame :: "char list \<Rightarrow> byte list \<Rightarrow> byte list \<Rightarrow> byte list \<Rightarrow> byte list" where
  "group_frame name_array iv tag ciphertext =
     map byte_of (take MAX_GROUP_NAME_LEN name_array) @ iv @ tag @ le_bytes 4 (length ciphertext) @ ciphertext"

section \<open>Sending\<close>

datatype p2p_event =
    Connected string int
  | Sent "byte list"
  | Closed
  | Stored string string string "byte list" int

definition is_sent :: "p2p_event \<Rightarrow> bool" where
  "is_sent e = (case e of Sent _ \<Rightarrow> True | _ \<Rightarrow> False)"

text \<open>\<open>save_message\<close>: the values bound to the INSERT; -1 when it does not prepare.\<close>

definition save_p2p_message ::
  "bool \<Rightarrow> string \<Rightarrow> string option \<Rightarrow> string option \<Rightarrow> byte list \<Rightarrow> int \<Rightarrow> int \<times> p2p_event list" where
  "save_p2p_message prepared sender to grp data is_group =
     (if \<not> prepared then (-1, [])
      else (0, [Stored sender (case to of None \<Rightarrow> [] | Some t \<Rightarrow> t)
                  (case grp of None \<Rightarrow> [] | Some g \<Rightarrow> g) data is_group]))"

text \<open>
  \<open>sd_serialized\<close>: the bytes of the encrypted message for a user and a text, \<open>None\<close> when \<^verbatim>\<open>session_builder_create\<close>,
  \<^verbatim>\<open>session_cipher_create\<close> or \<^verbatim>\<open>session_cipher_encrypt\<close> fails. The results of these calls are not looked at: the
  pointer that the call should have set is used next, uninitialised, before any socket is opened.
\<close>

record send_env =
  sd_serialized :: "string \<Rightarrow> string \<Rightarrow> byte list option"
  sd_socket :: "string \<Rightarrow> int"
  sd_connect :: "string \<Rightarrow> int"
  sd_prepared :: bool

definition send_direct_message ::
  "send_env \<Rightarrow> p2p_network_t \<Rightarrow> string \<Rightarrow> string \<Rightarrow> fault + int \<times> p2p_event list" where
  "send_direct_message env net to msg =
     (case find_user net to of
        None \<Rightarrow> Inr (-1, [])
      | Some j \<Rightarrow>
          let u = pn_users net ! j in
          (case sd_serialized env to msg of
             None \<Rightarrow> Inl Uninitialised_use
           | Some buf \<Rightarrow>
               if sd_socket env to < 0 then Inr (-1, [])
               else if sd_connect env to < 0 then Inr (-1, [Closed])
               else Inr (0, [Connected (cstr (ui_ip u)) (ui_port u), Sent (le_bytes 8 (length buf)), Sent buf, Closed] @
                      snd (save_p2p_message (sd_prepared env) (cstr (pn_local_username net)) (Some to) None buf 0))))"

fun group_sends :: "send_env \<Rightarrow> p2p_network_t \<Rightarrow> byte list list \<Rightarrow> string list \<Rightarrow> p2p_event list" where
  "group_sends env net parts [] = []"
| "group_sends env net parts (m # ms) =
     (if m = cstr (pn_local_username net) then group_sends env net parts ms
      else case find_user net m of
        None \<Rightarrow> group_sends env net parts ms
      | Some j \<Rightarrow>
          if sd_socket env m < 0 then group_sends env net parts ms
          else if sd_connect env m < 0 then Closed # group_sends env net parts ms
          else Connected (cstr (ui_ip (pn_users net ! j))) (ui_port (pn_users net ! j)) #
                 map Sent parts @ Closed # group_sends env net parts ms)"

definition send_group_message ::
  "send_env \<Rightarrow> rand_result \<Rightarrow> evp \<Rightarrow> p2p_network_t \<Rightarrow> char list \<Rightarrow> string \<Rightarrow> fault + int \<times> p2p_event list" where
  "send_group_message env rnd P net name_array msg =
     (case find_name group_name (pn_groups net) (pn_group_count net) 0 (cstr name_array) of
        None \<Rightarrow> Inr (-1, [])
      | Some i \<Rightarrow>
          let g = pn_groups net ! i in
          (case encrypt_aes_gcm rnd P (map byte_of msg) (gc_key g) of
             (n, None, _) \<Rightarrow> Inr (-1, [])
           | (n, Some r, _) \<Rightarrow>
               if MAX_MESSAGE_LEN < length (co_ct r) then Inl Buffer_overflow
               else if n \<le> 0 then Inr (-1, [])
               else let sends = group_sends env net
                      [map byte_of (take MAX_GROUP_NAME_LEN name_array), co_iv r, co_tag r,
                       le_bytes 4 (nat n), take (nat n) (co_ct r)] (members_of g) in
               if length name_array < MAX_GROUP_NAME_LEN \<and> list_ex is_sent sends then Inl Out_of_bounds_read
               else Inr (0, sends @ snd (save_p2p_message (sd_prepared env) (cstr (pn_local_username net)) None
                      (Some (cstr name_array)) (map byte_of msg) 1))))"

section \<open>Receiving\<close>

text \<open>
  One accepted connection: \<open>r1\<close> and \<open>r2\<close> are the bytes the two \<^verbatim>\<open>recv\<close> calls delivered,
  \<open>g1\<close> and \<open>g2\<close> what the memory held before; \<open>decrypt\<close> is \<^verbatim>\<open>session_cipher_decrypt\<close> for the
  fixed address REMOTE, with the text it gives, and \<open>None\<close> when \<^verbatim>\<open>session_cipher_create\<close> fails, whose result is
  not looked at.
\<close>

datatype received = Dropped | Undecrypted "byte list" | Shown string

definition receive_message ::
  "(byte list \<Rightarrow> string option) option \<Rightarrow> byte list \<Rightarrow> byte list \<Rightarrow> byte list \<Rightarrow> byte list \<Rightarrow> fault + received" where
  "receive_message decrypt g1 g2 r1 r2 =
     (let msg_len = of_le (take 8 (r1 @ drop (length r1) g1)) in
      if msg_len > MAX_MESSAGE_LEN then Inr Dropped
      else let buf = take msg_len (r2 @ drop (length r2) g2) in
           (case decrypt of
              None \<Rightarrow> Inl Uninitialised_use
            | Some d \<Rightarrow> Inr (case d buf of None \<Rightarrow> Undecrypted buf | Some t \<Rightarrow> Shown t)))"

section \<open>History\<close>

definition history_query :: "string option \<Rightarrow> string \<Rightarrow> string" where
  "history_query peer local =
     (let cols = ''SELECT from_user, to_user, group_name, data, is_group, ts FROM messages''; q = [CHR 0x27] in
      case peer of
        Some p \<Rightarrow>
          if p \<noteq> ''ALL'' then
            snprintf 512 (cols @ '' WHERE (from_user='' @ q @ p @ q @ '' AND to_user='' @ q @ local @ q @
              '') OR (from_user='' @ q @ local @ q @ '' AND to_user='' @ q @ p @ q @ '') OR group_name='' @ q @ p @ q @
              '' ORDER BY ts'')
          else cols @ '' ORDER BY ts''
      | None \<Rightarrow> cols @ '' ORDER BY ts'')"

text \<open>The lines shown for the rows of the answer (sender, group, group flag).\<close>

definition history_line :: "string \<times> string \<times> int \<Rightarrow> string" where
  "history_line r = (case r of (sender, grp, is_group) \<Rightarrow>
     if is_group \<noteq> 0 then ''[Group '' @ grp @ ''] '' @ sender @ '': (decrypted)'' @ [NL]
     else sender @ '': (encrypted)'' @ [NL])"

definition load_history ::
  "(string \<Rightarrow> (string \<times> string \<times> int) list option) \<Rightarrow> p2p_network_t \<Rightarrow> string option \<Rightarrow> int \<times> string list" where
  "load_history db net peer =
     (case db (history_query peer (cstr (pn_local_username net))) of
        None \<Rightarrow> (-1, []) | Some rows \<Rightarrow> (0, map history_line rows))"

section \<open>Set-up\<close>

definition network_tables :: "string list" where
  "network_tables =
    [''CREATE TABLE IF NOT EXISTS users(username TEXT PRIMARY KEY, ip TEXT, port INTEGER);'',
     ''CREATE TABLE IF NOT EXISTS messages(id INTEGER PRIMARY KEY, from_user TEXT, to_user TEXT, group_name TEXT, data BLOB, is_group INTEGER, ts DATETIME DEFAULT CURRENT_TIMESTAMP);'',
     ''CREATE TABLE IF NOT EXISTS groups(name TEXT PRIMARY KEY, key BLOB);'',
     ''CREATE TABLE IF NOT EXISTS group_members(group_name TEXT, username TEXT);'']"

text \<open>\<open>opened\<close>: the handle and whether \<^verbatim>\<open>sqlite3_open\<close> answered OK; the CREATE statements are
  executed whatever they answer.\<close>

definition init_network :: "nat \<times> bool \<Rightarrow> nat option \<Rightarrow> nat option \<Rightarrow> string \<Rightarrow> int \<Rightarrow> int \<times> p2p_network_t \<times> string list" where
  "init_network opened ctx store username port =
     (let n = zero_network\<lparr>pn_local_username := strncpy (pn_local_username zero_network) username (MAX_USERNAME_LEN - 1),
                pn_local_port := port, pn_db := Some (fst opened)\<rparr> in
      if \<not> snd opened then (-1, n, [])
      else (0, n\<lparr>pn_context := ctx, pn_store := store\<rparr>, network_tables))"

datatype release = Close_db nat | Unref_store nat | Unref_context nat | Destroy_mutex

definition cleanup_network :: "p2p_network_t \<Rightarrow> release list" where
  "cleanup_network n =
     (case pn_db n of None \<Rightarrow> [] | Some h \<Rightarrow> [Close_db h]) @
     (case pn_store n of None \<Rightarrow> [] | Some h \<Rightarrow> [Unref_store h]) @
     (case pn_context n of None \<Rightarrow> [] | Some h \<Rightarrow> [Unref_context h]) @ [Destroy_mutex]"

text \<open>The store callbacks of \<^verbatim>\<open>store.c\<close>: nothing is kept.\<close>

definition p2p_identity_key_store_get_key :: "signal_address \<Rightarrow> int" where
  "p2p_identity_key_store_get_key address = SG_ERR_UNKNOWN"

definition p2p_identity_key_store_get_local_key :: "byte list \<times> byte list \<Rightarrow> int \<times> byte list \<times> byte list" where
  "p2p_identity_key_store_get_local_key pair = (0, fst pair, snd pair)"

definition p2p_session_store_load_session :: "signal_address \<Rightarrow> int \<times> byte list option" where
  "p2p_session_store_load_session address = (0, None)"

definition p2p_session_store_store_session :: "signal_address \<Rightarrow> byte list \<Rightarrow> int" where
  "p2p_session_store_store_session address rec = 0"

definition p2p_pre_key_store_load_pre_key :: "uint32 \<Rightarrow> int \<times> byte list option" where
  "p2p_pre_key_store_load_pre_key pre_key_id = (SG_ERR_INVALID_KEY_ID, None)"

definition p2p_pre_key_store_store_pre_key :: "uint32 \<Rightarrow> byte list \<Rightarrow> int" where
  "p2p_pre_key_store_store_pre_key pre_key_id rec = 0"

definition p2p_signed_pre_key_store_load_signed_pre_key :: "uint32 \<Rightarrow> int \<times> byte list option" where
  "p2p_signed_pre_key_store_load_signed_pre_key signed_pre_key_id = (SG_ERR_INVALID_KEY_ID, None)"

definition p2p_signed_pre_key_store_store_signed_pre_key :: "uint32 \<Rightarrow> byte list \<Rightarrow> int" where
  "p2p_signed_pre_key_store_store_signed_pre_key signed_pre_key_id rec = 0"

text \<open>The store of \<open>init_signal_store\<close>: the callbacks it registers. What the library answers to that is not looked at.\<close>

record p2p_store =
  ps_load_session :: "signal_address \<Rightarrow> int \<times> byte list option"
  ps_store_session :: "signal_address \<Rightarrow> byte list \<Rightarrow> int"
  ps_load_pre_key :: "uint32 \<Rightarrow> int \<times> byte list option"
  ps_store_pre_key :: "uint32 \<Rightarrow> byte list \<Rightarrow> int"
  ps_load_signed_pre_key :: "uint32 \<Rightarrow> int \<times> byte list option"
  ps_store_signed_pre_key :: "uint32 \<Rightarrow> byte list \<Rightarrow> int"
  ps_get_key :: "signal_address \<Rightarrow> int"
  ps_get_local_key :: "byte list \<times> byte list \<Rightarrow> int \<times> byte list \<times> byte list"

definition init_signal_store :: "int \<times> p2p_store" where
  "init_signal_store = (0,
     \<lparr>ps_load_session = p2p_session_store_load_session, ps_store_session = p2p_session_store_store_session,
      ps_load_pre_key = p2p_pre_key_store_load_pre_key, ps_store_pre_key = p2p_pre_key_store_store_pre_key,
      ps_load_signed_pre_key = p2p_signed_pre_key_store_load_signed_pre_key,
      ps_store_signed_pre_key = p2p_signed_pre_key_store_store_signed_pre_key,
      ps_get_key = p2p_identity_key_store_get_key, ps_get_local_key = p2p_identity_key_store_get_local_key\<rparr>)"

section \<open>What arrives\<close>

text \<open>The connections of a run of events with the bytes sent over each.\<close>

fun payload :: "p2p_event \<Rightarrow> byte list" where
  "payload (Sent b) = b"
| "payload _ = []"

fun deliveries :: "p2p_event list \<Rightarrow> (string \<times> int \<times> byte list) list" where
  "deliveries [] = []"
| "deliveries (e # es) =
     (case e of Connected ip port \<Rightarrow> (ip, port, concat (map payload (takeWhile is_sent es))) # deliveries es
      | _ \<Rightarrow> deliveries es)"

definition reachable_member :: "send_env \<Rightarrow> p2p_network_t \<Rightarrow> string \<Rightarrow> bool" where
  "reachable_member env net m = (m \<noteq> cstr (pn_local_username net) \<and> find_user net m \<noteq> None \<and>
     sd_socket env m \<ge> 0 \<and> sd_connect env m \<ge> 0)"

text \<open>A cipher that satisfies \<open>gcm_pair\<close>, and a network to evaluate.\<close>

definition plain_gcm :: evp where
  "plain_gcm = \<lparr>ev_new = True, ev_init = True, ev_set_ivlen = True, ev_nonce = zeros 12, ev_init_key = True,
     ev_update = (\<lambda>key iv p. Some p), ev_final = (\<lambda>key iv p. Some []), ev_tag = (\<lambda>key iv p. Some (zeros 16))\<rparr>"

definition plain_gcm_dec :: evp_dec where
  "plain_gcm_dec = \<lparr>dv_new = True, dv_init = True, dv_update = (\<lambda>key iv c. Some c), dv_set_tag = True,
     dv_final = (\<lambda>key iv tag c. Some [])\<rparr>"

definition demo_send :: send_env where
  "demo_send = \<lparr>sd_serialized = (\<lambda>to msg. Some (map byte_of msg)), sd_socket = (\<lambda>_. 4), sd_connect = (\<lambda>_. 0), sd_prepared = True\<rparr>"

definition demo_peer :: user_info_t where
  "demo_peer = zero_user\<lparr>ui_username := ''bob'' @ nuls 29, ui_ip := ''10.0.0.2'' @ nuls 38, ui_port := 8888\<rparr>"

definition demo_chat :: p2p_network_t where
  "demo_chat = zero_network\<lparr>pn_users := demo_peer # replicate 99 zero_user, pn_user_count := 1,
     pn_groups := demo_group # replicate 99 zero_group, pn_group_count := 1,
     pn_local_username := ''ann'' @ nuls 29\<rparr>"

section \<open>Lemmas\<close>

lemma length_le_bytes [simp]: "length (le_bytes k x) = k"
  by (induction k arbitrary: x) simp_all

lemma of_le_bytes: "of_le (le_bytes k x) = x mod 256 ^ k"
proof (induction k arbitrary: x)
  case (Suc k)
  have "unat (word_of_nat (x mod 256) :: byte) = x mod 256"
    by (simp add: unat_of_nat)
  with Suc show ?case
    by (simp add: mod_mult2_eq mult.commute)
qed simp

lemma of_le_append: "of_le (xs @ ys) = of_le xs + 256 ^ length xs * of_le ys"
  by (induction xs) (simp_all add: algebra_simps)

lemma byte_of_pos: "c \<noteq> NUL \<Longrightarrow> 0 < unat (byte_of c)"
proof -
  assume "c \<noteq> NUL"
  moreover have "byte_of NUL = 0" by (simp add: byte_of_def)
  ultimately have "byte_of c \<noteq> 0" by (metis byte_of_eq)
  then show ?thesis by (simp add: unat_gt_0)
qed

lemma group_sends_eq:
  "group_sends env net parts ms =
     concat (map (\<lambda>m. if m = cstr (pn_local_username net) then [] else
       case find_user net m of None \<Rightarrow> []
       | Some j \<Rightarrow> if sd_socket env m < 0 then [] else if sd_connect env m < 0 then [Closed]
           else Connected (cstr (ui_ip (pn_users net ! j))) (ui_port (pn_users net ! j)) # map Sent parts @ [Closed]) ms)"
  by (induction ms) (auto split: option.splits)

lemma encrypt_gcm_ok:
  assumes "gcm_pair P Q" "fst rnd \<noteq> 0"
  obtains c tag where "encrypt_aes_gcm rnd P p key = (int (length p),
      Some \<lparr>co_ct = c, co_iv = take 12 (snd rnd), co_tag = tag\<rparr>, [Ctx_new, Ctx_free])"
    "length c = length p" "length tag = 16"
    "decrypt_aes_gcm Q c key (take 12 (snd rnd)) tag = (int (length p), Some p, [Ctx_new, Ctx_free])"
proof -
  obtain c1 c2 tag p1 p2 where "ev_update P key (take 12 (snd rnd)) p = Some c1"
    "ev_final P key (take 12 (snd rnd)) p = Some c2" "ev_tag P key (take 12 (snd rnd)) p = Some tag"
    "length (c1 @ c2) = length p" "length tag = 16" "dv_update Q key (take 12 (snd rnd)) (c1 @ c2) = Some p1"
    "dv_final Q key (take 12 (snd rnd)) tag (c1 @ c2) = Some p2" "p1 @ p2 = p"
    using assms(1) unfolding gcm_pair_def by metis
  with assms that [of "c1 @ c2" tag] show thesis
    by (auto simp: encrypt_aes_gcm_def decrypt_aes_gcm_def gcm_pair_def Let_def)
qed

lemma plain_gcm_pair: "gcm_pair plain_gcm plain_gcm_dec"
  by (simp add: gcm_pair_def plain_gcm_def plain_gcm_dec_def)

lemma deliveries_sent: "deliveries (map Sent parts @ es) = deliveries es"
  by (induction parts) simp_all

lemma deliveries_append_closed: "deliveries (map Sent parts @ Closed # es) = deliveries es"
  by (simp add: deliveries_sent)

lemma takeWhile_sent: "takeWhile is_sent (map Sent parts @ Closed # es) = map Sent parts"
  by (induction parts) (simp_all add: is_sent_def)

lemma payload_sent: "concat (map (payload \<circ> Sent) parts) = concat parts"
  by (simp add: comp_def)

lemma deliveries_group:
  "deliveries (group_sends env net parts ms @ es) =
     map (\<lambda>m. (fst (the (directory net m)), snd (the (directory net m)), concat parts)) (filter (reachable_member env net) ms) @
     deliveries es"
proof (induction ms)
  case (Cons m ms)
  show ?case
    using Cons
    by (auto simp: reachable_member_def directory_def takeWhile_sent deliveries_append_closed payload_sent comp_def
        split: option.splits)
qed simp

lemma no_sends: "list_ex is_sent (group_sends env net parts ms) \<Longrightarrow> list_ex (reachable_member env net) ms"
  by (induction ms) (auto simp: is_sent_def reachable_member_def split: if_splits option.splits)

lemma demo_find: "find_user demo_chat ''bob'' = Some 0"
  "find_name group_name (pn_groups demo_chat) (pn_group_count demo_chat) 0 (cstr (''chat'' @ nuls 28)) = Some 0"
  by (simp_all add: demo_chat_def find_user_def demo_peer_def user_name_def cstr_def group_name_def demo_group_def numeral_eq_Suc)

lemma receive_whole:
  assumes "length buf \<le> 4096"
  shows "receive_message (Some decrypt) g1 g2 (take 8 (direct_frame buf)) (drop 8 (direct_frame buf)) =
    Inr (case decrypt buf of None \<Rightarrow> Undecrypted buf | Some t \<Rightarrow> Shown t)"
proof -
  have "of_le (le_bytes 8 (length buf)) = length buf" using assms by (simp add: of_le_bytes)
  then show ?thesis using assms by (simp add: receive_message_def direct_frame_def Let_def MAX_MESSAGE_LEN_def)
qed

section \<open>Properties\<close>

text \<open>
  Sending to a known user: when the encryption fails, the uninitialised pointer is used, whatever the network
  does; otherwise, if the connection opens, exactly one frame goes to the stored address, and from a frame of at most
  4096 bytes that arrives whole a receiver hands exactly the encrypted bytes to the decryption.
\<close>

theorem direct_message_received:
  assumes "find_user net to = Some j" "0 \<le> sd_socket env to" "0 \<le> sd_connect env to"
  shows "case sd_serialized env to msg of
      None \<Rightarrow> send_direct_message env net to msg = Inl Uninitialised_use
    | Some buf \<Rightarrow> \<exists>ev. send_direct_message env net to msg =
        Inr (0, Connected (cstr (ui_ip (pn_users net ! j))) (ui_port (pn_users net ! j)) #
          Sent (take 8 (direct_frame buf)) # Sent (drop 8 (direct_frame buf)) # Closed # ev) \<and>
        (length buf \<le> 4096 \<longrightarrow>
          receive_message (Some decrypt) g1 g2 (take 8 (direct_frame buf)) (drop 8 (direct_frame buf)) =
            Inr (case decrypt buf of None \<Rightarrow> Undecrypted buf | Some t \<Rightarrow> Shown t))"
  using assms receive_whole [of _ decrypt g1 g2]
  by (simp add: send_direct_message_def direct_frame_def Let_def split: option.split)

theorem direct_message_received_witness:
  "\<exists>ev. send_direct_message demo_send demo_chat ''bob'' ''hi'' =
      Inr (0, Connected (cstr (ui_ip (pn_users demo_chat ! 0))) (ui_port (pn_users demo_chat ! 0)) #
          Sent (take 8 (direct_frame (map byte_of ''hi''))) # Sent (drop 8 (direct_frame (map byte_of ''hi''))) # Closed # ev)"
  using direct_message_received [OF demo_find(1), of demo_send "''hi''" "\<lambda>_. Some ''hi''" "[]" "[]"]
  by (simp add: demo_send_def)

text \<open>
  A group message goes to every member that is known, is not the sender and can be connected to, once
  each and to nobody else, and the ciphertext in its frame decrypts under the group key to the
  message.
\<close>

theorem group_message_reaches_members:
  assumes "gcm_pair P Q" "fst rnd \<noteq> 0" "length name_array = 32"
    "find_name group_name (pn_groups net) (pn_group_count net) 0 (cstr name_array) = Some i"
    "msg \<noteq> []" "length msg \<le> 4096"
  shows "\<exists>ct tag ev. send_group_message env rnd P net name_array msg = Inr (0, ev) \<and>
    deliveries ev = map (\<lambda>m. (fst (the (directory net m)), snd (the (directory net m)),
        group_frame name_array (take 12 (snd rnd)) tag ct))
      (filter (reachable_member env net) (members_of (pn_groups net ! i))) \<and>
    decrypt_aes_gcm Q ct (gc_key (pn_groups net ! i)) (take 12 (snd rnd)) tag =
      (int (length msg), Some (map byte_of msg), [Ctx_new, Ctx_free])"
proof -
  let ?g = "pn_groups net ! i" and ?iv = "take 12 (snd rnd)"
  obtain c tag where enc: "encrypt_aes_gcm rnd P (map byte_of msg) (gc_key ?g) = (int (length msg),
      Some \<lparr>co_ct = c, co_iv = ?iv, co_tag = tag\<rparr>, [Ctx_new, Ctx_free])"
    "length c = length msg"
    "decrypt_aes_gcm Q c (gc_key ?g) ?iv tag = (int (length msg), Some (map byte_of msg), [Ctx_new, Ctx_free])"
    using encrypt_gcm_ok [OF assms(1,2), of "map byte_of msg" "gc_key ?g"] by (metis length_map)
  let ?parts = "[map byte_of (take 32 name_array), ?iv, tag, le_bytes 4 (length msg), c]"
  let ?stored = "snd (save_p2p_message (sd_prepared env) (cstr (pn_local_username net)) None
    (Some (cstr name_array)) (map byte_of msg) 1)"
  have "send_group_message env rnd P net name_array msg =
      Inr (0, group_sends env net ?parts (members_of ?g) @ ?stored)"
    using assms(3-6) enc(1,2)
    by (simp add: send_group_message_def Let_def MAX_MESSAGE_LEN_def MAX_GROUP_NAME_LEN_def)
  moreover have "concat ?parts = group_frame name_array ?iv tag c"
    using enc(2) by (simp add: group_frame_def MAX_GROUP_NAME_LEN_def)
  moreover have "deliveries ?stored = []" by (simp add: save_p2p_message_def)
  ultimately show ?thesis
    using enc(3) deliveries_group [of env net ?parts "members_of ?g" ?stored] by auto
qed

theorem group_message_reaches_members_witness:
  "\<exists>ct tag ev. send_group_message demo_send (1, zeros 12) plain_gcm demo_chat (''chat'' @ nuls 28) ''hi'' = Inr (0, ev) \<and>
    deliveries ev = map (\<lambda>m. (fst (the (directory demo_chat m)), snd (the (directory demo_chat m)),
        group_frame (''chat'' @ nuls 28) (take 12 (snd (1 :: int, zeros 12))) tag ct))
      (filter (reachable_member demo_send demo_chat) (members_of (pn_groups demo_chat ! 0))) \<and>
    decrypt_aes_gcm plain_gcm_dec ct (gc_key (pn_groups demo_chat ! 0)) (take 12 (snd (1 :: int, zeros 12))) tag =
      (int (length ''hi''), Some (map byte_of ''hi''), [Ctx_new, Ctx_free])"
  by (rule group_message_reaches_members [OF plain_gcm_pair _ _ demo_find(2)]) simp_all

text \<open>
  The AES-GCM helpers invert each other and release their context, given that OpenSSL's calls do what
  they document.
\<close>

theorem group_cipher_round_trip:
  assumes "gcm_pair P Q" "fst rnd \<noteq> 0"
  shows "\<exists>r. encrypt_aes_gcm rnd P p key = (int (length p), Some r, [Ctx_new, Ctx_free]) \<and>
    length (co_ct r) = length p \<and>
    decrypt_aes_gcm Q (co_ct r) key (co_iv r) (co_tag r) = (int (length p), Some p, [Ctx_new, Ctx_free])"
  by (rule encrypt_gcm_ok [OF assms, of p key]) auto

theorem group_cipher_round_trip_witness:
  "\<exists>r. encrypt_aes_gcm (1, zeros 12) plain_gcm [7, 8] (zeros 32) = (2, Some r, [Ctx_new, Ctx_free]) \<and>
    decrypt_aes_gcm plain_gcm_dec (co_ct r) (zeros 32) (co_iv r) (co_tag r) = (2, Some [7, 8], [Ctx_new, Ctx_free])"
  using group_cipher_round_trip [OF plain_gcm_pair, of "(1, zeros 12)" "[7, 8]" "zeros 32"] by auto

text \<open>
  No peer ever sees a group message whose group name has three or more characters: the receiver takes
  the first eight bytes of the name for a length, which exceeds 4096, and drops the connection.
\<close>

theorem group_frame_dropped:
  assumes "length name_array = 32" "3 \<le> length (cstr name_array)"
  shows "receive_message decrypt g1 g2 (take 8 (group_frame name_array iv tag ct)) r2 = Inr Dropped"
proof -
  obtain a b c rest where n: "name_array = a # b # c # rest" "c \<noteq> NUL"
  proof -
    let ?s = "cstr name_array"
    obtain a b c u where s: "?s = a # b # c # u"
      using assms(2) by (cases ?s; cases "tl ?s"; cases "tl (tl ?s)") auto
    moreover have "name_array = ?s @ drop (length ?s) name_array"
      unfolding cstr_def by (metis takeWhile_eq_take append_take_drop_id)
    moreover have "c \<noteq> NUL" using s cstr_no_nul [of name_array] by auto
    ultimately show thesis using that by (metis append_Cons)
  qed
  let ?bs = "map byte_of (take 8 name_array)"
  have "take 8 (group_frame name_array iv tag ct) = ?bs"
    using assms(1) by (simp add: group_frame_def MAX_GROUP_NAME_LEN_def take_map)
  moreover have "4096 < of_le ?bs"
  proof -
    have "?bs = [byte_of a, byte_of b, byte_of c] @ map byte_of (take 5 rest)" using n by simp
    then have "65536 * unat (byte_of c) \<le> of_le ?bs" by (simp add: of_le_append)
    with byte_of_pos [OF n(2)] show ?thesis by linarith
  qed
  moreover have "length ?bs = 8" using assms(1) by simp
  ultimately show ?thesis by (simp add: receive_message_def Let_def MAX_MESSAGE_LEN_def)
qed

theorem group_frame_dropped_witness:
  "receive_message (Some (\<lambda>_. None)) [] [] (take 8 (group_frame (''chat'' @ nuls 28) (zeros 12) (zeros 16) [7])) [] = Inr Dropped"
  by (rule group_frame_dropped) (simp_all add: cstr_def numeral_eq_Suc)

text \<open>
  The history query puts the peer name into the SQL text as it is: after a quote in the name, the rest
  of the name is read as SQL.
\<close>

theorem history_query_injection:
  assumes "length a + length b \<le> 60" "length local \<le> 31"
  shows "\<exists>rest. history_query (Some (a @ CHR 0x27 # b)) local =
    ''SELECT from_user, to_user, group_name, data, is_group, ts FROM messages WHERE (from_user='' @ [CHR 0x27] @ a @
      [CHR 0x27] @ b @ rest"
proof -
  have "a @ CHR 0x27 # b \<noteq> ''ALL''"
    by (cases a; cases "tl a"; cases "tl (tl a)") (auto simp: Cons_eq_append_conv append_eq_Cons_conv)
  with assms show ?thesis
    by (simp add: history_query_def Let_def snprintf_fits)
qed

theorem history_query_injection_witness:
  "\<exists>rest. history_query (Some (''x'' @ CHR 0x27 # '' OR 1=1 --'')) ''ann'' =
    ''SELECT from_user, to_user, group_name, data, is_group, ts FROM messages WHERE (from_user='' @ [CHR 0x27] @ ''x'' @
      [CHR 0x27] @ '' OR 1=1 --'' @ rest"
  by (rule history_query_injection) simp_all

text \<open>
  The store of the messenger reports success for every record it is given and has none when asked for it: no
  session, no key and no identity of a peer survives the call that stored it.
\<close>

theorem store_keeps_nothing:
  assumes "init_signal_store = (r, st)"
  shows "r = 0 \<and> ps_store_session st a rec = 0 \<and> ps_load_session st a = (0, None) \<and>
    ps_store_pre_key st k rec = 0 \<and> snd (ps_load_pre_key st k) = None \<and> fst (ps_load_pre_key st k) \<noteq> 0 \<and>
    ps_store_signed_pre_key st k rec = 0 \<and> snd (ps_load_signed_pre_key st k) = None \<and>
    fst (ps_load_signed_pre_key st k) \<noteq> 0 \<and> ps_get_key st a \<noteq> 0"
  using assms
  by (auto simp: init_signal_store_def p2p_session_store_store_session_def p2p_session_store_load_session_def
      p2p_pre_key_store_store_pre_key_def p2p_pre_key_store_load_pre_key_def
      p2p_signed_pre_key_store_store_signed_pre_key_def p2p_signed_pre_key_store_load_signed_pre_key_def
      p2p_identity_key_store_get_key_def SG_ERR_INVALID_KEY_ID_def SG_ERR_UNKNOWN_def)

theorem store_keeps_nothing_witness:
  "ps_load_session (snd init_signal_store) (''bob'', 1) = (0, None)"
  using store_keeps_nothing [of "fst init_signal_store" "snd init_signal_store" "(''bob'', 1)" "[]" 0] by simp

end
