(* ===== verification/P2P_Client.thy ===== *)
theory P2P_Client
  imports P2P_Messages
begin

text \<open>
  The terminal client of the peer-to-peer messenger, \<^verbatim>\<open>src/p2p_messenger/main.c\<close>: the line
  editor, the commands and the main function. Keys are the codes \<^verbatim>\<open>wgetch\<close> delivers; what
  the program writes into the chat window is a list of texts. Screen positions are not modelled.
\<close>

section \<open>The line editor\<close>

definition KEY_BACKSPACE :: nat where "KEY_BACKSPACE = 263"

text \<open>
  \<^verbatim>\<open>isprint\<close> in the C locale, for codes of characters. For a code above 255, as \<^verbatim>\<open>wgetch\<close> gives for arrow and
  function keys and for a change of the window size, its behaviour is undefined: the library looks the code up in
  a table that ends at 255.
\<close>

definition isprint_key :: "nat \<Rightarrow> fault + bool" where
  "isprint_key ch = (if 255 < ch then Inl Out_of_bounds_read else Inr (32 \<le> ch \<and> ch \<le> 126))"

datatype edited = Waiting | Quit | Line "char list"

text \<open>The inner loop over the keys, on the array \<open>input\<close> with \<open>pos\<close> characters typed.\<close>

fun edit_loop :: "nat list \<Rightarrow> char list \<Rightarrow> nat \<Rightarrow> fault + edited" where
  "edit_loop [] input pos = Inr Waiting"
| "edit_loop (ch # keys) input pos =
     (if ch = 10 then map_sum id Line (poke input pos NUL)
      else if ch = 27 then Inr Quit
      else if ch = KEY_BACKSPACE \<or> ch = 127 then
        if pos > 0 then
          (case poke input (pos - 1) NUL of Inl e \<Rightarrow> Inl e | Inr input' \<Rightarrow> edit_loop keys input' (pos - 1))
        else edit_loop keys input pos
      else case isprint_key ch of
        Inl e \<Rightarrow> Inl e
      | Inr printable \<Rightarrow>
          if printable \<and> pos < MAX_MESSAGE_LEN - 1 then
            (case poke input pos (char_of ch) of Inl e \<Rightarrow> Inl e | Inr input' \<Rightarrow> edit_loop keys input' (pos + 1))
          else edit_loop keys input pos)"

definition read_line :: "nat list \<Rightarrow> char list \<Rightarrow> fault + edited" where
  "read_line keys input = edit_loop keys input 0"

text \<open>
  The reference: what a user means by typing keys into a line of at most \<open>n\<close> characters; a key that is no
  character is a fault.
\<close>

fun typed :: "nat \<Rightarrow> nat list \<Rightarrow> string \<Rightarrow> fault + string option option" where
  "typed n [] s = Inr None"
| "typed n (ch # keys) s =
     (if ch = 10 then Inr (Some (Some s))
      else if ch = 27 then Inr (Some None)
      else if ch = KEY_BACKSPACE \<or> ch = 127 then typed n keys (butlast s)
      else if 255 < ch then Inl Out_of_bounds_read
      else if 32 \<le> ch \<and> ch \<le> 126 \<and> length s < n then typed n keys (s @ [char_of ch])
      else typed n keys s)"

section \<open>Commands\<close>

definition fmt_p2p_msg :: "directive list" where
  "fmt_p2p_msg = lits ''/msg'' @ [Ws, Word_field (Some 31), Ws, Line_field None]"

definition fmt_create_group :: "directive list" where
  "fmt_create_group = lits ''/create_group'' @ [Ws, Word_field (Some 31)]"

definition fmt_join_group :: "directive list" where
  "fmt_join_group = lits ''/join_group'' @ [Ws, Word_field (Some 31)]"

text \<open>The fields of \<^verbatim>\<open>client_state_t\<close> that the commands use.\<close>

record client_state_t =
  cs_net :: p2p_network_t
  cs_username :: "char list"
  cs_is_running :: bool
  cs_port :: int
  cs_chat :: "string list"
  cs_sent :: "p2p_event list"

definition say :: "string \<Rightarrow> client_state_t \<Rightarrow> client_state_t" where
  "say t st = st\<lparr>cs_chat := cs_chat st @ [t]\<rparr>"

definition user_line :: "user_info_t \<Rightarrow> string" where
  "user_line u = ''- '' @ cstr (ui_username u) @ '' ('' @ cstr (ui_ip u) @ '':'' @ dec_int (ui_port u) @ '')'' @ [NL]"

definition command_msg :: "send_env \<Rightarrow> string \<Rightarrow> client_state_t \<Rightarrow> fault + client_state_t" where
  "command_msg env input st =
     (case sscanf fmt_p2p_msg input of
        [to, msg] \<Rightarrow>
          (case send_direct_message env (cs_net st) to msg of
             Inl e \<Rightarrow> Inl e
           | Inr (r, ev) \<Rightarrow>
               let st1 = st\<lparr>cs_sent := cs_sent st @ ev\<rparr>
               in Inr (if r = 0 then say ([NL] @ ''[Sent to '' @ to @ '']'' @ [NL]) st1
                       else say ([NL] @ ''[Failed to send to '' @ to @ '']'' @ [NL]) st1))
      | _ \<Rightarrow> Inr st)"

definition command_create :: "byte list \<Rightarrow> string \<Rightarrow> client_state_t \<Rightarrow> fault + client_state_t" where
  "command_create key input st =
     (case sscanf fmt_create_group input of
        [name] \<Rightarrow>
          (case create_group (cs_net st) name key of
             Inl e \<Rightarrow> Inl e
           | Inr (r, n) \<Rightarrow>
               let st1 = st\<lparr>cs_net := n\<rparr>
               in Inr (if r = 0 then say ([NL] @ ''[Group '' @ name @ '' created]'' @ [NL]) st1 else st1))
      | _ \<Rightarrow> Inr st)"

definition command_join :: "string \<Rightarrow> client_state_t \<Rightarrow> fault + client_state_t" where
  "command_join input st =
     (case sscanf fmt_join_group input of
        [name] \<Rightarrow>
          (case join_group (cs_net st) name (cstr (cs_username st)) of
             Inl e \<Rightarrow> Inl e
           | Inr (r, n) \<Rightarrow>
               let st1 = st\<lparr>cs_net := n\<rparr>
               in Inr (if r = 0 then say ([NL] @ ''[Joined group '' @ name @ '']'' @ [NL]) st1 else st1))
      | _ \<Rightarrow> Inr st)"

definition run_command ::
  "send_env \<Rightarrow> byte list \<Rightarrow> string \<Rightarrow> client_state_t \<Rightarrow> fault + client_state_t" where
  "run_command env key input st =
     (if take 1 input = ''/'' then
        if strncmp_eq input ''/quit'' 5 then Inr (st\<lparr>cs_is_running := False\<rparr>)
        else if strncmp_eq input ''/help'' 5 then
          Inr (say ([NL] @ ''/help /quit /msg <user> <text> /create_group <name> /join_group <name> /users'' @ [NL]) st)
        else if strncmp_eq input ''/msg '' 5 then command_msg env input st
        else if strncmp_eq input ''/create_group '' 14 then command_create key input st
        else if strncmp_eq input ''/join_group '' 12 then command_join input st
        else if strncmp_eq input ''/users'' 6 then
          Inr (st\<lparr>cs_chat := cs_chat st @ ([NL] @ ''Users:'' @ [NL]) # map user_line (users_of (cs_net st))\<rparr>)
        else Inr st
      else if input \<noteq> [] then Inr (say ([NL] @ cstr (cs_username st) @ '': '' @ input @ [NL]) st)
      else Inr st)"

text \<open>
  The outer loop of \<open>run_client\<close>: each entry holds the keys of one line, what the array held before
  and what \<^verbatim>\<open>RAND_bytes\<close> gives should a group be created. A list that runs out has not returned.
\<close>

fun client_loop :: "send_env \<Rightarrow> (nat list \<times> char list \<times> byte list) list \<Rightarrow> client_state_t \<Rightarrow> (fault + client_state_t) option" where
  "client_loop env [] st = (if cs_is_running st then None else Some (Inr st))"
| "client_loop env ((keys, array, key) # ls) st =
     (if \<not> cs_is_running st then Some (Inr st)
      else case read_line keys array of
        Inl e \<Rightarrow> Some (Inl e)
      | Inr Waiting \<Rightarrow> None
      | Inr Quit \<Rightarrow> Some (Inr (st\<lparr>cs_is_running := False\<rparr>))
      | Inr (Line input) \<Rightarrow>
          (case run_command env key (cstr input) st of
             Inl e \<Rightarrow> Some (Inl e) | Inr st' \<Rightarrow> client_loop env ls st'))"

definition run_client ::
  "send_env \<Rightarrow> (string \<Rightarrow> (string \<times> string \<times> int) list option) \<Rightarrow> (nat list \<times> char list \<times> byte list) list \<Rightarrow>
   client_state_t \<Rightarrow> (fault + client_state_t) option" where
  "run_client env db ls st =
     (let st1 = st\<lparr>cs_chat := cs_chat st @
            [''=== Secure P2P Messenger (Signal Protocol) ==='' @ [NL],
             ''User: '' @ cstr (cs_username st) @ '' | Port: '' @ dec_int (cs_port st) @ [NL]] @
            snd (load_history db (cs_net st) (Some ''ALL''))\<rparr>
      in client_loop env ls (st1\<lparr>cs_is_running := True\<rparr>))"

text \<open>\<open>main\<close> up to the loop: \<open>args\<close> are the arguments after the program name, \<open>atoi\<close> the library's.\<close>

definition client_start ::
  "(string \<Rightarrow> int) \<Rightarrow> nat \<times> bool \<Rightarrow> nat option \<Rightarrow> nat option \<Rightarrow> time_t \<Rightarrow> string list \<Rightarrow> fault + int + client_state_t" where
  "client_start atoi opened ctx store now args =
     (case args of
        name # port # _ \<Rightarrow>
          let username = strncpy (nuls MAX_USERNAME_LEN) name (MAX_USERNAME_LEN - 1);
              (r, n, _) = init_network opened ctx store (cstr username) (atoi port)
          in if r \<noteq> 0 then Inr (Inl 1)
             else (case add_user n (cstr username) ''127.0.0.1'' (atoi port) now of
                     Inl e \<Rightarrow> Inl e
                   | Inr (_, n') \<Rightarrow> Inr (Inr \<lparr>cs_net = n', cs_username = username, cs_is_running = False,
                       cs_port = atoi port, cs_chat = [], cs_sent = []\<rparr>))
      | _ \<Rightarrow> Inr (Inl 1))"

text \<open>What holds of the client between commands, and what a line of keys should give.\<close>

definition client_ok :: "client_state_t \<Rightarrow> bool" where
  "client_ok st = (wf_p2p (cs_net st) \<and> cs_username st = pn_local_username (cs_net st) \<and> local_everywhere (cs_net st))"

definition edit_result :: "fault + string option option \<Rightarrow> fault + edited \<Rightarrow> bool" where
  "edit_result t r = (case t of
     Inl e \<Rightarrow> r = Inl e
   | Inr None \<Rightarrow> r = Inr Waiting
   | Inr (Some None) \<Rightarrow> r = Inr Quit
   | Inr (Some (Some s)) \<Rightarrow> \<exists>b. r = Inr (Line b) \<and> length b = 4096 \<and> cstr b = s \<and> is_cstr s)"

text \<open>The messages that \<open>env\<close> is asked to encrypt get encrypted.\<close>

definition encrypts :: "send_env \<Rightarrow> bool" where
  "encrypts env = (\<forall>to msg. sd_serialized env to msg \<noteq> None)"

text \<open>What \<open>cleanup_network\<close> looks at.\<close>

definition handles :: "p2p_network_t \<Rightarrow> nat option \<times> nat option \<times> nat option" where
  "handles n = (pn_db n, pn_store n, pn_context n)"

section \<open>Lemmas\<close>

lemma char_of_printable: "32 \<le> (ch :: nat) \<Longrightarrow> ch \<le> 126 \<Longrightarrow> char_of ch \<noteq> NUL"
proof
  assume "32 \<le> ch" "ch \<le> 126" "char_of ch = NUL"
  then have "of_char (char_of ch :: char) = (of_char NUL :: nat)" "ch < 256" "0 < ch"
    by auto
  then show False by (simp add: of_char_of)
qed

lemma take_poke: "pos < length b \<Longrightarrow> take (Suc pos) (b[pos := c]) = take pos b @ [c]"
  by (simp add: take_Suc_conv_app_nth)

lemma edit_loop_typed:
  "length input = 4096 \<Longrightarrow> pos \<le> 4095 \<Longrightarrow> take pos input = s \<Longrightarrow> is_cstr s \<Longrightarrow>
   edit_result (typed 4095 keys s) (edit_loop keys input pos)"
proof (induction keys arbitrary: input pos s)
  case (Cons ch keys)
  have ls: "length s = pos" using Cons.prems by auto
  consider (nl) "ch = 10" | (esc) "ch = 27" | (erase) "ch = KEY_BACKSPACE \<or> ch = 127"
    | (key) "ch \<noteq> 10" "ch \<noteq> 27" "\<not> (ch = KEY_BACKSPACE \<or> ch = 127)" "32 \<le> ch" "ch \<le> 126" "pos < 4095"
    | (odd) "ch \<noteq> 10" "ch \<noteq> 27" "\<not> (ch = KEY_BACKSPACE \<or> ch = 127)" "255 < ch"
    | (other) "ch \<noteq> 10" "ch \<noteq> 27" "\<not> (ch = KEY_BACKSPACE \<or> ch = 127)" "\<not> (32 \<le> ch \<and> ch \<le> 126 \<and> pos < 4095)" "\<not> 255 < ch"
    by blast
  then show ?case
  proof cases
    case nl
    have "input[pos := NUL] = s @ NUL # drop (Suc pos) input"
      using upd_conv_take_nth_drop [of pos input NUL] Cons.prems by simp
    then show ?thesis using nl Cons.prems ls by (simp add: poke_def edit_result_def)
  next
    case esc
    then show ?thesis by (simp add: edit_result_def)
  next
    case erase
    then have ne: "ch \<noteq> 10" "ch \<noteq> 27" by (auto simp: KEY_BACKSPACE_def)
    show ?thesis
    proof (cases "pos = 0")
      case True
      with Cons.prems ls have "s = []" by simp
      with Cons.IH [OF Cons.prems] True erase ne show ?thesis by simp
    next
      case False
      have bl: "take (pos - 1) (input[pos - 1 := NUL]) = butlast s"
        using Cons.prems False by (auto simp: butlast_take min_def)
      moreover have "pos - 1 < 4096" using Cons.prems(2) by simp
      moreover have "is_cstr (butlast s)" using Cons.prems(4) by (auto simp: is_cstr_def dest: in_set_butlastD)
      ultimately show ?thesis
        using Cons.IH [of "input[pos - 1 := NUL]" "pos - 1" "butlast s"] Cons.prems False erase ne
        by (simp add: poke_def)
    qed
  next
    case key
    then have "take (Suc pos) (input[pos := char_of ch]) = s @ [char_of ch]"
      using Cons.prems take_poke [of pos input] by simp
    with Cons.IH [of "input[pos := char_of ch]" "Suc pos" "s @ [char_of ch]"] Cons.prems key ls char_of_printable
    show ?thesis by (simp add: poke_def MAX_MESSAGE_LEN_def isprint_key_def)
  next
    case odd
    then show ?thesis by (simp add: edit_result_def isprint_key_def)
  next
    case other
    with Cons.IH [OF Cons.prems] ls show ?thesis by (auto simp: MAX_MESSAGE_LEN_def isprint_key_def)
  qed
qed (simp add: edit_result_def)

lemma create_group_client:
  assumes "client_ok st" "length name \<le> 31" "is_cstr name"
  obtains r n where "create_group (cs_net st) name key = Inr (r, n)" "client_ok (st\<lparr>cs_net := n\<rparr>)"
proof -
  let ?n = "cs_net st"
  have wf: "wf_p2p ?n" using assms(1) by (simp add: client_ok_def)
  show thesis
  proof (cases "name \<in> set (groupnames ?n) \<or> MAX_USERS \<le> length (groupnames ?n)")
    case True
    from create_group_refused [OF wf this, of key] that assms(1) show thesis by simp
  next
    case False
    have fits: "length name < MAX_GROUP_NAME_LEN" using assms(2) by (simp add: MAX_GROUP_NAME_LEN_def)
    from False have new: "name \<notin> set (groupnames ?n)" "length (groupnames ?n) < MAX_USERS" by auto
    obtain n' g where "create_group ?n name key = Inr (0, n')" "wf_p2p n'"
      "pn_local_username n' = pn_local_username ?n" "groups_of n' = groups_of ?n @ [g]"
      "members_of g = [cstr (pn_local_username ?n)]"
      using create_group_new [OF wf new fits assms(3)] by metis
    with assms(1) that show thesis by (simp add: client_ok_def local_everywhere_def)
  qed
qed

lemma client_ok_say [simp]: "client_ok (say t st) = client_ok st" "client_ok (st\<lparr>cs_sent := ev\<rparr>) = client_ok st"
  "client_ok (st\<lparr>cs_chat := c\<rparr>) = client_ok st" "client_ok (st\<lparr>cs_is_running := b\<rparr>) = client_ok st"
  by (simp_all add: client_ok_def say_def)

lemma join_group_client:
  "client_ok st \<Longrightarrow> join_group (cs_net st) name (cstr (cs_username st)) = Inr (-1, cs_net st)"
  by (rule join_refused) (auto simp: client_ok_def local_everywhere_def list_all_iff)

lemma command_msg_ok:
  "client_ok st \<Longrightarrow> encrypts env \<Longrightarrow> \<exists>st'. command_msg env input st = Inr st'"
  "client_ok st \<Longrightarrow> command_msg env input st = Inr st' \<Longrightarrow> client_ok st' \<and> cs_net st' = cs_net st"
proof -
  assume "encrypts env"
  have "\<exists>r ev. send_direct_message env (cs_net st) to msg = Inr (r, ev)" for to msg
  proof -
    obtain buf where "sd_serialized env to msg = Some buf" using \<open>encrypts env\<close> by (auto simp: encrypts_def)
    then show ?thesis by (auto simp: send_direct_message_def Let_def split: option.split)
  qed
  then show "\<exists>st'. command_msg env input st = Inr st'"
    by (auto simp: command_msg_def Let_def split: list.split sum.split prod.split) (metis Inr_Inl_False prod_cases3 sum.distinct(1))
qed (auto simp: command_msg_def Let_def say_def client_ok_def split: list.splits sum.splits prod.splits if_splits)

lemma command_create_ok:
  assumes "client_ok st" "is_cstr input"
  shows "\<exists>st'. command_create key input st = Inr st' \<and> client_ok st' \<and> handles (cs_net st') = handles (cs_net st)"
proof (cases "\<exists>name. sscanf fmt_create_group input = [name]")
  case True
  then obtain name where name: "sscanf fmt_create_group input = [name]" by blast
  then have fits: "length name \<le> 31" "is_cstr name"
    using sscanf_command_word [of "''/create_group''" 31 input name] sscanf_is_cstr [OF assms(2), of name fmt_create_group]
    by (simp_all add: fmt_create_group_def)
  obtain r n where "create_group (cs_net st) name key = Inr (r, n)" "client_ok (st\<lparr>cs_net := n\<rparr>)"
    using create_group_client [OF assms(1) fits] by metis
  moreover from this have "handles n = handles (cs_net st)"
    by (auto simp: create_group_def lock_def unlock_def handles_def Let_def split: sum.splits option.splits if_splits)
  ultimately show ?thesis using name by (simp add: command_create_def Let_def say_def)
next
  case False
  with assms(1) show ?thesis by (simp add: command_create_def split: list.split)
qed

lemma command_join_ok: "client_ok st \<Longrightarrow> \<exists>st'. command_join input st = Inr st' \<and> client_ok st' \<and> cs_chat st' = cs_chat st \<and> cs_net st' = cs_net st"
  by (simp add: command_join_def join_group_client Let_def split: list.split)

lemma run_command_keeps:
  assumes "client_ok st" "is_cstr input" "run_command env key input st = Inr st'"
  shows "client_ok st' \<and> handles (cs_net st') = handles (cs_net st)"
  using assms(1,3) command_msg_ok(2) [OF assms(1), of env input st'] command_create_ok [OF assms(1,2), of key]
    command_join_ok [OF assms(1), of input]
  unfolding run_command_def by (auto simp: say_def split: if_splits)

lemma run_command_ok:
  assumes "client_ok st" "is_cstr input" "encrypts env"
  shows "\<exists>st'. run_command env key input st = Inr st'"
  using assms(1) command_msg_ok(1) [OF assms(1,3), of input] command_create_ok [OF assms(1,2), of key]
    command_join_ok [OF assms(1), of input]
  unfolding run_command_def by (auto split: if_split)

lemma read_line_cases:
  assumes "length array = 4096"
  obtains (fault) e where "read_line keys array = Inl e" "typed 4095 keys [] = Inl e"
    | (waiting) "read_line keys array = Inr Waiting" "typed 4095 keys [] = Inr None"
    | (quit) "read_line keys array = Inr Quit" "typed 4095 keys [] = Inr (Some None)"
    | (line) b t where "read_line keys array = Inr (Line b)" "is_cstr (cstr b)" "typed 4095 keys [] = Inr (Some (Some t))"
  using edit_loop_typed [OF assms, of 0 "[]" keys]
  by (auto simp: edit_result_def read_line_def split: option.splits sum.splits)

lemma client_loop_keeps:
  "client_ok st \<Longrightarrow> list_all (\<lambda>(keys, array, key). length array = 4096) ls \<Longrightarrow> client_loop env ls st = Some (Inr st') \<Longrightarrow>
   client_ok st' \<and> handles (cs_net st') = handles (cs_net st)"
proof (induction ls arbitrary: st)
  case (Cons l ls)
  obtain keys array key where l: "l = (keys, array, key)" by (cases l)
  have "length array = 4096" using Cons.prems(2) l by simp
  then show ?case
  proof (cases rule: read_line_cases [where keys = keys])
    case (line b t)
    show ?thesis
    proof (cases "run_command env key (cstr b) st")
      case (Inr st1)
      with Cons.IH [of st1] run_command_keeps [OF Cons.prems(1) line(2) Inr] Cons.prems l line(1) show ?thesis
        by (auto split: if_splits)
    qed (use Cons.prems l line(1) in \<open>auto split: if_splits\<close>)
  qed (use Cons.prems l in \<open>auto split: if_splits\<close>)
qed (auto split: if_splits)

lemma client_loop_returns:
  "client_ok st \<Longrightarrow> encrypts env \<Longrightarrow>
   list_all (\<lambda>(keys, array, key). length array = 4096 \<and> (\<exists>t. typed 4095 keys [] = Inr (Some t))) ls \<Longrightarrow>
   list_ex (\<lambda>(keys, array, key). typed 4095 keys [] = Inr (Some None)) ls \<Longrightarrow> \<exists>st'. client_loop env ls st = Some (Inr st')"
proof (induction ls arbitrary: st)
  case (Cons l ls)
  obtain keys array key where l: "l = (keys, array, key)" by (cases l)
  have "length array = 4096" using Cons.prems(3) l by simp
  then show ?case
  proof (cases rule: read_line_cases [where keys = keys])
    case (line b t)
    obtain st1 where st1: "run_command env key (cstr b) st = Inr st1"
      using run_command_ok [OF Cons.prems(1) line(2) Cons.prems(2)] by blast
    with Cons.IH [of st1] run_command_keeps [OF Cons.prems(1) line(2) st1] Cons.prems l line show ?thesis by auto
  qed (use Cons.prems l in auto)
qed simp

lemma run_client_loop:
  assumes "client_ok st"
  obtains st0 where "run_client env db ls st = client_loop env ls st0" "client_ok st0" "cs_net st0 = cs_net st"
    "cs_sent st0 = cs_sent st"
proof -
  let ?st = "st\<lparr>cs_chat := cs_chat st @
     [''=== Secure P2P Messenger (Signal Protocol) ==='' @ [NL],
      ''User: '' @ cstr (cs_username st) @ '' | Port: '' @ dec_int (cs_port st) @ [NL]] @
     snd (load_history db (cs_net st) (Some ''ALL'')), cs_is_running := True\<rparr>"
  have "client_ok ?st" using assms by (simp add: client_ok_def)
  moreover have "run_client env db ls st = client_loop env ls ?st" by (simp add: run_client_def Let_def)
  ultimately show thesis using that by simp
qed

lemma run_client_ok:
  assumes "client_ok st" "encrypts env"
    "list_all (\<lambda>(keys, array, key). length array = 4096 \<and> (\<exists>t. typed 4095 keys [] = Inr (Some t))) ls"
    "list_ex (\<lambda>(keys, array, key). typed 4095 keys [] = Inr (Some None)) ls"
  shows "\<exists>st'. run_client env db ls st = Some (Inr st') \<and> client_ok st' \<and> handles (cs_net st') = handles (cs_net st)"
proof -
  obtain st0 where st0: "run_client env db ls st = client_loop env ls st0" "client_ok st0" "cs_net st0 = cs_net st"
    using run_client_loop [OF assms(1)] by metis
  have "list_all (\<lambda>(keys, array, key). length array = 4096) ls" using assms(3) by (auto simp: list_all_iff)
  with client_loop_returns [OF st0(2) assms(2-4)] client_loop_keeps [OF st0(2)] st0(1,3) show ?thesis by metis
qed

text \<open>
  Starting the client with a name and a port gives a well-formed client that knows exactly itself, under
  the first 31 characters of the name, at 127.0.0.1 and that port.
\<close>

lemma client_start_ok:
  assumes "is_cstr name" "snd opened"
  shows "\<exists>st. client_start atoi opened ctx store now [name, port] = Inr (Inr st) \<and> client_ok st \<and>
    cstr (cs_username st) = take 31 name \<and>
    directory (cs_net st) = [take 31 name \<mapsto> (''127.0.0.1'', atoi port)] \<and>
    handles (cs_net st) = (Some (fst opened), store, ctx)"
proof -
  let ?u = "strncpy (nuls MAX_USERNAME_LEN) name (MAX_USERNAME_LEN - 1)"
  let ?v = "strncpy (nuls MAX_USERNAME_LEN) (cstr ?u) (MAX_USERNAME_LEN - 1)"
  have u: "cstr ?u = take 31 name"
    using cstr_strncpy [OF assms(1), of 31 "nuls 32"] by (simp add: MAX_USERNAME_LEN_def)
  have "?v = ?u" unfolding u by (simp add: strncpy_def MAX_USERNAME_LEN_def min_def)
  let ?n = "zero_network\<lparr>pn_local_username := ?u, pn_local_port := atoi port, pn_db := Some (fst opened),
     pn_context := ctx, pn_store := store\<rparr>"
  have wf: "wf_p2p ?n"
    using wf_zero_network(1) nth_strncpy_last [of 31 "nuls 32" name]
    by (simp add: wf_p2p_def MAX_USERNAME_LEN_def)
  have empty: "usernames ?n = []" "groups_of ?n = []" by (simp_all add: usernames_def users_of_def groups_of_def zero_network_def)
  have fits: "length (take 31 name) < 32" "is_cstr (take 31 name)" "length ''127.0.0.1'' < 46" "is_cstr ''127.0.0.1''"
    using assms(1) by (simp_all add: is_cstr_take)
  have "length (usernames ?n) < MAX_USERS" "take 31 name \<notin> set (usernames ?n)" using empty by (simp_all add: MAX_USERS_def)
  then obtain n' u where n': "add_user ?n (take 31 name) ''127.0.0.1'' (atoi port) now = Inr (0, n')" "wf_p2p n'"
    "groups_of n' = groups_of ?n" "pn_local_username n' = pn_local_username ?n" "users_of n' = users_of ?n @ [u]"
    "user_name u = take 31 name" "cstr (ui_ip u) = ''127.0.0.1''" "ui_port u = atoi port"
    using add_user_new [OF wf] fits by (metis MAX_USERNAME_LEN_def INET6_ADDRSTRLEN_def)
  have "directory n' = [take 31 name \<mapsto> (''127.0.0.1'', atoi port)]"
    using n' empty(1) by (simp add: directory_eq entry_def usernames_def)
  moreover have "client_start atoi opened ctx store now [name, port] = Inr (Inr \<lparr>cs_net = n', cs_username = ?u,
      cs_is_running = False, cs_port = atoi port, cs_chat = [], cs_sent = []\<rparr>)"
  proof -
    have "pn_local_username zero_network = nuls MAX_USERNAME_LEN" by (simp add: zero_network_def)
    then have "init_network opened ctx store (cstr ?u) (atoi port) = (0, ?n, network_tables)"
      using assms(2) \<open>?v = ?u\<close> by (simp add: init_network_def Let_def)
    with n'(1) u show ?thesis by (simp add: client_start_def Let_def)
  qed
  moreover have "handles n' = handles ?n"
    using n'(1) by (auto simp: add_user_def lock_def unlock_def handles_def Let_def split: sum.splits option.splits if_splits)
  ultimately show ?thesis using n'(2-4) empty(2) u by (simp add: client_ok_def local_everywhere_def handles_def)
qed

section \<open>Properties\<close>

text \<open>
  C25. The line editor gives exactly what was typed: printable keys are appended while the line has fewer
  than 4095 characters, backspace removes the last one, Escape quits, Enter ends the line, other keys of characters
  are ignored, and the array of 4096 cells is never left; a key with a code above 255 other than backspace is looked up
  outside the table of \<^verbatim>\<open>isprint\<close>.
\<close>

theorem line_editor_refines:
  assumes "length input = 4096"
  shows "case typed 4095 keys [] of
     Inl e \<Rightarrow> read_line keys input = Inl e
   | Inr None \<Rightarrow> read_line keys input = Inr Waiting
   | Inr (Some None) \<Rightarrow> read_line keys input = Inr Quit
   | Inr (Some (Some t)) \<Rightarrow> \<exists>b. read_line keys input = Inr (Line b) \<and> length b = 4096 \<and> cstr b = t \<and> is_cstr t"
  using edit_loop_typed [OF assms, of 0 "[]" keys] unfolding edit_result_def read_line_def by simp

theorem line_editor_refines_witness:
  "\<exists>b. read_line [104, 105, 127, 111, 10] (nuls 4096) = Inr (Line b) \<and> cstr b = ''ho''"
  using line_editor_refines [of "nuls 4096" "[104, 105, 127, 111, 10]"]
  by (auto simp: KEY_BACKSPACE_def char_of_def bit_0)

text \<open>
  A session of the client runs without any overflow, out-of-bounds read or deadlock, whatever lines of characters are
  typed, as long as libsignal encrypts what it is given, and ends when Escape is pressed; along it the directory
  stays well formed.
\<close>

theorem client_never_faults:
  assumes "client_ok st" "encrypts env"
    "list_all (\<lambda>(keys, array, key). length array = 4096 \<and> (\<exists>t. typed 4095 keys [] = Inr (Some t))) ls"
    "list_ex (\<lambda>(keys, array, key). typed 4095 keys [] = Inr (Some None)) ls"
  shows "\<exists>st'. run_client env db ls st = Some (Inr st') \<and> client_ok st'"
  using run_client_ok [OF assms] by blast

theorem client_never_faults_witness:
  "\<exists>st'. run_client demo_send (\<lambda>_. None)
      [([47, 106, 111, 105, 110, 95, 103, 114, 111, 117, 112, 32, 103, 10], nuls 4096, []), ([27], nuls 4096, [])]
      \<lparr>cs_net = zero_network, cs_username = nuls 32, cs_is_running = True, cs_port = 8888, cs_chat = [], cs_sent = []\<rparr> =
    Some (Inr st') \<and> client_ok st'"
proof (rule client_never_faults)
  show "client_ok \<lparr>cs_net = zero_network, cs_username = nuls 32, cs_is_running = True, cs_port = 8888, cs_chat = [], cs_sent = []\<rparr>"
  proof -
    have "pn_local_username zero_network = nuls 32" by (simp add: zero_network_def MAX_USERNAME_LEN_def)
    then show ?thesis using wf_zero_network by (simp add: client_ok_def local_everywhere_def)
  qed
qed (simp_all add: KEY_BACKSPACE_def encrypts_def demo_send_def)

end
