(* ===== verification/P2P_Receiver.thy ===== *)
theory P2P_Receiver
  imports P2P_Client
begin

text \<open>
  The receiver thread of the peer-to-peer messenger (\<^verbatim>\<open>src/p2p_messenger/network.c\<close>) around
  \<open>receive_message\<close>, and the program as a whole (\<^verbatim>\<open>main.c\<close>): start, client loop, joining the receiver,
  release of the network.
\<close>

section \<open>The receiver thread\<close>

text \<open>
  What \<^verbatim>\<open>accept\<close> answers: a failure, or a descriptor with what its memory held before and the bytes the two
  \<^verbatim>\<open>recv\<close> calls deliver. An iteration is the value of \<open>state->is_running\<close> at the loop test and the answer
  of the \<^verbatim>\<open>accept\<close> after it; a thread that waits in \<^verbatim>\<open>accept\<close> has no further iteration.
\<close>

datatype incoming = Accept_failed | Incoming int "byte list" "byte list" "byte list" "byte list"

definition remote_line :: "string \<Rightarrow> string" where
  "remote_line text = [NL] @ ''[Decrypted] REMOTE: '' @ text @ [NL]"

definition serve_incoming :: "(byte list \<Rightarrow> string option) option \<Rightarrow> incoming \<Rightarrow> fault + string list \<times> int list" where
  "serve_incoming decrypt inc =
     (case inc of
        Accept_failed \<Rightarrow> Inr ([], [])
      | Incoming client_fd g1 g2 r1 r2 \<Rightarrow>
          (case receive_message decrypt g1 g2 r1 r2 of
             Inl e \<Rightarrow> Inl e
           | Inr m \<Rightarrow> Inr (case m of Shown t \<Rightarrow> [remote_line t] | _ \<Rightarrow> [], [client_fd])))"

text \<open>The lines shown and the descriptors closed; \<open>None\<close> while the thread has not returned.\<close>

fun receiver_loop :: "(byte list \<Rightarrow> string option) option \<Rightarrow> int \<Rightarrow> (bool \<times> incoming) list \<Rightarrow>
    (fault + string list \<times> int list) option" where
  "receiver_loop decrypt server_fd [] = None"
| "receiver_loop decrypt server_fd ((is_running, inc) # rs) =
     (if \<not> is_running then Some (Inr ([], [server_fd]))
      else case serve_incoming decrypt inc of
        Inl e \<Rightarrow> Some (Inl e)
      | Inr (shown, closed) \<Rightarrow>
          map_option (map_sum id (map_prod ((@) shown) ((@) closed))) (receiver_loop decrypt server_fd rs))"

definition receiver_thread :: "(byte list \<Rightarrow> string option) option \<Rightarrow> int \<Rightarrow> (bool \<times> incoming) list \<Rightarrow>
    (fault + string list \<times> int list) option" where
  "receiver_thread decrypt server_fd rounds = receiver_loop decrypt server_fd rounds"

section \<open>The program\<close>





section \<open>What the properties speak of\<close>

text \<open>A connection that carries one whole direct frame.\<close>

definition whole_frame :: "int \<times> byte list \<Rightarrow> incoming" where
  "whole_frame m = Incoming (fst m) [] [] (take 8 (direct_frame (snd m))) (drop 8 (direct_frame (snd m)))"


section \<open>Lemmas\<close>

lemma serve_whole:
  "length buf \<le> 4096 \<Longrightarrow> serve_incoming (Some decrypt) (whole_frame (fd, buf)) =
   Inr (map remote_line (case decrypt buf of None \<Rightarrow> [] | Some t \<Rightarrow> [t]), [fd])"
  by (simp add: serve_incoming_def whole_frame_def receive_whole split: option.split)



section \<open>Properties\<close>

text \<open>
  The receiver shows what is sent to it: when every connection before the end carries one whole direct
  frame of at most 4096 bytes, the thread returns, has shown exactly the texts that could be decrypted, in the
  order of the connections, and has closed every connection once and the listening socket last.
\<close>

theorem receiver_shows_messages:
  assumes "list_all (\<lambda>m. length (snd m) \<le> 4096) ms"
  shows "receiver_thread (Some decrypt) server_fd (map (\<lambda>m. (True, whole_frame m)) ms @ [(False, x)]) =
    Some (Inr (map remote_line (concat (map (\<lambda>m. case decrypt (snd m) of None \<Rightarrow> [] | Some t \<Rightarrow> [t]) ms)),
      map fst ms @ [server_fd]))"
  using assms unfolding receiver_thread_def
proof (induction ms)
  case (Cons m ms)
  then show ?case by (cases m) (simp add: serve_whole)
qed simp

theorem receiver_shows_messages_witness:
  "receiver_thread (Some (\<lambda>b. if b = [1] then Some ''hi'' else None)) 3
      (map (\<lambda>m. (True, whole_frame m)) [(7, [1]), (8, [2])] @ [(False, Accept_failed)]) =
   Some (Inr ([remote_line ''hi''], [7, 8, 3]))"
  using receiver_shows_messages [of "[(7, [1]), (8, [2])]" "\<lambda>b. if b = [1] then Some ''hi'' else None" 3 Accept_failed]
  by simp



end
