(* ===== verification/P2P_Paths.thy ===== *)
theory P2P_Paths
  imports P2P_Receiver
begin

text \<open>
  The peer-to-peer messenger from keyboard to screen: \<^verbatim>\<open>main.c\<close> and \<^verbatim>\<open>network.c\<close> of \<^verbatim>\<open>src/p2p_messenger\<close>
  together. A typed line goes through the editor, the scanner, the directory and the frame to the receiver thread of
  another program; and what the directory of a program can hold is an invariant of everything that can be typed.
\<close>

section \<open>What the properties speak of\<close>

text \<open>The client knows only itself, and has connected to nobody else.\<close>

definition own_connection :: "int \<Rightarrow> p2p_event \<Rightarrow> bool" where
  "own_connection port e = (case e of Connected ip p \<Rightarrow> ip = ''127.0.0.1'' \<and> p = port | _ \<Rightarrow> True)"

definition self_only :: "string \<Rightarrow> int \<Rightarrow> client_state_t \<Rightarrow> bool" where
  "self_only name port st = (directory (cs_net st) = [name \<mapsto> (''127.0.0.1'', port)] \<and> list_all (own_connection port) (cs_sent st))"


section \<open>Sending a typed line\<close>



lemma send_direct_parts:
  assumes "send_direct_message env net to msg = Inr (r, es)" "directory net = [name \<mapsto> (''127.0.0.1'', port)]"
  shows "list_all (own_connection port) es"
proof -
  have d: "directory net to = (if to = name then Some (''127.0.0.1'', port) else None)" using assms(2) by simp
  show ?thesis
    using assms(1) d
    by (auto simp: send_direct_message_def directory_def own_connection_def save_p2p_message_def Let_def
        split: option.splits if_splits)
qed

section \<open>The directory of a client never grows\<close>

lemma create_group_users:
  "create_group net name key = Inr (r, n) \<Longrightarrow> directory n = directory net"
  by (auto simp: create_group_def lock_def unlock_def Let_def directory_def find_user_def fun_eq_iff
      split: sum.splits option.splits if_splits)

lemma self_only_kept [simp]:
  "self_only name port (say t st) = self_only name port st" "self_only name port (st\<lparr>cs_chat := c\<rparr>) = self_only name port st"
  "self_only name port (st\<lparr>cs_is_running := b\<rparr>) = self_only name port st"
  by (simp_all add: self_only_def say_def)

lemma send_unknown: "directory net to = None \<Longrightarrow> send_direct_message env net to msg = Inr (-1, [])"
  by (simp add: send_direct_message_def directory_def)

lemma command_msg_self:
  assumes "self_only name port st" "command_msg env input st = Inr st'"
  shows "self_only name port st'"
proof -
  have "self_only name port (st\<lparr>cs_sent := cs_sent st @ es\<rparr>)" if "send_direct_message env (cs_net st) to msg = Inr (r, es)" for to msg r es
    using assms(1) send_direct_parts [OF that] by (simp add: self_only_def)
  with assms show ?thesis
    by (auto simp: command_msg_def Let_def split: list.splits sum.splits prod.splits if_splits)
qed

lemma run_command_self:
  assumes "client_ok st" "self_only name port st" "run_command env key input st = Inr st'"
  shows "self_only name port st'"
proof -
  have "self_only name port st'" if "command_create key input st = Inr st'"
    using that assms(2) create_group_users
    by (auto simp: command_create_def Let_def self_only_def say_def split: list.splits sum.splits prod.splits if_splits)
  moreover have "self_only name port st'" if "command_join input st = Inr st'"
    using that assms(2) join_group_client [OF assms(1)]
    by (auto simp: command_join_def Let_def self_only_def say_def split: list.splits sum.splits prod.splits if_splits)
  ultimately show ?thesis
    using assms(2,3) command_msg_self [OF assms(2), of env input] unfolding run_command_def by (auto split: if_splits)
qed

lemma client_loop_self:
  "client_ok st \<Longrightarrow> self_only name port st \<Longrightarrow> list_all (\<lambda>(keys, array, key). length array = 4096) ls \<Longrightarrow>
   client_loop env ls st = Some (Inr st') \<Longrightarrow> self_only name port st'"
proof (induction ls arbitrary: st)
  case (Cons l ls)
  obtain keys array key where l: "l = (keys, array, key)" by (cases l)
  have "length array = 4096" using Cons.prems(3) l by simp
  then show ?case
  proof (cases rule: read_line_cases [where keys = keys])
    case (line b t)
    show ?thesis
    proof (cases "run_command env key (cstr b) st")
      case (Inr st1)
      have "client_ok st1" using run_command_keeps [OF Cons.prems(1) line(2) Inr] by simp
      note IH = Cons.IH [OF this run_command_self [OF Cons.prems(1,2) Inr]]
      from IH Cons.prems l line(1) Inr show ?thesis by (auto split: if_splits)
    qed (use Cons.prems l line(1) in \<open>auto split: if_splits\<close>)
  qed (use Cons.prems l in \<open>auto split: if_splits\<close>)
qed (auto split: if_splits)

section \<open>Properties\<close>



text \<open>
  C23. The messenger reaches only itself: started with a name and a port, whatever lines are typed, the client knows no user
  but the one it runs for, so that every connection it makes goes to its own port at 127.0.0.1 and a message to anybody else
  is refused without a connection. Nothing in the program adds another user.
\<close>

theorem messenger_reaches_only_itself:
  assumes "is_cstr name" "snd opened" "client_start atoi opened ctx store now [name, port] = Inr (Inr st)"
    "list_all (\<lambda>(keys, array, key). length array = 4096) ls" "run_client env db ls st = Some (Inr st')"
  shows "directory (cs_net st') = [take 31 name \<mapsto> (''127.0.0.1'', atoi port)] \<and>
    (\<forall>ip p. Connected ip p \<in> set (cs_sent st') \<longrightarrow> ip = ''127.0.0.1'' \<and> p = atoi port) \<and>
    (\<forall>env to msg. to \<noteq> take 31 name \<longrightarrow> send_direct_message env (cs_net st') to msg = Inr (-1, []))"
proof -
  have ok: "client_ok st" "directory (cs_net st) = [take 31 name \<mapsto> (''127.0.0.1'', atoi port)]"
    using client_start_ok [OF assms(1,2), of atoi ctx store now port] assms(3) by auto
  have "cs_sent st = []" using assms(3) by (auto simp: client_start_def Let_def split: prod.splits if_splits sum.splits)
  with ok have "self_only (take 31 name) (atoi port) st" by (simp add: self_only_def)
  moreover obtain c where "run_client env db ls st = client_loop env ls (st\<lparr>cs_chat := c, cs_is_running := True\<rparr>)"
    by (simp add: run_client_def Let_def)
  ultimately have self: "self_only (take 31 name) (atoi port) st'"
    using client_loop_self [OF _ _ assms(4), of "st\<lparr>cs_chat := c, cs_is_running := True\<rparr>"] ok(1) assms(5) by simp
  have "send_direct_message env' (cs_net st') to msg = Inr (-1, [])" if "to \<noteq> take 31 name" for env' to msg
    using that self by (intro send_unknown) (simp add: self_only_def)
  with self show ?thesis by (auto simp: self_only_def own_connection_def list_all_iff)
qed

theorem messenger_reaches_only_itself_witness:
  "\<exists>st st'. client_start (\<lambda>_. 8888) (1, True) None None 5 [''ann'', ''8888''] = Inr (Inr st) \<and>
    run_client demo_send (\<lambda>_. None) [([27], nuls 4096, [])] st = Some (Inr st') \<and>
    send_direct_message demo_send (cs_net st') ''bob'' ''hi'' = Inr (-1, [])"
proof -
  obtain st where st: "client_start (\<lambda>_. 8888) (1, True) None None 5 [''ann'', ''8888''] = Inr (Inr st)" "client_ok st"
    using client_start_ok [of "''ann''" "(1, True)" "\<lambda>_. 8888" None None 5 "''8888''"] by auto
  obtain st' where st': "run_client demo_send (\<lambda>_. None) [([27], nuls 4096, [])] st = Some (Inr st')"
    using run_client_ok [OF st(2), of demo_send "[([27], nuls 4096, [])]" "\<lambda>_. None"] by (auto simp: encrypts_def demo_send_def)
  have "send_direct_message demo_send (cs_net st') ''bob'' ''hi'' = Inr (-1, [])"
    using messenger_reaches_only_itself [OF _ _ st(1) _ st'] by simp
  with st(1) st' show ?thesis by blast
qed

end
