(* ===== verification/Term_Layout.thy ===== *)
theory Term_Layout
  imports P2P_Client
begin

text \<open>
  The windows of the two terminal clients, \<^verbatim>\<open>src/p2p_messenger/main.c\<close> and its draft \<^verbatim>\<open>client.c\<close>: the arguments
  both pass to \<^verbatim>\<open>newwin\<close> for a terminal of the size \<^verbatim>\<open>getmaxyx\<close> reports. What \<^verbatim>\<open>ncurses\<close> does with them is not
  modelled.
\<close>

record win_args =
  wa_nlines :: int
  wa_ncols :: int
  wa_begin_y :: int
  wa_begin_x :: int

record client_windows =
  chat_win :: win_args
  users_win :: win_args
  input_win :: win_args

definition newwin :: "int \<Rightarrow> int \<Rightarrow> int \<Rightarrow> int \<Rightarrow> win_args" where
  "newwin nlines ncols y x = \<lparr>wa_nlines = nlines, wa_ncols = ncols, wa_begin_y = y, wa_begin_x = x\<rparr>"

definition open_windows :: "int \<Rightarrow> int \<Rightarrow> client_windows" where
  "open_windows h w =
     \<lparr>chat_win = newwin (h - 4) (w - 20) 0 0, users_win = newwin (h - 4) 20 0 (w - 20), input_win = newwin 3 w (h - 3) 0\<rparr>"

definition draft_windows :: "int \<Rightarrow> int \<Rightarrow> client_windows" where
  "draft_windows height width =
     \<lparr>chat_win = newwin (height - 4) (width - 20) 0 0, users_win = newwin (height - 4) 20 0 (width - 20),
      input_win = newwin 3 width (height - 3) 0\<rparr>"

text \<open>The cells of the terminal, row first, that a window of these arguments takes.\<close>

definition win_cells :: "win_args \<Rightarrow> (int \<times> int) set" where
  "win_cells a = {wa_begin_y a..<wa_begin_y a + wa_nlines a} \<times> {wa_begin_x a..<wa_begin_x a + wa_ncols a}"

definition screen :: "int \<Rightarrow> int \<Rightarrow> (int \<times> int) set" where
  "screen h w = {0..<h} \<times> {0..<w}"

definition win_positive :: "win_args \<Rightarrow> bool" where
  "win_positive a \<longleftrightarrow> 0 < wa_nlines a \<and> 0 < wa_ncols a \<and> 0 \<le> wa_begin_y a \<and> 0 \<le> wa_begin_x a"

lemmas layout_defs = open_windows_def draft_windows_def newwin_def win_cells_def screen_def win_positive_def

text \<open>
  The windows of a terminal client divide the terminal: both clients ask for the same three windows, and with at
  least five rows and 21 columns these are not empty, do not overlap and take all of the screen but the row
  between the chat and the input; with fewer rows or columns one of them has no cells or starts outside.
\<close>

theorem windows_divide_screen:
  "draft_windows h w = open_windows h w \<and>
   (let l = open_windows h w; ws = [chat_win l, users_win l, input_win l] in
    if 5 \<le> h \<and> 21 \<le> w
    then list_all win_positive ws \<and> disjnt (win_cells (chat_win l)) (win_cells (users_win l)) \<and>
      disjnt (win_cells (chat_win l)) (win_cells (input_win l)) \<and> disjnt (win_cells (users_win l)) (win_cells (input_win l)) \<and>
      \<Union> (win_cells ` set ws) = screen h w - {h - 4} \<times> UNIV
    else \<not> list_all win_positive ws)"
  by (auto simp: layout_defs disjnt_def Let_def)

end
