(* ===== verification/Draft_Client.thy ===== *)
theory Draft_Client
  imports P2P_Client
begin

text \<open>
  The draft of the terminal client, \<^verbatim>\<open>src/p2p_messenger/client.c\<close>, as far as it can be read: its line
  editor, the parsing of its commands with the fixed arrays it scans into, its loop and its receiver thread. It
  uses a message struct, keys and encryption functions that are declared nowhere in the repository; what a
  command goes on to do with them is only named here (\<open>draft_action\<close>).
\<close>

section \<open>The line editor\<close>

text \<open>
  The inner loop: a key is read before the test for room, so on a full line the next key ends the line and is
  lost. After the loop the line is terminated.
\<close>

fun draft_edit :: "nat list \<Rightarrow> char list \<Rightarrow> nat \<Rightarrow> fault + edited" where
  "draft_edit [] input pos = Inr Waiting"
| "draft_edit (ch # keys) input pos =
     (if ch = 10 \<or> \<not> pos < MAX_MESSAGE_LEN - 1 then map_sum id Line (poke input pos NUL)
      else if ch = KEY_BACKSPACE \<or> ch = 127 then
        if pos > 0 then
          (case poke input (pos - 1) NUL of Inl e \<Rightarrow> Inl e | Inr input' \<Rightarrow> draft_edit keys input' (pos - 1))
        else draft_edit keys input pos
      else if ch = 27 then Inr Quit
      else case isprint_key ch of
        Inl e \<Rightarrow> Inl e
      | Inr printable \<Rightarrow>
          if printable then
            (case poke input pos (char_of ch) of Inl e \<Rightarrow> Inl e | Inr input' \<Rightarrow> draft_edit keys input' (pos + 1))
          else draft_edit keys input pos)"

definition draft_read_line :: "nat list \<Rightarrow> fault + edited" where
  "draft_read_line keys = draft_edit keys (nuls MAX_MESSAGE_LEN) 0"

section \<open>Commands\<close>

datatype draft_action = Draft_quit | Draft_users | Draft_groups | Draft_help | Draft_nothing
  | Draft_msg string string | Draft_create string | Draft_join string | Draft_say string

text \<open>\<^verbatim>\<open>sscanf\<close> with fields of no width into arrays: a field that does not fit with its NUL leaves its array.\<close>

definition scan_into :: "nat list \<Rightarrow> string list \<Rightarrow> fault + string list" where
  "scan_into sizes toks =
     (if list_all (\<lambda>(size, f). length f < size) (zip sizes toks) then Inr toks else Inl Buffer_overflow)"

definition draft_msg :: "string \<Rightarrow> fault + draft_action" where
  "draft_msg input =
     (case scan_into [MAX_USERNAME_LEN, MAX_MESSAGE_LEN]
        (sscanf (lits ''/msg'' @ [Ws, Word_field None, Ws, Line_field None]) input) of
        Inl e \<Rightarrow> Inl e
      | Inr [target_user, message] \<Rightarrow> Inr (Draft_msg target_user message)
      | _ \<Rightarrow> Inr Draft_nothing)"

definition draft_create_group :: "string \<Rightarrow> fault + draft_action" where
  "draft_create_group input =
     (case scan_into [MAX_GROUP_NAME_LEN] (sscanf (lits ''/create_group'' @ [Ws, Word_field None]) input) of
        Inl e \<Rightarrow> Inl e
      | Inr [name] \<Rightarrow> Inr (Draft_create name)
      | _ \<Rightarrow> Inr Draft_nothing)"

definition draft_join_group :: "string \<Rightarrow> fault + draft_action" where
  "draft_join_group input =
     (case scan_into [MAX_GROUP_NAME_LEN] (sscanf (lits ''/join_group'' @ [Ws, Word_field None]) input) of
        Inl e \<Rightarrow> Inl e
      | Inr [name] \<Rightarrow> Inr (Draft_join name)
      | _ \<Rightarrow> Inr Draft_nothing)"

definition draft_command :: "string \<Rightarrow> fault + draft_action" where
  "draft_command input =
     (if take 1 input = ''/'' then
        if strncmp_eq input ''/quit'' 5 then Inr Draft_quit
        else if strncmp_eq input ''/users'' 6 then Inr Draft_users
        else if strncmp_eq input ''/msg'' 4 then draft_msg input
        else if strncmp_eq input ''/create_group'' 13 then draft_create_group input
        else if strncmp_eq input ''/join_group'' 11 then draft_join_group input
        else if strncmp_eq input ''/groups'' 7 then Inr Draft_groups
        else if input = ''/help'' then Inr Draft_help
        else Inr Draft_nothing
      else if input \<noteq> [] then Inr (Draft_say input)
      else Inr Draft_nothing)"

text \<open>The loop of \<open>run_client\<close> over the keys of each line; \<open>None\<close> while it waits for more.\<close>

fun draft_loop :: "nat list list \<Rightarrow> (fault + draft_action list) option" where
  "draft_loop [] = None"
| "draft_loop (keys # ls) =
     (case draft_read_line keys of
        Inl e \<Rightarrow> Some (Inl e)
      | Inr Waiting \<Rightarrow> None
      | Inr Quit \<Rightarrow> Some (Inr [])
      | Inr (Line b) \<Rightarrow>
          (case draft_command (cstr b) of
             Inl e \<Rightarrow> Some (Inl e)
           | Inr a \<Rightarrow> if a = Draft_quit then Some (Inr [a])
                     else map_option (map_sum id (Cons a)) (draft_loop ls)))"

section \<open>The receiver thread\<close>

text \<open>
  An iteration: the value of the flag at the loop test, and what \<^verbatim>\<open>select\<close> with its timeout of one second and the
  calls after it give. A delivery is a descriptor, the number of bytes received, and the type, sender and text
  of the struct they fill. The message is shown as it came.
\<close>

datatype draft_activity = Idle_second | Draft_accept_failed | Delivery int int int string string

definition draft_show :: "draft_activity \<Rightarrow> string list \<times> int list" where
  "draft_show act =
     (case act of
        Delivery fd bytes_received ty sender text \<Rightarrow>
          (if bytes_received > 0 \<and> ty = 1 then [[NL] @ sender @ '': '' @ text @ [NL]] else [], [fd])
      | _ \<Rightarrow> ([], []))"

fun draft_receive :: "int \<Rightarrow> (bool \<times> draft_activity) list \<Rightarrow> (string list \<times> int list) option" where
  "draft_receive server_fd [] = None"
| "draft_receive server_fd ((is_running, act) # rs) =
     (if \<not> is_running then Some ([], [server_fd])
      else let (shown, closed) = draft_show act
           in map_option (map_prod ((@) shown) ((@) closed)) (draft_receive server_fd rs))"

text \<open>Only descriptor 0 counts as a failed \<^verbatim>\<open>socket\<close>.\<close>

definition message_receiver :: "int \<Rightarrow> int \<Rightarrow> int \<Rightarrow> int \<Rightarrow> (bool \<times> draft_activity) list \<Rightarrow> (string list \<times> int list) option" where
  "message_receiver server_fd opt bound listening rounds =
     (if server_fd = 0 then Some ([], [])
      else if opt \<noteq> 0 \<or> bound < 0 \<or> listening < 0 then Some ([], [server_fd])
      else draft_receive server_fd rounds)"

section \<open>What the properties speak of\<close>

text \<open>What typing gives when the key after the last free cell ends the line.\<close>

fun draft_typed :: "nat \<Rightarrow> nat list \<Rightarrow> string \<Rightarrow> fault + string option option" where
  "draft_typed n [] s = Inr None"
| "draft_typed n (ch # keys) s =
     (if ch = 10 \<or> \<not> length s < n then Inr (Some (Some s))
      else if ch = KEY_BACKSPACE \<or> ch = 127 then draft_typed n keys (butlast s)
      else if ch = 27 then Inr (Some None)
      else if 255 < ch then Inl Out_of_bounds_read
      else if 32 \<le> ch \<and> ch \<le> 126 then draft_typed n keys (s @ [char_of ch])
      else draft_typed n keys s)"

section \<open>Lemmas\<close>

lemma draft_edit_typed:
  "length input = 4096 \<Longrightarrow> pos \<le> 4095 \<Longrightarrow> take pos input = s \<Longrightarrow> is_cstr s \<Longrightarrow>
   edit_result (draft_typed 4095 keys s) (draft_edit keys input pos)"
proof (induction keys arbitrary: input pos s)
  case (Cons ch keys)
  have ls: "length s = pos" using Cons.prems by auto
  consider (stop) "ch = 10 \<or> \<not> pos < 4095" | (erase) "\<not> (ch = 10 \<or> \<not> pos < 4095)" "ch = KEY_BACKSPACE \<or> ch = 127"
    | (key) "\<not> (ch = 10 \<or> \<not> pos < 4095)" "\<not> (ch = KEY_BACKSPACE \<or> ch = 127)" "ch \<noteq> 27" "32 \<le> ch" "ch \<le> 126"
    | (odd) "\<not> (ch = 10 \<or> \<not> pos < 4095)" "\<not> (ch = KEY_BACKSPACE \<or> ch = 127)" "ch = 27 \<or> 255 < ch"
    | (other) "\<not> (ch = 10 \<or> \<not> pos < 4095)" "\<not> (ch = KEY_BACKSPACE \<or> ch = 127)" "ch \<noteq> 27" "\<not> 255 < ch" "\<not> (32 \<le> ch \<and> ch \<le> 126)"
    by blast
  then show ?case
  proof cases
    case stop
    have "input[pos := NUL] = s @ NUL # drop (Suc pos) input"
      using upd_conv_take_nth_drop [of pos input NUL] Cons.prems by simp
    then show ?thesis using stop Cons.prems ls by (simp add: poke_def edit_result_def MAX_MESSAGE_LEN_def)
  next
    case erase
    show ?thesis
    proof (cases "pos = 0")
      case True
      with Cons.prems ls have "s = []" by simp
      with Cons.IH [OF Cons.prems] True erase show ?thesis by (simp add: MAX_MESSAGE_LEN_def)
    next
      case False
      have "take (pos - 1) (input[pos - 1 := NUL]) = butlast s"
        using Cons.prems False by (auto simp: butlast_take min_def)
      moreover have "pos - 1 < 4096" using Cons.prems(2) by simp
      moreover have "is_cstr (butlast s)" using Cons.prems(4) by (auto simp: is_cstr_def dest: in_set_butlastD)
      ultimately show ?thesis
        using Cons.IH [of "input[pos - 1 := NUL]" "pos - 1" "butlast s"] Cons.prems False erase ls
        by (simp add: poke_def MAX_MESSAGE_LEN_def)
    qed
  next
    case key
    then have "take (Suc pos) (input[pos := char_of ch]) = s @ [char_of ch]"
      using Cons.prems take_poke [of pos input] by simp
    with Cons.IH [of "input[pos := char_of ch]" "Suc pos" "s @ [char_of ch]"] Cons.prems key ls char_of_printable
    show ?thesis by (simp add: poke_def MAX_MESSAGE_LEN_def isprint_key_def)
  next
    case odd
    with ls show ?thesis by (auto simp: MAX_MESSAGE_LEN_def edit_result_def isprint_key_def)
  next
    case other
    with Cons.IH [OF Cons.prems] ls show ?thesis by (auto simp: MAX_MESSAGE_LEN_def isprint_key_def)
  qed
qed (simp add: edit_result_def)

lemma draft_typed_short: "length s + length keys \<le> n \<Longrightarrow> draft_typed n keys s = typed n keys s"
  by (induction keys arbitrary: s) (auto simp: KEY_BACKSPACE_def)

lemma sscanf_free_word:
  "is_word s \<Longrightarrow> sscanf [Ws, Word_field None] (CHR '' '' # s) = [s]"
proof -
  assume s: "is_word s"
  have "takeWhile (\<lambda>c. \<not> isspace c) s = s" "dropWhile isspace s = s" "s \<noteq> []"
    using s by (simp_all add: is_word_def takeWhile_word_end dropWhile_word_end)
  then show ?thesis by (simp only: sscanf.simps Let_def upto_def option.case isspace_blank dropWhile.simps if_True) simp
qed

lemma scan_word:
  "is_word s \<Longrightarrow> sscanf (lits p @ [Ws, Word_field None]) (p @ CHR '' '' # s) = [s]"
  by (simp only: sscanf_lits sscanf_free_word)

section \<open>Properties\<close>

text \<open>
  The two line editors agree: on at most 4095 keys the draft's editor and the messenger's editor both give
  exactly what was typed (a line, a quit, waiting for more, or the fault of a key that is no character), and neither leaves its array of 4096 cells.
\<close>

theorem editors_agree:
  assumes "length keys \<le> 4095" "length array = 4096"
  shows "edit_result (typed 4095 keys []) (draft_read_line keys) \<and> edit_result (typed 4095 keys []) (read_line keys array)"
proof -
  have "edit_result (draft_typed 4095 keys []) (draft_read_line keys)"
    unfolding draft_read_line_def by (rule draft_edit_typed) (simp_all add: MAX_MESSAGE_LEN_def)
  moreover have "draft_typed 4095 keys [] = typed 4095 keys []" using assms(1) by (simp add: draft_typed_short)
  ultimately show ?thesis
    using edit_loop_typed [OF assms(2), of 0 "[]" keys] by (simp add: read_line_def)
qed

theorem editors_agree_witness:
  "edit_result (Inr (Some (Some ''ho''))) (draft_read_line [104, 105, 127, 111, 10]) \<and>
   edit_result (Inr (Some (Some ''ho''))) (read_line [104, 105, 127, 111, 10] (nuls 4096))"
  using editors_agree [of "[104, 105, 127, 111, 10]" "nuls 4096"]
  by (simp add: KEY_BACKSPACE_def isprint_key_def char_of_def bit_0)

text \<open>
  The draft's group commands take names of any length: a command with a name of up to 31 characters is
  parsed as it was typed, and a longer name is written past the end of the 32-byte array it is scanned into.
\<close>

theorem draft_group_names:
  assumes "is_word name"
  shows "draft_command (''/create_group '' @ name) = (if length name < 32 then Inr (Draft_create name) else Inl Buffer_overflow) \<and>
    draft_command (''/join_group '' @ name) = (if length name < 32 then Inr (Draft_join name) else Inl Buffer_overflow)"
  using scan_word [OF assms, of "''/create_group''"] scan_word [OF assms, of "''/join_group''"]
  by (simp add: draft_command_def strncmp_eq_def draft_create_group_def draft_join_group_def scan_into_def
      MAX_GROUP_NAME_LEN_def)

theorem draft_group_names_witness:
  "draft_command (''/create_group '' @ replicate 32 CHR ''g'') = Inl Buffer_overflow \<and>
   draft_command (''/join_group '' @ ''team'') = Inr (Draft_join ''team'')"
proof -
  have "is_word (replicate 32 CHR ''g'')" "is_word ''team''"
    by (auto simp: is_word_def isspace_def list_all_iff)
  then show ?thesis
    using draft_group_names [of "replicate 32 CHR ''g''"] draft_group_names [of "''team''"] by simp
qed

end
