(* ===== verification/Draft_Session.thy ===== *)
theory Draft_Session
  imports Draft_Client P2P_Receiver
begin

text \<open>
  The rest of the drafts \<^verbatim>\<open>src/p2p_messenger/client.c\<close> and \<^verbatim>\<open>src/p2p_messenger/p2p_messenger.c\<close>: what a parsed
  command does, the client loop and the main function of the first, the encryption and the callbacks of the
  second. Both use a network, a message struct and functions that are declared nowhere in the repository; these
  are the record \<open>draft_lib\<close> of what the code calls and reads, with the sizes of the arrays of the message
  struct. The windows are the texts written to the chat window; the list of users drawn at the start is left out.
\<close>

section \<open>What the drafts rely on\<close>

record p2p_message_t =
  pm_type :: int
  pm_from :: "char list"
  pm_to :: "char list"
  pm_iv :: "byte list"
  pm_tag :: "byte list"
  pm_message :: "byte list"
  pm_message_len :: int

text \<open>
  \<open>dl_users\<close>, \<open>dl_groups\<close>: the first \<open>user_count\<close> and \<open>group_count\<close> entries; \<open>dl_find_user\<close>: address and port of the
  user found; \<open>dl_derive\<close>: result and secret for the public key of a user found; \<open>dl_encrypt\<close>: result, the array
  \<open>ciphertext\<close> after the call (longer than declared when the call wrote past it), nonce and tag.
\<close>

record 'net draft_lib =
  dl_init :: "int \<times> 'net"
  dl_add_user :: "'net \<Rightarrow> string \<Rightarrow> string \<Rightarrow> int \<Rightarrow> 'net"
  dl_users :: "'net \<Rightarrow> (string \<times> string \<times> int) list"
  dl_groups :: "'net \<Rightarrow> (string \<times> int) list"
  dl_find_user :: "'net \<Rightarrow> string \<Rightarrow> (string \<times> int) option"
  dl_derive :: "'net \<Rightarrow> string \<Rightarrow> int \<times> byte list"
  dl_encrypt :: "byte list \<Rightarrow> byte list \<Rightarrow> int \<times> byte list \<times> byte list \<times> byte list"
  dl_create_group :: "'net \<Rightarrow> string \<Rightarrow> string \<Rightarrow> int \<times> 'net"
  dl_join_group :: "'net \<Rightarrow> string \<Rightarrow> string \<Rightarrow> int \<times> 'net"
  dl_public_key :: "'net \<Rightarrow> byte list"
  dl_from_size :: nat
  dl_to_size :: nat
  dl_message_size :: nat
  dl_socket :: int
  dl_connect :: int
  dl_port :: int

datatype draft_event = Draft_connect string int | Draft_send p2p_message_t | Draft_close int

record 'net draft_state =
  ds_net :: 'net
  ds_username :: "char list"
  ds_is_running :: bool
  ds_chat :: "string list"
  ds_sent :: "draft_event list"

definition draft_says :: "string list \<Rightarrow> 'net draft_state \<Rightarrow> 'net draft_state" where
  "draft_says ts st = st\<lparr>ds_chat := ds_chat st @ ts\<rparr>"

definition draft_does :: "draft_event list \<Rightarrow> 'net draft_state \<Rightarrow> 'net draft_state" where
  "draft_does es st = st\<lparr>ds_sent := ds_sent st @ es\<rparr>"

section \<open>Private messages\<close>

text \<open>The message struct, cleared and filled: \<open>n\<close> bytes are copied from the array of 4096.\<close>

definition draft_pack :: "'net draft_lib \<Rightarrow> string \<Rightarrow> string \<Rightarrow> int \<Rightarrow> byte list \<Rightarrow> byte list \<Rightarrow> byte list \<Rightarrow> fault + p2p_message_t" where
  "draft_pack L username target_user n cells iv tag =
     (case strcpy (nuls (dl_from_size L)) username of
        Inl e \<Rightarrow> Inl e
      | Inr sender \<Rightarrow>
          (case strcpy (nuls (dl_to_size L)) target_user of
             Inl e \<Rightarrow> Inl e
           | Inr target \<Rightarrow>
               if MAX_MESSAGE_LEN < nat n then Inl Out_of_bounds_read
               else if dl_message_size L < nat n then Inl Buffer_overflow
               else Inr \<lparr>pm_type = 1, pm_from = sender, pm_to = target, pm_iv = take 16 iv, pm_tag = take 16 tag,
                 pm_message = take (nat n) cells @ zeros (dl_message_size L - nat n), pm_message_len = n\<rparr>))"

definition draft_private :: "'net draft_lib \<Rightarrow> string \<Rightarrow> string \<Rightarrow> 'net draft_state \<Rightarrow> fault + 'net draft_state" where
  "draft_private L target_user message st =
     (case dl_find_user L (ds_net st) target_user of
        None \<Rightarrow> Inr (draft_says [[NL] @ ''User '' @ target_user @ '' not found'' @ [NL]] st)
      | Some (ip, port) \<Rightarrow>
          let (r, shared_secret) = dl_derive L (ds_net st) target_user in
          if r \<noteq> 0 then Inr st
          else let (n, cells, iv, tag) = dl_encrypt L (map byte_of message) shared_secret in
          if MAX_MESSAGE_LEN < length cells then Inl Buffer_overflow
          else if n \<le> 0 then Inr st
          else case draft_pack L (cstr (ds_username st)) target_user n cells iv tag of
            Inl e \<Rightarrow> Inl e
          | Inr encrypted_msg \<Rightarrow>
              if dl_socket L < 0 then Inr st
              else if dl_connect L < 0 then Inr (draft_does [Draft_close (dl_socket L)] st)
              else Inr (draft_does [Draft_connect ip port, Draft_send encrypted_msg, Draft_close (dl_socket L)]
                (draft_says [[NL] @ ''[Encrypted to '' @ target_user @ '']: '' @ message @ [NL]] st)))"

section \<open>Commands\<close>

definition bullet :: string where
  "bullet = [CHR 0xE2, CHR 0x80, CHR 0xA2]"

definition quoted_name :: "string \<Rightarrow> string" where
  "quoted_name s = [CHR 0x27] @ s @ [CHR 0x27]"

definition draft_user_line :: "string \<times> string \<times> int \<Rightarrow> string" where
  "draft_user_line u = (case u of (name, ip, port) \<Rightarrow> bullet @ '' '' @ name @ '' ('' @ ip @ '':'' @ dec_int port @ '')'' @ [NL])"

definition draft_group_line :: "string \<times> int \<Rightarrow> string" where
  "draft_group_line g = (case g of (name, k) \<Rightarrow> bullet @ '' '' @ name @ '' ('' @ dec_int k @ '' members)'' @ [NL])"

definition draft_help :: "string list" where
  "draft_help =
    [[NL] @ ''=== Available Commands ==='' @ [NL],
     ''/msg <user> <message> - Send encrypted private message'' @ [NL],
     ''/create_group <name> - Create a new group chat'' @ [NL],
     ''/join_group <name> - Join existing group'' @ [NL],
     ''/groups - List your groups'' @ [NL],
     ''/users - Show online users'' @ [NL],
     ''/help - Show this help'' @ [NL],
     ''/quit - Exit messenger'' @ [NL],
     ''========================'' @ [NL]]"

definition draft_create :: "'net draft_lib \<Rightarrow> string \<Rightarrow> 'net draft_state \<Rightarrow> 'net draft_state" where
  "draft_create L name st =
     (let (r, n) = dl_create_group L (ds_net st) name (cstr (ds_username st)) in
      draft_says [if r = 0 then [NL] @ ''Group '' @ quoted_name name @ '' created successfully!'' @ [NL]
                  else [NL] @ ''Failed to create group '' @ quoted_name name @ [NL]] (st\<lparr>ds_net := n\<rparr>))"

definition draft_join :: "'net draft_lib \<Rightarrow> string \<Rightarrow> 'net draft_state \<Rightarrow> 'net draft_state" where
  "draft_join L name st =
     (let (r, n) = dl_join_group L (ds_net st) name (cstr (ds_username st)) in
      draft_says [if r = 0 then [NL] @ ''Joined group '' @ quoted_name name @ '' successfully!'' @ [NL]
                  else [NL] @ ''Failed to join group '' @ quoted_name name @ [NL]] (st\<lparr>ds_net := n\<rparr>))"

fun draft_act :: "'net draft_lib \<Rightarrow> draft_action \<Rightarrow> 'net draft_state \<Rightarrow> fault + 'net draft_state" where
  "draft_act L Draft_quit st = Inr (st\<lparr>ds_is_running := False\<rparr>)"
| "draft_act L Draft_users st = Inr (draft_says
     (([NL] @ ''=== Online Users ==='' @ [NL]) # map draft_user_line (dl_users L (ds_net st)) @ [''==================='' @ [NL]]) st)"
| "draft_act L (Draft_msg t m) st = draft_private L t m st"
| "draft_act L (Draft_create g) st = Inr (draft_create L g st)"
| "draft_act L (Draft_join g) st = Inr (draft_join L g st)"
| "draft_act L Draft_groups st = Inr (draft_says
     (([NL] @ ''=== Your Groups ==='' @ [NL]) # map draft_group_line (dl_groups L (ds_net st)) @ [''=================='' @ [NL]]) st)"
| "draft_act L Draft_help st = Inr (draft_says draft_help st)"
| "draft_act L (Draft_say s) st = Inr (draft_says [[NL] @ cstr (ds_username st) @ '': '' @ s @ [NL]] st)"
| "draft_act L Draft_nothing st = Inr st"

section \<open>The program\<close>

text \<open>The loop of \<open>run_client\<close>, over the keys of each line.\<close>

fun draft_run :: "'net draft_lib \<Rightarrow> nat list list \<Rightarrow> 'net draft_state \<Rightarrow> (fault + 'net draft_state) option" where
  "draft_run L [] st = (if ds_is_running st then None else Some (Inr st))"
| "draft_run L (keys # ls) st =
     (if \<not> ds_is_running st then Some (Inr st)
      else case draft_read_line keys of
        Inl e \<Rightarrow> Some (Inl e)
      | Inr Waiting \<Rightarrow> None
      | Inr Quit \<Rightarrow> Some (Inr (st\<lparr>ds_is_running := False\<rparr>))
      | Inr (Line b) \<Rightarrow>
          (case draft_command (cstr b) of
             Inl e \<Rightarrow> Some (Inl e)
           | Inr a \<Rightarrow> (case draft_act L a st of Inl e \<Rightarrow> Some (Inl e) | Inr st' \<Rightarrow> draft_run L ls st')))"

definition draft_banner :: "'net draft_lib \<Rightarrow> 'net draft_state \<Rightarrow> string list" where
  "draft_banner L st =
    [''=== Secure P2P Messenger ==='' @ [NL],
     ''User: '' @ cstr (ds_username st) @ '' | Port: '' @ dec_int (dl_port L) @ [NL], ''Key fingerprint: ''] @
    map hex2 (take 8 (dl_public_key L (ds_net st))) @ [''...'' @ [NL], ''Type /help for commands'' @ [NL, NL]]"

text \<open>\<open>receiver\<close>: what the receiver thread showed and closed, \<open>None\<close> while it has not returned and is waited for.\<close>

definition draft_client :: "'net draft_lib \<Rightarrow> nat list list \<Rightarrow> (string list \<times> int list) option \<Rightarrow> 'net draft_state \<Rightarrow>
    (fault + 'net draft_state) option" where
  "draft_client L ls receiver st =
     (case draft_run L ls (draft_says (draft_banner L st) (st\<lparr>ds_is_running := True\<rparr>)) of
        None \<Rightarrow> None
      | Some (Inl e) \<Rightarrow> Some (Inl e)
      | Some (Inr st1) \<Rightarrow>
          map_option (\<lambda>(shown, closed). Inr (draft_does (map Draft_close closed) (draft_says shown (st1\<lparr>ds_is_running := False\<rparr>)))) receiver)"

datatype 'net draft_result = Draft_faulted fault | Draft_returned int "'net option" | Draft_running

text \<open>\<open>args\<close>: the arguments after the program name. The network a return of 0 released is part of the result.\<close>

definition draft_main :: "'net draft_lib \<Rightarrow> string list \<Rightarrow> nat list list \<Rightarrow> (string list \<times> int list) option \<Rightarrow> 'net draft_result" where
  "draft_main L args ls receiver =
     (case args of
        [] \<Rightarrow> Draft_returned 1 None
      | name # _ \<Rightarrow>
          (case strcpy (nuls MAX_USERNAME_LEN) name of
             Inl e \<Rightarrow> Draft_faulted e
           | Inr username \<Rightarrow>
               let (r, net) = dl_init L in
               if r \<noteq> 0 then Draft_returned 1 None
               else case draft_client L ls receiver
                   \<lparr>ds_net = dl_add_user L net name ''127.0.0.1'' (dl_port L), ds_username = username, ds_is_running = False,
                    ds_chat = [], ds_sent = []\<rparr> of
                 None \<Rightarrow> Draft_running
               | Some (Inl e) \<Rightarrow> Draft_faulted e
               | Some (Inr st) \<Rightarrow> Draft_returned 0 (Some (ds_net st))))"

section \<open>The library draft\<close>

text \<open>\<open>keys\<close>: the generated pair, serialized; a new pair at every call.\<close>

definition get_identity_key_pair :: "byte list \<times> byte list \<Rightarrow> int \<times> byte list \<times> byte list" where
  "get_identity_key_pair keys = (0, fst keys, snd keys)"

definition get_local_registration_id :: "int \<times> uint32" where
  "get_local_registration_id = (0, 1)"

definition store_identity_key :: "signal_address \<Rightarrow> byte list \<Rightarrow> int" where
  "store_identity_key address key_data = 0"

text \<open>
  \<open>serialized\<close>: what libsignal makes of a text for an address, \<open>None\<close> when \<^verbatim>\<open>session_cipher_create\<close> or
  \<^verbatim>\<open>session_cipher_encrypt\<close> fails, whose results are not looked at. The bytes are copied to the caller's array
  without looking at its size.
\<close>

definition encrypt_for_user :: "(signal_address \<Rightarrow> string \<Rightarrow> byte list option) \<Rightarrow> p2p_network_t \<Rightarrow> string \<Rightarrow> string \<Rightarrow> byte list \<Rightarrow> nat \<Rightarrow>
    fault + int \<times> byte list \<times> nat" where
  "encrypt_for_user serialized net to plaintext ciphertext ciphertext_len =
     (case find_user net to of
        None \<Rightarrow> Inr (-1, ciphertext, ciphertext_len)
      | Some j \<Rightarrow>
          (case serialized (ui_addr (pn_users net ! j)) plaintext of
             None \<Rightarrow> Inl Uninitialised_use
           | Some buffer \<Rightarrow>
               if length ciphertext < length buffer then Inl Buffer_overflow
               else Inr (0, buffer @ drop (length buffer) ciphertext, length buffer)))"


text \<open>
  An iteration of its receiver: the value of the flag, and type, sender and ciphertext of the struct after the
  \<^verbatim>\<open>recv\<close>, whose result is not looked at. What is shown, and what is stored.
\<close>

fun library_receive :: "(string \<Rightarrow> byte list \<Rightarrow> string option) \<Rightarrow> bool \<Rightarrow> string \<Rightarrow> (bool \<times> int \<times> string \<times> byte list) list \<Rightarrow>
    (string list \<times> p2p_event list) option" where
  "library_receive decrypt prepared username [] = None"
| "library_receive decrypt prepared username ((is_running, ty, sender, ct) # rs) =
     (if \<not> is_running then Some ([], [])
      else let (shown, stored) =
             (if ty = 1 then
                case decrypt sender ct of
                  None \<Rightarrow> ([], [])
                | Some plaintext \<Rightarrow> ([[NL] @ sender @ '': '' @ plaintext @ [NL]],
                    snd (save_p2p_message prepared sender (Some username) None ct 0))
              else ([], []))
           in map_option (map_prod ((@) shown) ((@) stored)) (library_receive decrypt prepared username rs))"

section \<open>What the properties speak of\<close>

text \<open>The message as the receiver of \<open>client.c\<close> finds it in the struct after a \<^verbatim>\<open>recv\<close> of \<open>k\<close> bytes.\<close>

definition chars_of :: "byte list \<Rightarrow> string" where
  "chars_of bs = map (\<lambda>b. char_of (unat b)) bs"

definition delivery_of :: "int \<Rightarrow> int \<Rightarrow> p2p_message_t \<Rightarrow> draft_activity" where
  "delivery_of fd k msg = Delivery fd k (pm_type msg) (cstr (pm_from msg)) (cstr (chars_of (pm_message msg)))"

text \<open>A library whose encryption stays inside the arrays, and a message struct with room for names.\<close>

definition library_fits :: "'net draft_lib \<Rightarrow> bool" where
  "library_fits L = (MAX_USERNAME_LEN \<le> dl_from_size L \<and> MAX_USERNAME_LEN \<le> dl_to_size L \<and>
     (\<forall>p k. case dl_encrypt L p k of (n, cells, iv, tag) \<Rightarrow>
        length cells = MAX_MESSAGE_LEN \<and> nat n \<le> MAX_MESSAGE_LEN \<and> nat n \<le> dl_message_size L))"

definition demo_library :: "unit draft_lib" where
  "demo_library = \<lparr>dl_init = (0, ()), dl_add_user = (\<lambda>_ _ _ _. ()), dl_users = (\<lambda>_. [(''bob'', ''10.0.0.2'', 8888)]),
     dl_groups = (\<lambda>_. []), dl_find_user = (\<lambda>_ u. if u = ''bob'' then Some (''10.0.0.2'', 8888) else None),
     dl_derive = (\<lambda>_ _. (0, zeros 32)), dl_encrypt = (\<lambda>p k. (2, replicate 4096 (65::byte), zeros 16, zeros 16)),
     dl_create_group = (\<lambda>_ _ _. (0, ())), dl_join_group = (\<lambda>_ _ _. (-1, ())), dl_public_key = (\<lambda>_. zeros 32),
     dl_from_size = 32, dl_to_size = 32, dl_message_size = 4096, dl_socket = 4, dl_connect = 0, dl_port = 8888\<rparr>"

definition demo_draft :: "unit draft_state" where
  "demo_draft = \<lparr>ds_net = (), ds_username = ''ann'' @ [NUL], ds_is_running = True, ds_chat = [], ds_sent = []\<rparr>"

section \<open>Lemmas\<close>

lemma draft_state_access [simp]:
  "ds_username (draft_says ts st) = ds_username st" "ds_net (draft_says ts st) = ds_net st"
  "ds_is_running (draft_says ts st) = ds_is_running st" "ds_sent (draft_says ts st) = ds_sent st"
  "ds_username (draft_does es st) = ds_username st" "ds_is_running (draft_does es st) = ds_is_running st"
  "ds_sent (draft_does es st) = ds_sent st @ es"
  by (simp_all add: draft_says_def draft_does_def)

lemma strcpy_fits: "length s < n \<Longrightarrow> strcpy (nuls n) s = Inr (s @ NUL # nuls (n - Suc (length s)))"
  by (simp add: strcpy_def)

lemma char_of_zero: "char_of (0::nat) = NUL"
  by (simp add: char_of_def)

lemma cstr_cstr: "cstr (cstr s) = cstr s"
  by (simp add: cstr_def takeWhile_takeWhile)

lemma cstr_terminator: "cstr (s @ NUL # t) = cstr s"
  by (simp add: cstr_def takeWhile_tail)

lemma draft_pack_fits:
  assumes "length s < dl_from_size L" "length t < dl_to_size L" "nat n \<le> MAX_MESSAGE_LEN" "nat n \<le> dl_message_size L"
  shows "draft_pack L s t n cells iv tag = Inr \<lparr>pm_type = 1, pm_from = s @ NUL # nuls (dl_from_size L - Suc (length s)),
    pm_to = t @ NUL # nuls (dl_to_size L - Suc (length t)), pm_iv = take 16 iv, pm_tag = take 16 tag,
    pm_message = take (nat n) cells @ zeros (dl_message_size L - nat n), pm_message_len = n\<rparr>"
  using assms by (simp add: draft_pack_def strcpy_fits)

lemma draft_msg_target: "draft_command line = Inr (Draft_msg t m) \<Longrightarrow> length t < MAX_USERNAME_LEN"
  by (auto simp: draft_command_def draft_msg_def draft_create_group_def draft_join_group_def scan_into_def
      split: if_splits list.splits sum.splits)

lemma library_fits_enc:
  assumes "library_fits L" "dl_encrypt L p k = (n, cells, iv, tag)"
  shows "length cells = MAX_MESSAGE_LEN \<and> nat n \<le> MAX_MESSAGE_LEN \<and> nat n \<le> dl_message_size L"
proof -
  have "case dl_encrypt L p k of (n, cells, iv, tag) \<Rightarrow>
      length cells = MAX_MESSAGE_LEN \<and> nat n \<le> MAX_MESSAGE_LEN \<and> nat n \<le> dl_message_size L"
    using assms(1) unfolding library_fits_def by (elim conjE allE)
  then show ?thesis by (simp add: assms(2))
qed

lemma draft_act_runs:
  assumes "library_fits L" "length (cstr (ds_username st)) < MAX_USERNAME_LEN" "draft_command line = Inr a"
  shows "\<exists>st'. draft_act L a st = Inr st' \<and> ds_username st' = ds_username st \<and> ds_is_running st' = (ds_is_running st \<and> a \<noteq> Draft_quit)"
proof (cases a)
  case (Draft_msg t m)
  then have t: "length t < MAX_USERNAME_LEN" using assms(3) draft_msg_target by simp
  obtain r k where dk: "dl_derive L (ds_net st) t = (r, k)" by fastforce
  obtain n cells iv tag where enc: "dl_encrypt L (map byte_of m) k = (n, cells, iv, tag)" by (metis prod_cases4)
  have fits: "length cells = MAX_MESSAGE_LEN" "nat n \<le> MAX_MESSAGE_LEN" "nat n \<le> dl_message_size L"
      "length (cstr (ds_username st)) < dl_from_size L" "length t < dl_to_size L"
    using library_fits_enc [OF assms(1) enc] assms(1,2) t by (auto simp: library_fits_def)
  show ?thesis
    using Draft_msg dk enc fits(1) draft_pack_fits [OF fits(4,5,2,3), of cells iv tag]
    by (auto simp: draft_private_def Let_def split: option.split)
qed (use assms(2) in \<open>auto simp: draft_create_def draft_join_def split: prod.split\<close>)

lemma draft_run_loop:
  "draft_loop ls = Some (Inr acts) \<Longrightarrow> library_fits L \<Longrightarrow> length (cstr (ds_username st)) < MAX_USERNAME_LEN \<Longrightarrow>
   ds_is_running st \<Longrightarrow> \<exists>st'. draft_run L ls st = Some (Inr st')"
proof (induction ls arbitrary: acts st)
  case (Cons keys ls)
  show ?case
  proof (cases "draft_read_line keys")
    case (Inr r)
    show ?thesis
    proof (cases r)
      case (Line b)
      obtain a where a: "draft_command (cstr b) = Inr a"
        using Cons.prems(1) Inr Line by (auto split: sum.splits)
      obtain st' where st': "draft_act L a st = Inr st'" "ds_username st' = ds_username st"
          "ds_is_running st' = (ds_is_running st \<and> a \<noteq> Draft_quit)"
        using draft_act_runs [OF Cons.prems(2,3) a] by blast
      show ?thesis
      proof (cases "a = Draft_quit")
        case True
        then have "\<not> ds_is_running st'" using st' by simp
        then show ?thesis using Cons.prems Inr Line a st' by (cases ls) auto
      next
        case False
        then obtain acts' where "draft_loop ls = Some (Inr acts')"
          using Cons.prems(1) Inr Line a by (auto simp: map_option_case map_sum_def split: option.splits sum.splits)
        from Cons.IH [OF this Cons.prems(2), of st'] Cons.prems st' False Inr Line a show ?thesis by simp
      qed
    qed (use Cons.prems Inr in auto)
  qed (use Cons.prems in auto)
qed simp

lemma draft_receiver_returns:
  "list_ex (\<lambda>(b, _). \<not> b) rounds \<Longrightarrow> \<exists>r. message_receiver fd opt bound listening rounds = Some r"
proof -
  have "list_ex (\<lambda>(b, _). \<not> b) rounds \<Longrightarrow> \<exists>r. draft_receive fd rounds = Some r"
    by (induction rounds) (auto split: prod.split)
  then show "list_ex (\<lambda>(b, _). \<not> b) rounds \<Longrightarrow> ?thesis" by (simp add: message_receiver_def)
qed

section \<open>Properties\<close>

text \<open>
  The draft client shows ciphertexts: a private message to a known user is sent, once and to the address of that
  user, as a struct that holds the encrypted bytes; the receiver of the draft that gets this struct writes those bytes,
  up to the first zero, as the text of the message. No call decrypts them.
\<close>

theorem draft_message_shown_encrypted:
  assumes "dl_find_user L (ds_net st) to = Some (ip, port)" "dl_derive L (ds_net st) to = (0, secret)"
    and "dl_encrypt L (map byte_of m) secret = (n, cells, iv, tag)" "length cells = MAX_MESSAGE_LEN"
    and "0 < n" "nat n \<le> MAX_MESSAGE_LEN" "nat n < dl_message_size L"
    and "length (cstr (ds_username st)) < dl_from_size L" "length to < dl_to_size L"
    and "0 \<le> dl_socket L" "0 \<le> dl_connect L" "0 < k"
  shows "\<exists>st' msg. draft_act L (Draft_msg to m) st = Inr st' \<and>
    ds_sent st' = ds_sent st @ [Draft_connect ip port, Draft_send msg, Draft_close (dl_socket L)] \<and>
    draft_show (delivery_of fd k msg) =
      ([[NL] @ cstr (ds_username st) @ '': '' @ cstr (chars_of (take (nat n) cells)) @ [NL]], [fd])"
proof -
  obtain d where d: "dl_message_size L - nat n = Suc d" using assms(7) by (metis Suc_diff_Suc)
  have "cstr (chars_of (take (nat n) cells @ zeros (dl_message_size L - nat n))) = cstr (chars_of (take (nat n) cells))"
    unfolding d by (simp add: chars_of_def char_of_zero cstr_terminator)
  moreover have "nat n \<le> dl_message_size L" using assms(7) by simp
  note pack = draft_pack_fits [OF assms(8,9,6) this, of cells iv tag]
  ultimately show ?thesis
    using assms by (auto simp: draft_private_def Let_def pack draft_show_def delivery_of_def cstr_terminator cstr_cstr)
qed


theorem draft_message_shown_encrypted_witness:
  "\<exists>st' msg. draft_act demo_library (Draft_msg ''bob'' ''hi'') demo_draft = Inr st' \<and>
    ds_sent st' = [Draft_connect ''10.0.0.2'' 8888, Draft_send msg, Draft_close 4] \<and>
    draft_show (delivery_of 7 100 msg) = ([[NL] @ ''ann: AA'' @ [NL]], [7])"
proof -
  have "char_of (65::nat) = CHR ''A''" by (simp add: char_of_def bit_0)
  moreover have "replicate (2::nat) (65::byte) = [65, 65]" by (simp add: numeral_2_eq_2)
  ultimately have "cstr (chars_of (take (nat 2) (replicate 4096 65))) = ''AA''"
    by (simp add: chars_of_def cstr_def)
  then show ?thesis
    using draft_message_shown_encrypted [of demo_library demo_draft "''bob''" "''10.0.0.2''" 8888 "zeros 32" "''hi''" 2
        "replicate 4096 65" "zeros 16" "zeros 16" 100 7]
    by (simp add: demo_library_def demo_draft_def cstr_def MAX_MESSAGE_LEN_def)
qed

text \<open>
  The draft program comes to its end: started with a name that fits on a network that opens, with a library that stays
  inside its arrays, and with typed lines that end in Escape or a quit and whose fields fit, it returns 0
  after releasing the network. Its receiver looks at the flag every second, so that it need not wait for a
  connection as the messenger's does.
\<close>

theorem draft_program_returns:
  assumes "length name < MAX_USERNAME_LEN" "fst (dl_init L) = 0" "library_fits L"
    and "draft_loop ls = Some (Inr acts)" "list_ex (\<lambda>(running, _). \<not> running) rounds"
  shows "\<exists>net. draft_main L (name # args) ls (message_receiver fd opt bound listening rounds) = Draft_returned 0 (Some net)"
proof -
  obtain net where net: "dl_init L = (0, net)" using assms(2) by (cases "dl_init L") auto
  obtain r where r: "message_receiver fd opt bound listening rounds = Some r" using draft_receiver_returns [OF assms(5)] by blast
  let ?st = "\<lparr>ds_net = dl_add_user L net name ''127.0.0.1'' (dl_port L), ds_username = name @ NUL # nuls (32 - Suc (length name)),
      ds_is_running = False, ds_chat = [], ds_sent = []\<rparr>"
  let ?st1 = "draft_says (draft_banner L ?st) (?st\<lparr>ds_is_running := True\<rparr>)"
  have "length (cstr (ds_username ?st1)) < MAX_USERNAME_LEN"
    using assms(1) length_takeWhile_le [of _ name] by (simp add: cstr_terminator) (metis cstr_def le_less_trans)
  from draft_run_loop [OF assms(4,3) this] obtain st' where "draft_run L ls ?st1 = Some (Inr st')" by auto
  then show ?thesis
    using assms(1) net r by (auto simp: draft_main_def draft_client_def strcpy_fits MAX_USERNAME_LEN_def split: prod.split)
qed

theorem draft_program_returns_witness:
  "\<exists>net. draft_main demo_library [''ann''] [[104, 105, 10], [47, 103, 10], [27]]
    (message_receiver 3 0 0 0 [(True, Idle_second), (False, Idle_second)]) = Draft_returned 0 (Some net)"
proof (rule draft_program_returns)
  have "edit_result (draft_typed 4095 keys []) (draft_read_line keys)" for keys
    unfolding draft_read_line_def by (rule draft_edit_typed) (simp_all add: MAX_MESSAGE_LEN_def)
  note typed = this
  obtain b1 where b1: "draft_read_line [104, 105, 10] = Inr (Line b1)" "cstr b1 = ''hi''"
    using typed [of "[104, 105, 10]"] by (auto simp: edit_result_def KEY_BACKSPACE_def isprint_key_def char_of_def bit_0)
  obtain b2 where b2: "draft_read_line [47, 103, 10] = Inr (Line b2)" "cstr b2 = ''/g''"
    using typed [of "[47, 103, 10]"] by (auto simp: edit_result_def KEY_BACKSPACE_def isprint_key_def char_of_def bit_0)
  have "draft_read_line [27] = Inr Quit"
    using typed [of "[27]"] by (simp add: edit_result_def KEY_BACKSPACE_def)
  with b1 b2 show "draft_loop [[104, 105, 10], [47, 103, 10], [27]] = Some (Inr [Draft_say ''hi'', Draft_nothing])"
    by (simp add: draft_command_def strncmp_eq_def)
qed (simp_all add: demo_library_def library_fits_def MAX_USERNAME_LEN_def MAX_MESSAGE_LEN_def)

text \<open>
  The draft library encrypts what the messenger sends: for a known user, both use an uninitialised pointer when
  libsignal fails; otherwise \<open>encrypt_for_user\<close> leaves in the caller's array the bytes that \<open>send_direct_message\<close> puts on
  the wire once it is connected, without asking how large that array is.
\<close>

theorem encrypt_for_user_agrees:
  assumes "find_user net to = Some j" "sd_serialized env to msg = serialized (ui_addr (pn_users net ! j)) msg"
    and "0 \<le> sd_socket env to" "0 \<le> sd_connect env to"
  shows "case sd_serialized env to msg of
      None \<Rightarrow> encrypt_for_user serialized net to msg ciphertext len = Inl Uninitialised_use \<and>
        send_direct_message env net to msg = Inl Uninitialised_use
    | Some buf \<Rightarrow>
        if length ciphertext < length buf then encrypt_for_user serialized net to msg ciphertext len = Inl Buffer_overflow
        else \<exists>ct n ev. encrypt_for_user serialized net to msg ciphertext len = Inr (0, ct, n) \<and> length ct = length ciphertext \<and>
          send_direct_message env net to msg = Inr (0, ev) \<and> Sent (take n ct) \<in> set ev"
  using assms by (auto simp: encrypt_for_user_def send_direct_message_def Let_def split: option.split)

end
