(* ===== verification/Old_Server_State.thy ===== *)
theory Old_Server_State
  imports Messaging Rate_Limit C_Scan
begin

text \<open>
  The earlier server, \<^verbatim>\<open>src/src/trash/server2.c\<close>: its structs, the world of its handlers
  and the operations under \<^verbatim>\<open>server.mutex\<close>. Unlike the current server it locks the client
  array, with a default (non-recursive) mutex; locking it twice in one thread never returns and is
  the fault \<open>Self_deadlock\<close>. The interface of a function that takes and gives back the mutex is the
  locale \<open>mutex_user\<close>.
\<close>

section \<open>Structs\<close>

record p2p_peer_t =
  op_peer_id :: "char list"
  op_public_addr :: sockaddr_in
  op_local_addr :: sockaddr_in
  op_is_connected :: int
  op_last_heartbeat :: time_t
  op_public_key :: "char list"

record p2p_network_v2 =
  on_peers :: "p2p_peer_t list"
  on_peer_count :: nat
  on_max_peers :: nat
  on_dht_port :: int
  on_is_super_node :: int

record config_t =
  og_db_path :: "char list"
  og_max_connections_per_ip :: int
  og_enable_ratelimit :: int
  og_enable_tor_proxy :: int
  og_enable_ip_spoofing :: int
  og_enable_obfuscation :: int
  og_encryption_mode :: int

record client_t =
  oc_fd :: int
  oc_ssl :: "nat option"
  oc_nick :: "char list"
  oc_token :: "char list"
  oc_session_key :: "byte list"
  oc_chacha_key :: "byte list"
  oc_twofish_key :: "byte list"
  oc_authorized :: bool
  oc_connect_time :: time_t
  oc_last_activity :: time_t
  oc_addr :: sockaddr_in
  oc_rate_limit :: rate_limit_t
  oc_store :: "nat option"
  oc_cipher :: "nat option"
  oc_reg_id :: uint32
  oc_peer_id :: "char list"
  oc_is_p2p_connected :: int
  oc_p2p_addr :: sockaddr_in
  oc_public_key :: "char list"
  oc_shared_secret :: "char list"

record server_state_t =
  os_clients :: "client_t list"
  os_max_clients :: nat
  os_locked :: bool
  os_ssl_ctx :: "nat option"
  os_db :: "nat option"
  os_running :: bool
  os_config :: config_t
  os_epoll_fd :: int
  os_p2p :: p2p_network_v2
  os_aes_ctx :: "nat option"
  os_chacha_ctx :: "nat option"
  os_global_ctx :: "nat option"

record 'db old_world =
  ow_srv :: server_state_t
  ow_db :: 'db
  ow_trace :: "event list"

section \<open>Initial values\<close>

definition old_peer :: p2p_peer_t where
  "old_peer = \<lparr>op_peer_id = nuls 64, op_public_addr = zero_addr, op_local_addr = zero_addr,
     op_is_connected = 0, op_last_heartbeat = 0, op_public_key = nuls 256\<rparr>"

definition init_p2p_network_v2 :: p2p_network_v2 where
  "init_p2p_network_v2 = \<lparr>on_peers = replicate MAX_CLIENTS old_peer, on_peer_count = 0,
     on_max_peers = MAX_CLIENTS, on_dht_port = 5666, on_is_super_node = 1\<rparr>"

definition SQLITE_DB_PATH :: string where
  "SQLITE_DB_PATH = ''../database/mesh_data.sqlite''"

definition load_config :: config_t where
  "load_config = \<lparr>og_db_path = SQLITE_DB_PATH @ nuls (256 - length SQLITE_DB_PATH),
     og_max_connections_per_ip = 5, og_enable_ratelimit = 1, og_enable_tor_proxy = 0,
     og_enable_ip_spoofing = 0, og_enable_obfuscation = 1, og_encryption_mode = 0\<rparr>"

text \<open>A slot as \<^verbatim>\<open>calloc\<close> and the loop after it leave it: zeroed, with descriptor -1.\<close>

definition old_slot :: client_t where
  "old_slot = \<lparr>oc_fd = -1, oc_ssl = None, oc_nick = nuls 32, oc_token = nuls 65,
     oc_session_key = zeros 32, oc_chacha_key = zeros 32, oc_twofish_key = zeros 32,
     oc_authorized = False, oc_connect_time = 0, oc_last_activity = 0, oc_addr = zero_addr,
     oc_rate_limit = \<lparr>window_start = 0, request_count = 0\<rparr>, oc_store = None, oc_cipher = None,
     oc_reg_id = 0, oc_peer_id = nuls 64, oc_is_p2p_connected = 0, oc_p2p_addr = zero_addr,
     oc_public_key = nuls 256, oc_shared_secret = nuls 32\<rparr>"

section \<open>The world\<close>

abbreviation old_client :: "'db old_world \<Rightarrow> nat \<Rightarrow> client_t" where
  "old_client w i \<equiv> os_clients (ow_srv w) ! i"

definition old_emit :: "event list \<Rightarrow> 'db old_world \<Rightarrow> 'db old_world" where
  "old_emit es w = w\<lparr>ow_trace := ow_trace w @ es\<rparr>"

definition old_set_client :: "nat \<Rightarrow> client_t \<Rightarrow> 'db old_world \<Rightarrow> 'db old_world" where
  "old_set_client i c w = w\<lparr>ow_srv := (ow_srv w)\<lparr>os_clients := (os_clients (ow_srv w))[i := c]\<rparr>\<rparr>"

definition old_set_db :: "'db \<Rightarrow> 'db old_world \<Rightarrow> 'db old_world" where
  "old_set_db d w = w\<lparr>ow_db := d\<rparr>"

definition set_lock :: "bool \<Rightarrow> 'db old_world \<Rightarrow> 'db old_world" where
  "set_lock b w = w\<lparr>ow_srv := (ow_srv w)\<lparr>os_locked := b\<rparr>\<rparr>"

definition old_send :: "nat \<Rightarrow> string \<Rightarrow> 'db old_world \<Rightarrow> 'db old_world" where
  "old_send i msg w = old_emit [Ssl_safe_write (oc_ssl (old_client w i)) msg] w"

definition and_then :: "fault + 'a \<Rightarrow> ('a \<Rightarrow> fault + 'b) \<Rightarrow> fault + 'b" where
  "and_then r f = (case r of Inl e \<Rightarrow> Inl e | Inr x \<Rightarrow> f x)"

text \<open>
  \<^verbatim>\<open>pthread_mutex_lock(&server.mutex)\<close>, the statements in between, and
  \<^verbatim>\<open>pthread_mutex_unlock(&server.mutex)\<close> on every path out of them.
\<close>

definition with_mutex :: "('db old_world \<Rightarrow> fault + 'a \<times> 'db old_world) \<Rightarrow> 'db old_world \<Rightarrow> fault + 'a \<times> 'db old_world" where
  "with_mutex f w =
     (if os_locked (ow_srv w) then Inl Self_deadlock
      else map_sum id (apsnd (set_lock False)) (f (set_lock True w)))"

section \<open>Operations under the mutex\<close>

definition old_reachable :: "client_t \<Rightarrow> bool" where
  "old_reachable c = (oc_fd c \<ge> 0 \<and> oc_authorized c)"

fun old_find_from :: "client_t list \<Rightarrow> nat \<Rightarrow> string \<Rightarrow> nat option" where
  "old_find_from [] i nick = None"
| "old_find_from (c # cs) i nick =
     (if old_reachable c \<and> cstr (oc_nick c) = nick then Some i else old_find_from cs (Suc i) nick)"

definition find_client_by_nick_v2 :: "string \<Rightarrow> 'db old_world \<Rightarrow> fault + nat option \<times> 'db old_world" where
  "find_client_by_nick_v2 nick =
     with_mutex (\<lambda>w. Inr (old_find_from (take (os_max_clients (ow_srv w)) (os_clients (ow_srv w))) 0 nick, w))"

definition old_release_events :: "client_t \<Rightarrow> event list" where
  "old_release_events c =
     (case oc_cipher c of None \<Rightarrow> [] | Some h \<Rightarrow> [Cipher_free h]) @
     (case oc_store c of None \<Rightarrow> [] | Some h \<Rightarrow> [Store_destroy h]) @
     (case oc_ssl c of None \<Rightarrow> [] | Some h \<Rightarrow> [Ssl_shutdown h, Ssl_free h]) @
     [Close_fd (oc_fd c)]"

definition old_released :: "client_t \<Rightarrow> client_t" where
  "old_released c = c\<lparr>oc_cipher := None, oc_store := None, oc_fd := -1, oc_ssl := None,
     oc_authorized := False, oc_nick := nuls (length (oc_nick c)), oc_token := nuls (length (oc_token c)),
     oc_session_key := zeros (length (oc_session_key c)), oc_chacha_key := zeros (length (oc_chacha_key c)),
     oc_twofish_key := zeros (length (oc_twofish_key c))\<rparr>"

definition disconnect_client :: "nat \<Rightarrow> 'db old_world \<Rightarrow> fault + unit \<times> 'db old_world" where
  "disconnect_client i w =
     (if oc_fd (old_client w i) < 0 then Inr ((), w)
      else with_mutex (\<lambda>w1. Inr ((), old_set_client i (old_released (old_client w1 i))
             (old_emit (old_release_events (old_client w1 i)) w1))) w)"

section \<open>Sweeps over the clients\<close>

text \<open>
  The loops of \<open>monitor_thread\<close> and \<open>cleanup_resources\<close>: both hold the mutex while they call
  \<open>disconnect_client\<close> on the clients that \<open>P\<close> selects.
\<close>

fun sweep_loop :: "(client_t \<Rightarrow> bool) \<Rightarrow> nat \<Rightarrow> nat \<Rightarrow> 'db old_world \<Rightarrow> fault + unit \<times> 'db old_world" where
  "sweep_loop P 0 i w = Inr ((), w)"
| "sweep_loop P (Suc k) i w =
     (if oc_fd (old_client w i) \<ge> 0 \<and> P (old_client w i)
      then and_then (disconnect_client i w) (\<lambda>(_, w'). sweep_loop P k (Suc i) w')
      else sweep_loop P k (Suc i) w)"

definition monitor_sweep :: "time_t \<Rightarrow> 'db old_world \<Rightarrow> fault + unit \<times> 'db old_world" where
  "monitor_sweep now = with_mutex (\<lambda>w.
     sweep_loop (\<lambda>c. now - oc_last_activity c > 300) (os_max_clients (ow_srv w)) 0 w)"

definition old_shutdown_events :: "server_state_t \<Rightarrow> event list" where
  "old_shutdown_events s =
     (if os_epoll_fd s \<ge> 0 then [Close_fd (os_epoll_fd s)] else []) @
     (case os_ssl_ctx s of None \<Rightarrow> [] | Some h \<Rightarrow> [Ssl_ctx_free h]) @
     (case os_db s of None \<Rightarrow> [] | Some h \<Rightarrow> [Db_close h]) @
     (case os_global_ctx s of None \<Rightarrow> [] | Some h \<Rightarrow> [Signal_ctx_destroy h])"

text \<open>After the sweep the arrays of clients and peers are freed; what is left of them is not used.\<close>

definition cleanup_resources :: "'db old_world \<Rightarrow> fault + 'db old_world" where
  "cleanup_resources w =
     and_then (with_mutex (\<lambda>w1. sweep_loop (\<lambda>_. True) (os_max_clients (ow_srv w1)) 0 w1)
                 (w\<lparr>ow_srv := (ow_srv w)\<lparr>os_running := False\<rparr>\<rparr>))
       (\<lambda>(_, w2). Inr (old_emit (old_shutdown_events (ow_srv w2))
          (w2\<lparr>ow_srv := (ow_srv w2)\<lparr>os_clients := [], os_global_ctx := None\<rparr>\<rparr>)))"

section \<open>The discipline of the mutex\<close>

abbreviation locked :: "'db old_world \<Rightarrow> bool" where
  "locked w \<equiv> os_locked (ow_srv w)"

text \<open>A call that started with the mutex free did not wait for itself and gave the mutex back.\<close>

definition mutex_safe :: "fault + 'a \<times> 'db old_world \<Rightarrow> bool" where
  "mutex_safe r = (case r of Inl e \<Rightarrow> e \<noteq> Self_deadlock | Inr (x, w) \<Rightarrow> \<not> locked w)"

fun run_all :: "('c \<Rightarrow> 'db old_world \<Rightarrow> fault + unit \<times> 'db old_world) \<Rightarrow> 'c list \<Rightarrow> 'db old_world \<Rightarrow>
    fault + unit \<times> 'db old_world" where
  "run_all run [] w = Inr ((), w)"
| "run_all run (c # cs) w = and_then (run c w) (\<lambda>(_, w'). run_all run cs w')"

definition old_demo :: "unit old_world" where
  "old_demo = \<lparr>ow_srv = \<lparr>os_clients = [old_slot\<lparr>oc_fd := 7\<rparr>], os_max_clients = 1, os_locked = False,
     os_ssl_ctx = None, os_db = None, os_running = True, os_config = load_config, os_epoll_fd = 3,
     os_p2p = init_p2p_network_v2, os_aes_ctx = None,
     os_chacha_ctx = None, os_global_ctx = None\<rparr>, ow_db = (), ow_trace = []\<rparr>"

named_theorems mutex_intros \<open>composition of calls that keep the mutex discipline\<close>

lemma old_world_access [simp, frame_simps]:
  "ow_srv (old_emit es w) = ow_srv w" "ow_srv (old_set_db d w) = ow_srv w"
  "ow_srv (old_send i m w) = ow_srv w" "ow_db (old_emit es w) = ow_db w"
  "ow_db (old_set_client i c w) = ow_db w" "ow_db (old_send i m w) = ow_db w"
  "locked (old_set_client i c w) = locked w" "locked (set_lock b w) = b"
  "os_clients (ow_srv (old_set_client i c w)) = (os_clients (ow_srv w))[i := c]"
  "os_clients (ow_srv (set_lock b w)) = os_clients (ow_srv w)"
  "os_max_clients (ow_srv (set_lock b w)) = os_max_clients (ow_srv w)"
  "os_max_clients (ow_srv (old_set_client i c w)) = os_max_clients (ow_srv w)"
  "set_lock b (set_lock b' w) = set_lock b w" "ow_db (old_set_db d w) = d"
  by (simp_all add: old_emit_def old_set_db_def old_send_def old_set_client_def set_lock_def)

lemma set_lock_same [simp]: "\<not> locked w \<Longrightarrow> set_lock False w = w" "locked w \<Longrightarrow> set_lock True w = w"
  by (simp_all add: set_lock_def)

lemma mutex_safe_simps [simp]:
  "mutex_safe (Inr (x, w)) = (\<not> locked w)" "mutex_safe (Inl e) = (e \<noteq> Self_deadlock)"
  by (simp_all add: mutex_safe_def)

lemma mutex_safe_and_then [mutex_intros]:
  "mutex_safe r \<Longrightarrow> (\<And>x w'. \<not> locked w' \<Longrightarrow> mutex_safe (f (x, w'))) \<Longrightarrow> mutex_safe (and_then r f)"
  by (cases r) (auto simp: and_then_def)

lemma mutex_safe_with_mutex [mutex_intros]:
  "\<not> locked w \<Longrightarrow> (\<And>w'. f w' \<noteq> Inl Self_deadlock) \<Longrightarrow> mutex_safe (with_mutex f w)"
  by (cases "f (set_lock True w)") (auto simp: with_mutex_def mutex_safe_def)

locale mutex_user =
  fixes run :: "'c \<Rightarrow> 'db old_world \<Rightarrow> fault + unit \<times> 'db old_world"
  assumes safe: "\<not> locked w \<Longrightarrow> mutex_safe (run c w)"
begin

lemma sequence_safe: "\<not> locked w \<Longrightarrow> mutex_safe (run_all run cs w)"
  by (induction cs arbitrary: w) (auto intro!: mutex_intros safe)

end

interpretation disconnects: mutex_user disconnect_client
  by unfold_locales (auto simp: disconnect_client_def intro!: mutex_intros)

lemma find_client_by_nick_v2_safe [mutex_intros]: "\<not> locked w \<Longrightarrow> mutex_safe (find_client_by_nick_v2 nick w)"
  unfolding find_client_by_nick_v2_def by (rule mutex_safe_with_mutex) simp_all

section \<open>Sweeps deadlock\<close>

lemma disconnect_locked: "locked w \<Longrightarrow> oc_fd (old_client w i) \<ge> 0 \<Longrightarrow> disconnect_client i w = Inl Self_deadlock"
  by (simp add: disconnect_client_def with_mutex_def)

lemma sweep_loop_locked:
  assumes "locked w" and "i + k \<le> length (os_clients (ow_srv w))"
  shows "sweep_loop P k i w =
    (if list_ex (\<lambda>c. oc_fd c \<ge> 0 \<and> P c) (take k (drop i (os_clients (ow_srv w))))
     then Inl Self_deadlock else Inr ((), w))"
  using assms
proof (induction k arbitrary: i)
  case (Suc k)
  then have "drop i (os_clients (ow_srv w)) = old_client w i # drop (Suc i) (os_clients (ow_srv w))"
    by (simp add: Cons_nth_drop_Suc)
  with Suc show ?case
    by (simp add: disconnect_locked and_then_def)
qed simp

lemma with_mutex_sweep:
  assumes "\<not> locked w" and "os_max_clients (ow_srv w) \<le> length (os_clients (ow_srv w))"
  shows "with_mutex (\<lambda>w. sweep_loop P (os_max_clients (ow_srv w)) 0 w) w =
    (if list_ex (\<lambda>c. oc_fd c \<ge> 0 \<and> P c) (take (os_max_clients (ow_srv w)) (os_clients (ow_srv w)))
     then Inl Self_deadlock else Inr ((), w))"
  using assms by (simp add: with_mutex_def sweep_loop_locked)

text \<open>
  The sweeps of the earlier server lock its mutex twice: with the mutex free, a round of the
  monitor waits for itself exactly when some open client has been idle for more than 300 seconds,
  and changes nothing otherwise; and cleaning up at shutdown gets past its sweep only when no
  client is open at all.
\<close>

theorem old_sweeps_deadlock:
  assumes "\<not> locked w" and "os_max_clients (ow_srv w) \<le> length (os_clients (ow_srv w))"
  shows "monitor_sweep now w =
      (if list_ex (\<lambda>c. oc_fd c \<ge> 0 \<and> now - oc_last_activity c > 300)
            (take (os_max_clients (ow_srv w)) (os_clients (ow_srv w)))
       then Inl Self_deadlock else Inr ((), w)) \<and>
    (cleanup_resources w = Inl Self_deadlock \<longleftrightarrow>
      list_ex (\<lambda>c. oc_fd c \<ge> 0) (take (os_max_clients (ow_srv w)) (os_clients (ow_srv w))))"
  using assms with_mutex_sweep [of w "\<lambda>c. now - oc_last_activity c > 300"]
    with_mutex_sweep [of "w\<lparr>ow_srv := (ow_srv w)\<lparr>os_running := False\<rparr>\<rparr>" "\<lambda>_. True"]
  by (simp_all add: monitor_sweep_def cleanup_resources_def and_then_def)

theorem old_sweeps_deadlock_witness:
  "monitor_sweep 301 old_demo = Inl Self_deadlock \<and> monitor_sweep 300 old_demo = Inr ((), old_demo) \<and>
   cleanup_resources old_demo = Inl Self_deadlock"
  using old_sweeps_deadlock [of old_demo 301] old_sweeps_deadlock [of old_demo 300]
  by (simp add: old_demo_def old_slot_def)

end
