(* ===== verification/Old_Utils.thy ===== *)
theory Old_Utils
  imports Old_Server_State Net_IO
begin

text \<open>
  Small functions of the earlier server, \<^verbatim>\<open>src/src/trash/server2.c\<close>: checking and sanitizing messages, the write
  loop over TLS, the signal set-up and what it prints. The first three are translated from their own text and agree with
  those of the current server.
\<close>

section \<open>Messages\<close>

definition validate_message_v2 :: "string \<Rightarrow> bool" where
  "validate_message_v2 message = (0 < strnlen message MAX_MESSAGE_LENGTH \<and> strnlen message MAX_MESSAGE_LENGTH \<le> MAX_MESSAGE_LENGTH)"

definition unsafe_chars :: string where
  "unsafe_chars = [CHR ''<'', CHR ''>'', CHR 0x22, CHR 0x27, CHR 0x5C, CHR '';'', CHR ''&'', CHR ''|'']"

lemma poke_length [termination_simp]: "poke buf i c = Inr buf' \<Longrightarrow> length buf' = length buf"
  by (auto simp: poke_def split: if_splits)

function sanitize_loop_v2 :: "char list \<Rightarrow> nat \<Rightarrow> nat \<Rightarrow> fault + char list" where
  "sanitize_loop_v2 str src dst =
     (if length str \<le> src then Inl Out_of_bounds_read
      else if str ! src = NUL then poke str dst NUL
      else if str ! src \<in> set unsafe_chars then sanitize_loop_v2 str (src + 1) dst
      else case poke str dst (str ! src) of
        Inl e \<Rightarrow> Inl e
      | Inr str' \<Rightarrow> sanitize_loop_v2 str' (src + 1) (dst + 1))"
  by pat_completeness auto
termination
  by (relation "measure (\<lambda>(str, src, dst). length str - src)") (auto simp: poke_length)

declare sanitize_loop_v2.simps [simp del]

definition sanitize_input_v2 :: "char list \<Rightarrow> fault + char list" where
  "sanitize_input_v2 str = sanitize_loop_v2 str 0 0"

section \<open>Writing\<close>

text \<open>An answer of \<^verbatim>\<open>SSL_write\<close>: its result, and what \<^verbatim>\<open>SSL_get_error\<close> says of one that is not positive.\<close>

datatype ssl_error = SSL_ERROR_WANT_READ | SSL_ERROR_WANT_WRITE | SSL_ERROR_OTHER

fun write_loop_v2 :: "(bool \<times> int \<times> ssl_error) list \<Rightarrow> string \<Rightarrow> nat \<Rightarrow> string \<Rightarrow> (int \<times> string) option" where
  "write_loop_v2 rs data tot sent =
     (if length data \<le> tot then Some (int tot, sent)
      else case rs of
        [] \<Rightarrow> None
      | (running, n, err) # rs' \<Rightarrow>
          if \<not> running then Some (int tot, sent)
          else if n \<le> 0 then
            if err = SSL_ERROR_WANT_READ \<or> err = SSL_ERROR_WANT_WRITE then write_loop_v2 rs' data tot sent
            else Some (-1, sent)
          else write_loop_v2 rs' data (tot + nat n) (sent @ take (nat n) (drop tot data)))"

declare write_loop_v2.simps [simp del]

definition ssl_safe_write_v2 :: "(bool \<times> int \<times> ssl_error) list \<Rightarrow> string \<Rightarrow> (int \<times> string) option" where
  "ssl_safe_write_v2 rs data = write_loop_v2 rs data 0 []"

section \<open>Signals, proxy and output\<close>

datatype disposition = Sig_dfl | Sig_ign | Sig_handler

definition SIGPIPE :: nat where "SIGPIPE = 13"

definition setup_signal_handlers :: "(nat \<Rightarrow> disposition) \<Rightarrow> nat \<Rightarrow> disposition" where
  "setup_signal_handlers d = d(SIGPIPE := Sig_ign)"

text \<open>The result and the lines printed.\<close>

definition setup_tor_proxy :: "config_t \<Rightarrow> int \<times> string list" where
  "setup_tor_proxy cfg =
     (if og_enable_tor_proxy cfg = 0 then (0, []) else (0, [''Tor proxy support enabled (placeholder)'' @ [NL]]))"

text \<open>The text is formatted and goes nowhere.\<close>

definition broadcast_p2p_heartbeat :: "int \<Rightarrow> string" where
  "broadcast_p2p_heartbeat port = snprintf 256 (''P2P_HEARTBEAT|'' @ ''main_server'' @ ''|'' @ dec_int port)"

definition log_event :: "string \<Rightarrow> string \<Rightarrow> string \<Rightarrow> string \<Rightarrow> int \<Rightarrow> string" where
  "log_event timestamp ty message ip port =
     ''['' @ timestamp @ ''] '' @ ty @ '' - '' @ message @ '' ('' @ ip @ '':'' @ dec_int port @ '')'' @ [NL]"

section \<open>Lemmas\<close>

text \<open>The answers of the library as the loop of the current server takes them.\<close>

fun write_answer :: "bool \<times> int \<times> ssl_error \<Rightarrow> bool \<times> write_result" where
  "write_answer (running, n, err) = (running,
     if 0 < n then Wrote (nat n) else case err of
       SSL_ERROR_WANT_READ \<Rightarrow> Write_want_read | SSL_ERROR_WANT_WRITE \<Rightarrow> Write_want_write | SSL_ERROR_OTHER \<Rightarrow> Write_failed)"

lemma validate_message_v2_eq [simp]: "validate_message_v2 message = validate_message message"
  by (simp add: validate_message_v2_def validate_message_def Let_def)

lemma unsafe_chars: "c \<in> set unsafe_chars \<longleftrightarrow> unsafe_char c"
  by (auto simp: unsafe_chars_def unsafe_char_def)

lemma sanitize_loop_v2_eq: "dst \<le> src \<Longrightarrow> sanitize_loop_v2 str src dst = sanitize_loop str src dst"
proof (induction str src dst rule: sanitize_loop_v2.induct)
  case (1 str src dst)
  show ?case
    using 1 by (subst sanitize_loop_v2.simps, subst sanitize_loop.simps) (auto simp: poke_def unsafe_chars)
qed

lemma sanitize_input_v2_eq [simp]: "sanitize_input_v2 str = sanitize_input str"
  by (simp add: sanitize_input_v2_def sanitize_input_def sanitize_loop_v2_eq)

lemma write_loop_v2_eq: "write_loop_v2 rs data tot sent = write_loop (map write_answer rs) data tot sent"
proof (induction rs arbitrary: tot sent)
  case (Cons r rs)
  obtain running n err where "r = (running, n, err)" by (cases r)
  with Cons show ?case by (subst write_loop_v2.simps) (cases err; simp)
qed (subst write_loop_v2.simps; simp)

section \<open>Properties\<close>

text \<open>
  The utilities of the two servers are the same functions: for every message, every buffer and every sequence of
  answers of the library, checking a message, sanitizing a line in place and writing over TLS give what those of the
  current server give, faults and calls that do not return included.
\<close>

theorem old_utilities_agree:
  "validate_message_v2 message = validate_message message \<and> sanitize_input_v2 buffer = sanitize_input buffer \<and>
   ssl_safe_write_v2 rs data = ssl_safe_write (map write_answer rs) data"
  by (simp add: ssl_safe_write_v2_def ssl_safe_write_def write_loop_v2_eq)

end
