(* ===== verification/Old_Server.thy ===== *)
theory Old_Server
  imports Old_Utils
begin

text \<open>
  The handlers of the earlier server, \<^verbatim>\<open>src/src/trash/server2.c\<close>: tokens and nicknames,
  address limits, messages, peer-to-peer introductions, the commands of a client and the accept
  path. The command handlers interpret \<open>mutex_user\<close>.
\<close>

section \<open>Tokens and nicknames\<close>

definition generate_secure_token_v2 :: "rand_result \<Rightarrow> char list \<Rightarrow> nat \<Rightarrow> fault + bool \<times> char list" where
  "generate_secure_token_v2 rnd buffer len =
     (if len < TOKEN_LENGTH + 1 then Inr (False, buffer)
      else if fst rnd = 0 then Inr (False, buffer)
      else case token_loop buffer 0 (take (TOKEN_LENGTH div 2) (snd rnd)) of
        Inl e \<Rightarrow> Inl e
      | Inr buffer1 \<Rightarrow> map_sum id (Pair True) (poke buffer1 TOKEN_LENGTH NUL))"

definition validate_nickname_v2 :: "string \<Rightarrow> bool" where
  "validate_nickname_v2 nick =
     (let len = strnlen nick MAX_NICK_LENGTH in
      if len < 3 \<or> len > MAX_NICK_LENGTH then False
      else list_all (\<lambda>c. isalnum c \<or> c = CHR ''_'' \<or> c = CHR ''-'') (take len nick))"

text \<open>The macro \<^verbatim>\<open>strcpy_s(dest, sizeof(dest), src)\<close> of this file on an array of the state.\<close>

definition strcpy_s :: "char list \<Rightarrow> string \<Rightarrow> char list" where
  "strcpy_s dst src = (strncpy dst src (length dst - 1))[length dst - 1 := NUL]"

definition check_rate_limit_cfg :: "config_t \<Rightarrow> time_t \<Rightarrow> client_t \<Rightarrow> bool \<times> client_t" where
  "check_rate_limit_cfg cfg now c =
     (if og_enable_ratelimit cfg = 0 then (True, c)
      else let (ok, rl) = check_rate_limit_v2 now (oc_rate_limit c) in (ok, c\<lparr>oc_rate_limit := rl\<rparr>))"

section \<open>Statements\<close>

definition SQL_OLD_REGISTER :: string where
  "SQL_OLD_REGISTER = ''INSERT INTO users (nick, token, ip_address, registration_id) VALUES (?, ?, ?, ?)''"

definition SQL_OLD_TOKEN :: string where
  "SQL_OLD_TOKEN = ''SELECT token FROM users WHERE nick = ?''"

definition SQL_OLD_LOGIN :: string where
  "SQL_OLD_LOGIN = ''UPDATE users SET last_login = datetime('' @ [CHR 0x27] @ ''now'' @ [CHR 0x27] @ '') WHERE nick = ?''"

definition SQL_OLD_BROADCAST :: string where
  "SQL_OLD_BROADCAST = ''INSERT INTO messages (from_user, message_text) VALUES (?, ?)''"

definition SQL_OLD_PRIVATE :: string where
  "SQL_OLD_PRIVATE = ''INSERT INTO messages (from_user, to_user, message_text) VALUES (?, ?, ?)''"

definition SQL_OLD_P2P :: string where
  "SQL_OLD_P2P = ''INSERT INTO p2p_connections (peer1_id, peer2_id, connection_key) VALUES (?, ?, ?)''"

definition SQL_IP_COUNT :: string where
  "SQL_IP_COUNT = ''SELECT connection_count FROM ip_limits WHERE ip_address = ? AND last_attempt > datetime('' @
     [CHR 0x27] @ ''now'' @ [CHR 0x27] @ '', '' @ [CHR 0x27] @ ''-1 hour'' @ [CHR 0x27] @ '')''"

definition SQL_IP_UP :: string where
  "SQL_IP_UP = ''INSERT INTO ip_limits (ip_address, connection_count, last_attempt) VALUES (?, 1, datetime('' @
     [CHR 0x27] @ ''now'' @ [CHR 0x27] @ '')) ON CONFLICT(ip_address) DO UPDATE SET connection_count = connection_count + 1, last_attempt = datetime('' @
     [CHR 0x27] @ ''now'' @ [CHR 0x27] @ '')''"

definition SQL_IP_DOWN :: string where
  "SQL_IP_DOWN = ''UPDATE ip_limits SET connection_count = MAX(0, connection_count - 1) WHERE ip_address = ?''"

text \<open>Prepare, bind, step and finalize a statement whose result is not looked at.\<close>

definition run_statement :: "'db sqlite \<Rightarrow> string \<Rightarrow> sql_value list \<Rightarrow> 'db old_world \<Rightarrow> 'db old_world" where
  "run_statement E q vs w =
     (if sq_prepare E (ow_db w) q then old_set_db (snd (sq_step E (ow_db w) q vs)) w else w)"

definition check_ip_limit :: "'db sqlite \<Rightarrow> string \<Rightarrow> 'db old_world \<Rightarrow> bool \<times> 'db old_world" where
  "check_ip_limit E ip w =
     (if \<not> sq_prepare E (ow_db w) SQL_IP_COUNT then (True, w)
      else let (r, d) = sq_step E (ow_db w) SQL_IP_COUNT [Sql_text ip]; w1 = old_set_db d w in
      (case r of
         Row cols \<Rightarrow> \<not> column_int (column cols 0) \<ge> og_max_connections_per_ip (os_config (ow_srv w))
       | _ \<Rightarrow> True, w1))"

definition update_ip_limit :: "'db sqlite \<Rightarrow> string \<Rightarrow> bool \<Rightarrow> 'db old_world \<Rightarrow> 'db old_world" where
  "update_ip_limit E ip increment w =
     (if increment then run_statement E SQL_IP_UP [Sql_text ip] w
      else run_statement E SQL_IP_DOWN [Sql_text ip] w)"

section \<open>Messages\<close>

fun old_broadcast_loop :: "client_t list \<Rightarrow> string \<Rightarrow> event list" where
  "old_broadcast_loop [] json = []"
| "old_broadcast_loop (c # cs) json =
     (if old_reachable c then Ssl_safe_write (oc_ssl c) json # old_broadcast_loop cs json
      else old_broadcast_loop cs json)"

definition broadcast_message_v2 :: "'db sqlite \<Rightarrow> string \<Rightarrow> string \<Rightarrow> 'db old_world \<Rightarrow> fault + unit \<times> 'db old_world" where
  "broadcast_message_v2 E sender message w =
     with_mutex (\<lambda>w1. Inr ((), old_emit (old_broadcast_loop
         (take (os_max_clients (ow_srv w1)) (os_clients (ow_srv w1)))
         (snprintf BUFFER_SIZE (json_message sender message))) w1))
       (run_statement E SQL_OLD_BROADCAST [Sql_text sender, Sql_text message] w)"

definition send_private_message_v2 ::
  "'db sqlite \<Rightarrow> string \<Rightarrow> string \<Rightarrow> string \<Rightarrow> 'db old_world \<Rightarrow> fault + unit \<times> 'db old_world" where
  "send_private_message_v2 E sender target message w =
     and_then (find_client_by_nick_v2 target w) (\<lambda>(found, w1).
       case found of
         None \<Rightarrow> Inr ((), w1)
       | Some t \<Rightarrow>
           with_mutex (\<lambda>w2. Inr ((), if old_reachable (old_client w2 t)
               then old_send t (snprintf BUFFER_SIZE (json_private sender target message)) w2 else w2))
             (run_statement E SQL_OLD_PRIVATE [Sql_text sender, Sql_text target, Sql_text message] w1))"

definition add_peer_to_network_v2 :: "nat \<Rightarrow> time_t \<Rightarrow> 'db old_world \<Rightarrow> int \<times> 'db old_world" where
  "add_peer_to_network_v2 i now w =
     (let c = old_client w i; n = os_p2p (ow_srv w); k = on_peer_count n in
      if k \<ge> on_max_peers n then (-1, old_emit [Mutex_lock P2p_mutex, Mutex_unlock P2p_mutex] w)
      else let p = on_peers n ! k;
               p' = p\<lparr>op_peer_id := strncpy (op_peer_id p) (cstr (oc_peer_id c)) 63, op_public_addr := oc_addr c,
                      op_is_connected := 1, op_last_heartbeat := now,
                      op_public_key := strncpy (op_public_key p) (cstr (oc_public_key c)) 255\<rparr>;
               n' = n\<lparr>on_peers := (on_peers n)[k := p'], on_peer_count := k + 1\<rparr>
           in (0, old_emit [Mutex_lock P2p_mutex, Mutex_unlock P2p_mutex]
                 (w\<lparr>ow_srv := (ow_srv w)\<lparr>os_p2p := n'\<rparr>\<rparr>)))"

definition handshake :: "client_t \<Rightarrow> string" where
  \<open>handshake c = snprintf 512 (''{"type":"p2p_handshake","peer_id":"'' @ cstr (oc_peer_id c) @
     ''","public_key":"'' @ cstr (oc_public_key c) @ ''","address":"'' @ inet_ntop (sin_addr (oc_addr c)) @
     '':'' @ dec_nat (unat (sin_port (oc_addr c))) @ ''"}'')\<close>

text \<open>
  The result of \<open>generate_secure_token\<close> is not looked at: when it fails, what was in the
  uninitialised array \<open>key_array\<close> is read as the key.
\<close>

definition establish_p2p_connection ::
  "'db sqlite \<Rightarrow> rand_result \<Rightarrow> char list \<Rightarrow> nat \<Rightarrow> nat \<Rightarrow> 'db old_world \<Rightarrow> fault + int \<times> 'db old_world" where
  "establish_p2p_connection E rnd key_array i j w =
     (let w1 = old_send j (handshake (old_client w i)) (old_send i (handshake (old_client w j)) w) in
      if \<not> sq_prepare E (ow_db w1) SQL_OLD_P2P then Inr (0, w1)
      else case generate_secure_token_v2 rnd key_array 65 of
        Inl e \<Rightarrow> Inl e
      | Inr (_, key) \<Rightarrow>
          if NUL \<notin> set key then Inl Out_of_bounds_read
          else let w2 = run_statement E SQL_OLD_P2P [Sql_text (cstr (oc_peer_id (old_client w1 i))),
                          Sql_text (cstr (oc_peer_id (old_client w1 j))), Sql_text (cstr key)] w1;
                   key_msg = snprintf 256 (''{\"type\":\"p2p_key\",\"key\":\"'' @ cstr key @ ''\"}'')
               in Inr (0, old_send j key_msg (old_send i key_msg w2)))"

section \<open>Commands\<close>

text \<open>
  What lies outside the file: \<open>secure_strcmp\<close> is declared nowhere in the repository, and the session
  cipher belongs to libsignal; \<open>oe_encrypt\<close> gives the serialized message for a recipient and a
  plaintext, or nothing when one of the calls fails.
\<close>

record old_env =
  oe_now :: time_t
  oe_rand :: rand_result
  oe_array :: "char list"
  oe_secure_strcmp :: "string \<Rightarrow> string \<Rightarrow> int"
  oe_encrypt :: "string \<Rightarrow> string \<Rightarrow> byte list option"
  oe_b64 :: "byte list \<Rightarrow> string"

definition fmt_old_register :: "directive list" where
  "fmt_old_register = lits ''/register'' @ [Ws, Word_field (Some 31)]"

definition fmt_old_login :: "directive list" where
  "fmt_old_login = lits ''/login'' @ [Ws, Word_field (Some 31), Ws, Word_field (Some 63)]"

definition fmt_old_msg :: "directive list" where
  "fmt_old_msg = lits ''/msg'' @ [Ws, Word_field (Some 31), Ws, Line_field (Some 2047)]"

definition fmt_old_send_enc :: "directive list" where
  "fmt_old_send_enc = lits ''/send_enc'' @ [Ws, Word_field (Some 31), Ws, Line_field (Some 2047)]"

definition fmt_p2p_connect :: "directive list" where
  "fmt_p2p_connect = lits ''/p2p_connect'' @ [Ws, Word_field (Some 31)]"

definition old_msg_bad_nick :: string where
  \<open>old_msg_bad_nick = ''{"type":"register","status":"error","message":"Invalid nickname"}'' @ [NL]\<close>

definition old_msg_taken :: string where
  \<open>old_msg_taken = ''{"type":"register","status":"error","message":"Nickname already exists"}'' @ [NL]\<close>

definition old_msg_bad_login :: string where
  \<open>old_msg_bad_login = ''{"type":"login","status":"error","message":"Invalid credentials"}'' @ [NL]\<close>

definition old_register :: "'db sqlite \<Rightarrow> old_env \<Rightarrow> nat \<Rightarrow> string \<Rightarrow> 'db old_world \<Rightarrow> fault + unit \<times> 'db old_world" where
  \<open>old_register E env i line w =
     (case sscanf fmt_old_register line of
        [nick] \<Rightarrow>
          if validate_nickname_v2 nick then
            (case generate_secure_token_v2 (oe_rand env) (oe_array env) (TOKEN_LENGTH + 1) of
               Inl e \<Rightarrow> Inl e
             | Inr (False, _) \<Rightarrow> Inr ((), w)
             | Inr (True, token) \<Rightarrow>
                 if \<not> sq_prepare E (ow_db w) SQL_OLD_REGISTER then Inr ((), w)
                 else let (r, d) = sq_step E (ow_db w) SQL_OLD_REGISTER [Sql_text nick, Sql_text (cstr token),
                              Sql_text (inet_ntop (sin_addr (oc_addr (old_client w i)))),
                              Sql_int (sint (oc_reg_id (old_client w i)))];
                          w1 = old_set_db d w
                      in if r = Done
                         then Inr ((), old_send i (snprintf 256
                           (''{"type":"register","status":"success","nick":"'' @ nick @ ''","token":"'' @
                            cstr token @ ''"}'' @ [NL])) w1)
                         else Inr ((), old_send i old_msg_taken w1))
          else Inr ((), old_send i old_msg_bad_nick w)
      | _ \<Rightarrow> Inr ((), old_send i old_msg_bad_nick w))\<close>

text \<open>
  After the credentials were accepted. The statement of \<^verbatim>\<open>last_login\<close> is finalized where it
  is used and once more at the end of the branch, which the documentation of SQLite forbids.
\<close>

definition old_accept_login :: "'db sqlite \<Rightarrow> old_env \<Rightarrow> nat \<Rightarrow> string \<Rightarrow> string \<Rightarrow> 'db old_world \<Rightarrow> fault + unit \<times> 'db old_world" where
  \<open>old_accept_login E env i nick token w =
     (let c = old_client w i;
          w1 = old_set_client i (c\<lparr>oc_nick := strcpy_s (oc_nick c) nick, oc_token := strcpy_s (oc_token c) token,
                 oc_authorized := True\<rparr>) w;
          w2 = old_send i (snprintf 128 (''{"type":"login","status":"success","nick":"'' @ nick @ ''"}'' @ [NL])) w1;
          prepared = sq_prepare E (ow_db w2) SQL_OLD_LOGIN;
          w3 = run_statement E SQL_OLD_LOGIN [Sql_text nick] w2
      in and_then (broadcast_message_v2 E ''System'' (snprintf 256 (''User '' @ nick @ '' joined the chat'' @ [NL])) w3)
           (\<lambda>(_, w4). let w5 = snd (add_peer_to_network_v2 i (oe_now env) w4)
                      in if prepared then Inl Double_release else Inr ((), w5)))\<close>

definition old_login :: "'db sqlite \<Rightarrow> old_env \<Rightarrow> nat \<Rightarrow> string \<Rightarrow> 'db old_world \<Rightarrow> fault + unit \<times> 'db old_world" where
  "old_login E env i line w =
     (case sscanf fmt_old_login line of
        [nick, token] \<Rightarrow>
          if \<not> sq_prepare E (ow_db w) SQL_OLD_TOKEN then Inr ((), w)
          else let (r, d) = sq_step E (ow_db w) SQL_OLD_TOKEN [Sql_text nick]; w1 = old_set_db d w in
          (case r of
             Row cols \<Rightarrow>
               (case column_text (column cols 0) of
                  Some db_token \<Rightarrow>
                    if oe_secure_strcmp env db_token token = 0 then old_accept_login E env i nick token w1
                    else Inr ((), old_send i old_msg_bad_login w1)
                | None \<Rightarrow> Inr ((), old_send i old_msg_bad_login w1))
           | _ \<Rightarrow> Inr ((), old_send i old_msg_bad_login w1))
      | _ \<Rightarrow> Inr ((), w))"

fun old_online_loop :: "client_t list \<Rightarrow> bool \<Rightarrow> string \<Rightarrow> string" where
  "old_online_loop [] first l = l"
| "old_online_loop (c # cs) first l =
     (if old_reachable c then
        let l1 = (if \<not> first then cat_online l '','' else l);
            l2 = cat_online l1 [CHR 0x22];
            l3 = cat_online l2 (cstr (oc_nick c));
            l4 = cat_online l3 [CHR 0x22]
        in old_online_loop cs False l4
      else old_online_loop cs first l)"

definition old_online :: "nat \<Rightarrow> 'db old_world \<Rightarrow> fault + unit \<times> 'db old_world" where
  "old_online i w =
     and_then (with_mutex (\<lambda>w1. Inr (old_online_loop
         (take (os_max_clients (ow_srv w1)) (os_clients (ow_srv w1))) True online_open, w1)) w)
       (\<lambda>(l, w2). Inr ((), old_send i (cat_online l online_close) w2))"

definition old_private :: "'db sqlite \<Rightarrow> nat \<Rightarrow> string \<Rightarrow> 'db old_world \<Rightarrow> fault + unit \<times> 'db old_world" where
  \<open>old_private E i line w =
     (case sscanf fmt_old_msg line of
        [target, message] \<Rightarrow>
          if validate_message_v2 message then
            and_then (send_private_message_v2 E (cstr (oc_nick (old_client w i))) target message w)
              (\<lambda>(_, w1). Inr ((), old_send i (snprintf 128
                 (''{"type":"private_sent","to":"'' @ target @ ''","status":"success"}'' @ [NL])) w1))
          else Inr ((), w)
      | _ \<Rightarrow> Inr ((), w))\<close>

text \<open>\<open>encrypt_message_for_user\<close> of this server: the recipient has to be connected with a store.\<close>

definition encrypt_message_for_user_v2 ::
  "old_env \<Rightarrow> string \<Rightarrow> string \<Rightarrow> 'db old_world \<Rightarrow> fault + string option \<times> 'db old_world" where
  "encrypt_message_for_user_v2 env recipient plaintext w =
     and_then (find_client_by_nick_v2 recipient w) (\<lambda>(found, w1).
       Inr (case found of
              None \<Rightarrow> None
            | Some t \<Rightarrow> if oc_store (old_client w1 t) = None then None
                       else map_option (\<lambda>s. cstr (oe_b64 env s)) (oe_encrypt env recipient plaintext), w1))"

definition old_encrypted :: "old_env \<Rightarrow> nat \<Rightarrow> string \<Rightarrow> 'db old_world \<Rightarrow> fault + unit \<times> 'db old_world" where
  \<open>old_encrypted env i line w =
     (case sscanf fmt_old_send_enc line of
        [target, raw_msg] \<Rightarrow>
          and_then (encrypt_message_for_user_v2 env target raw_msg w) (\<lambda>(encrypted, w1).
            case encrypted of
              None \<Rightarrow> Inr ((), old_send i (''{"type":"error","message":"Encryption failed"}'' @ [NL]) w1)
            | Some data \<Rightarrow>
                and_then (find_client_by_nick_v2 target w1) (\<lambda>(tgt, w2).
                  Inr ((), case tgt of
                             None \<Rightarrow> w2
                           | Some t \<Rightarrow> old_send t (snprintf BUFFER_SIZE
                               (json_encrypted (cstr (oc_nick (old_client w2 i))) target data)) w2)))
      | _ \<Rightarrow> Inr ((), w))\<close>

definition old_p2p_connect :: "'db sqlite \<Rightarrow> old_env \<Rightarrow> nat \<Rightarrow> string \<Rightarrow> 'db old_world \<Rightarrow> fault + unit \<times> 'db old_world" where
  \<open>old_p2p_connect E env i line w =
     (case sscanf fmt_p2p_connect line of
        [target] \<Rightarrow>
          and_then (find_client_by_nick_v2 target w) (\<lambda>(found, w1).
            case found of
              None \<Rightarrow> Inr ((), old_send i (''{"type":"error","message":"User not found"}'' @ [NL]) w1)
            | Some t \<Rightarrow>
                and_then (establish_p2p_connection E (oe_rand env) (oe_array env) i t w1) (\<lambda>(ret, w2).
                  Inr ((), if ret = 0
                    then old_send i (snprintf 128 (''{"type":"p2p_initiated","target":"'' @ target @
                           ''","status":"success"}'' @ [NL])) w2
                    else old_send i (''{"type":"error","message":"P2P connection failed"}'' @ [NL]) w2)))
      | _ \<Rightarrow> Inr ((), w))\<close>

definition old_help :: string where
  \<open>old_help = ''{"type":"help","commands":['' @ [NL] @ ''  "/online - Show online users",'' @ [NL] @
     ''  "/msg <user> <message> - Send private message",'' @ [NL] @
     ''  "/send_enc <user> <message> - Send E2E encrypted message",'' @ [NL] @
     ''  "/p2p_connect <user> - Establish P2P connection",'' @ [NL] @
     ''  "/help - Show this help"'' @ [NL] @ '']}'' @ [NL]\<close>

definition old_command :: "'db sqlite \<Rightarrow> nat \<Rightarrow> old_env \<times> string \<Rightarrow> 'db old_world \<Rightarrow> fault + unit \<times> 'db old_world" where
  "old_command E i = (\<lambda>(env, line) w.
     if \<not> oc_authorized (old_client w i) then
       if strncmp_eq line ''/register'' 9 then old_register E env i line w
       else if strncmp_eq line ''/login'' 6 then old_login E env i line w
       else Inr ((), w)
     else if line = ''/online'' then old_online i w
     else if strncmp_eq line ''/msg'' 4 then old_private E i line w
     else if strncmp_eq line ''/send_enc'' 9 then old_encrypted env i line w
     else if strncmp_eq line ''/p2p_connect'' 12 then old_p2p_connect E env i line w
     else if line = ''/help'' then Inr ((), old_send i old_help w)
     else if validate_message_v2 line
     then broadcast_message_v2 E (cstr (oc_nick (old_client w i))) line w
     else Inr ((), w))"

section \<open>Accepting a connection\<close>

record old_connection =
  ok_fd :: int
  ok_addr :: sockaddr_in
  ok_ssl :: nat
  ok_ssl_accept :: int
  ok_connect_now :: time_t
  ok_activity_now :: time_t
  ok_window_now :: time_t

fun old_free_slot :: "client_t list \<Rightarrow> nat \<Rightarrow> nat option" where
  "old_free_slot [] i = None"
| "old_free_slot (c # cs) i = (if oc_fd c < 0 then Some i else old_free_slot cs (Suc i))"

definition old_fresh :: "old_connection \<Rightarrow> client_t \<Rightarrow> client_t" where
  "old_fresh k c = c\<lparr>oc_fd := ok_fd k, oc_ssl := Some (ok_ssl k), oc_addr := ok_addr k,
     oc_connect_time := ok_connect_now k, oc_last_activity := ok_activity_now k, oc_authorized := False,
     oc_is_p2p_connected := 0, oc_nick := nuls (length (oc_nick c)), oc_token := nuls (length (oc_token c)),
     oc_public_key := nuls (length (oc_public_key c)), oc_peer_id := nuls (length (oc_peer_id c)),
     oc_rate_limit := \<lparr>window_start = ok_window_now k, request_count = 0\<rparr>, oc_store := None,
     oc_cipher := None, oc_reg_id := 0\<rparr>"

text \<open>The part of the main loop of \<open>start_mesh_server\<close> that handles one ready listening socket.\<close>

definition accept_client :: "old_connection \<Rightarrow> 'db old_world \<Rightarrow> fault + nat option \<times> 'db old_world" where
  "accept_client k w =
     (if ok_fd k < 0 then Inr (None, w)
      else and_then (with_mutex (\<lambda>w1.
          Inr (case old_free_slot (take (os_max_clients (ow_srv w1)) (os_clients (ow_srv w1))) 0 of
                 None \<Rightarrow> (None, old_emit [Close_fd (ok_fd k)] w1)
               | Some i \<Rightarrow>
                   if ok_ssl_accept k \<le> 0 then (None, old_emit [Ssl_free (ok_ssl k), Close_fd (ok_fd k)] w1)
                   else (Some i, old_set_client i (old_fresh k (old_client w1 i)) w1))) w)
        (\<lambda>(slot, w2). Inr (slot, case slot of None \<Rightarrow> w2 | Some i \<Rightarrow> old_emit [Thread_create i] w2)))"

section \<open>The session of a client\<close>

text \<open>
  The library's answers while the Signal context of a client is set up: the store's handle, whether
  the four stores were set and the identity key generated, the registration id, whether the pre-keys
  and the signed pre-key were generated, and what \<open>generate_client_keys\<close> obtains.
\<close>

record old_signal_env =
  oi_store :: "nat option"
  oi_stores_set :: bool
  oi_identity :: bool
  oi_reg_id :: "uint32 option"
  oi_pre_keys :: bool
  oi_signed_pre_key :: bool
  oi_chacha :: "byte list"
  oi_twofish :: "byte list"
  oi_public_key :: "byte list option"

definition generate_client_keys :: "old_signal_env \<Rightarrow> client_t \<Rightarrow> client_t" where
  "generate_client_keys se c =
     (let c1 = c\<lparr>oc_chacha_key := take 32 (oi_chacha se), oc_twofish_key := take 32 (oi_twofish se)\<rparr> in
      case oi_public_key se of
        None \<Rightarrow> c1
      | Some pk \<Rightarrow> if 0 < length pk \<and> length pk < 256
          then c1\<lparr>oc_public_key := map (\<lambda>b. char_of (unat b)) pk @ drop (length pk) (oc_public_key c1)\<rparr> else c1)"

definition init_client_signal_protocol_v2 :: "old_signal_env \<Rightarrow> client_t \<Rightarrow> bool \<times> client_t \<times> event list" where
  "init_client_signal_protocol_v2 se c =
     (case oi_store se of
        None \<Rightarrow> (False, c, [])
      | Some h \<Rightarrow>
          if \<not> oi_stores_set se \<or> \<not> oi_identity se then (False, c\<lparr>oc_store := None\<rparr>, [Store_destroy h])
          else case oi_reg_id se of
            None \<Rightarrow> (False, c\<lparr>oc_store := None\<rparr>, [Store_destroy h])
          | Some rid \<Rightarrow>
              if \<not> oi_pre_keys se \<or> \<not> oi_signed_pre_key se
              then (False, c\<lparr>oc_reg_id := rid, oc_store := None\<rparr>, [Store_destroy h])
              else (True, generate_client_keys se (c\<lparr>oc_store := Some h, oc_reg_id := rid\<rparr>), []))"

definition old_welcome :: string where
  "old_welcome = ''Welcome to Enhanced Secure P2P Chat!'' @ [NL] @
     ''Commands: /register <nick>, /login <nick> <token>, /msg <user> <message>, /send_enc <user> <message>, /p2p_connect <user>, /online, /help'' @ [NL]"

definition old_snprintf :: "char list \<Rightarrow> string \<Rightarrow> char list" where
  "old_snprintf buf s = (let t = snprintf (length buf) s in t @ NUL # drop (Suc (length t)) buf)"

definition client_ip_v2 :: "nat \<Rightarrow> 'db old_world \<Rightarrow> string" where
  "client_ip_v2 i w = inet_ntop (sin_addr (oc_addr (old_client w i)))"

text \<open>\<open>validate_client_identity\<close> tests address ranges but accepts every client.\<close>

definition validate_client_identity :: "client_t \<Rightarrow> bool" where
  "validate_client_identity c =
     (let ip = sin_addr (oc_addr c) in
      if drop_bit 24 ip = 10 \<or> drop_bit 20 ip = 0xAC1 \<or> drop_bit 16 ip = 0xC0A8 then True else True)"

text \<open>The start of \<open>client_handler\<close>: whether the loop is entered.\<close>

definition old_session_start :: "'db sqlite \<Rightarrow> old_signal_env \<Rightarrow> time_t \<Rightarrow> nat \<Rightarrow> 'db old_world \<Rightarrow> fault + bool \<times> 'db old_world" where
  "old_session_start E se now i w =
     (let ip = client_ip_v2 i w in
      if \<not> validate_client_identity (old_client w i) then
        map_sum id (apfst (\<lambda>_. False)) (disconnect_client i (old_send i (''Client validation failed'' @ [NL]) w))
      else let (ok, w1) = check_ip_limit E ip w in
      if \<not> ok then
        map_sum id (apfst (\<lambda>_. False))
          (disconnect_client i (old_send i (''Too many connections from your IP address'' @ [NL]) w1))
      else let w2 = update_ip_limit E ip True w1;
               (ready, c, ev) = init_client_signal_protocol_v2 se (old_client w2 i);
               w3 = old_set_client i c (old_emit ev w2) in
      if \<not> ready then map_sum id (apfst (\<lambda>_. False)) (disconnect_client i w3)
      else Inr (True, old_send i old_welcome (old_set_client i
             (c\<lparr>oc_peer_id := old_snprintf (oc_peer_id c) (''peer_'' @ cstr (oc_nick c) @ ''_'' @ dec_int now)\<rparr>) w3)))"

definition old_session_end :: "'db sqlite \<Rightarrow> nat \<Rightarrow> 'db old_world \<Rightarrow> fault + unit \<times> 'db old_world" where
  "old_session_end E i w =
     and_then (if oc_authorized (old_client w i)
               then broadcast_message_v2 E ''System'' (snprintf 256
                      (''User '' @ cstr (oc_nick (old_client w i)) @ '' left the chat'' @ [NL])) w
               else Inr ((), w))
       (\<lambda>(_, w1). disconnect_client i (update_ip_limit E (client_ip_v2 i w1) False w1))"

record old_turn =
  ot_fd :: int
  ot_selected :: int
  ot_reads :: "read_result list"
  ot_activity_now :: time_t
  ot_now :: time_t
  ot_env :: old_env

text \<open>
  One iteration of the loop of \<open>client_handler\<close>: \<open>None\<close> when the read does not return, otherwise
  whether the loop goes on, the buffer and the world.
\<close>

definition old_session_turn ::
  "'db sqlite \<Rightarrow> nat \<Rightarrow> old_turn \<Rightarrow> char list \<Rightarrow> 'db old_world \<Rightarrow> (fault + (bool \<times> char list) \<times> 'db old_world) option" where
  "old_session_turn E i t buffer w =
     (if \<not> (os_running (ow_srv w) \<and> oc_fd (old_client w i) \<ge> 0) then Some (Inr ((False, buffer), w))
      else case ssl_safe_read_v2 (ot_fd t) (ot_selected t) (ot_reads t) buffer BUFFER_SIZE of
        None \<Rightarrow> None
      | Some (Inl e) \<Rightarrow> Some (Inl e)
      | Some (Inr (bytes_read, b1)) \<Rightarrow>
          if bytes_read \<le> 0 then Some (Inr ((bytes_read = 0, b1), w))
          else
            let c1 = (old_client w i)\<lparr>oc_last_activity := ot_activity_now t\<rparr>;
                (ok, c2) = check_rate_limit_cfg (os_config (ow_srv w)) (ot_now t) c1;
                w1 = old_set_client i c2 w
            in if \<not> ok then Some (Inr ((True, b1), old_send i (''Rate limit exceeded. Please wait.'' @ [NL]) w1))
               else (case sanitize_input_v2 b1 of
                 Inl e \<Rightarrow> Some (Inl e)
               | Inr b2 \<Rightarrow>
                   if cstr b2 = [] \<or> b2 ! 0 = NL then Some (Inr ((True, b2), w1))
                   else let b3 = (if last (cstr b2) = NL then b2[length (cstr b2) - 1 := NUL] else b2)
                        in Some (map_sum id (apfst (\<lambda>_. (True, b3))) (old_command E i (ot_env t, cstr b3) w1))))"

fun old_session_loop ::
  "'db sqlite \<Rightarrow> nat \<Rightarrow> old_turn list \<Rightarrow> char list \<Rightarrow> 'db old_world \<Rightarrow> (fault + unit \<times> 'db old_world) option" where
  "old_session_loop E i [] buffer w = None"
| "old_session_loop E i (t # ts) buffer w =
     (case old_session_turn E i t buffer w of
        None \<Rightarrow> None
      | Some (Inl e) \<Rightarrow> Some (Inl e)
      | Some (Inr ((True, b'), w')) \<Rightarrow> old_session_loop E i ts b' w'
      | Some (Inr ((False, b'), w')) \<Rightarrow> Some (Inr ((), w')))"

definition client_handler ::
  "'db sqlite \<Rightarrow> old_signal_env \<Rightarrow> time_t \<Rightarrow> old_turn list \<Rightarrow> char list \<Rightarrow> nat \<Rightarrow> 'db old_world \<Rightarrow>
   (fault + unit \<times> 'db old_world) option" where
  "client_handler E se now ts buffer i w =
     (case old_session_start E se now i w of
        Inl e \<Rightarrow> Some (Inl e)
      | Inr (False, w1) \<Rightarrow> Some (Inr ((), w1))
      | Inr (True, w1) \<Rightarrow>
          (case old_session_loop E i ts buffer w1 of
             None \<Rightarrow> None
           | Some (Inl e) \<Rightarrow> Some (Inl e)
           | Some (Inr (_, w2)) \<Rightarrow> Some (old_session_end E i w2)))"

section \<open>What the properties speak of\<close>

text \<open>What the name of \<open>secure_strcmp\<close> promises, and that every stored token was generated by the server.\<close>

definition compares_exactly :: "old_env \<Rightarrow> bool" where
  "compares_exactly env = (\<forall>a b. oe_secure_strcmp env a b = 0 \<longrightarrow> a = b)"

definition tokens_complete :: "'db sqlite \<Rightarrow> bool" where
  "tokens_complete E = (\<forall>d nick cols d' t. sq_step E d SQL_OLD_TOKEN [Sql_text nick] = (Row cols, d') \<longrightarrow>
     column_text (column cols 0) = Some t \<longrightarrow> length t = TOKEN_LENGTH)"

definition no_engine :: "unit sqlite" where
  "no_engine = \<lparr>sq_prepare = (\<lambda>_ _. False), sq_step = (\<lambda>_ _ _. (Step_error, ())), sq_exec = (\<lambda>_ _. (False, ()))\<rparr>"

definition demo_old_signal :: old_signal_env where
  "demo_old_signal = \<lparr>oi_store = Some 4, oi_stores_set = True, oi_identity = True, oi_reg_id = Some 1,
     oi_pre_keys = True, oi_signed_pre_key = True, oi_chacha = zeros 32, oi_twofish = zeros 32,
     oi_public_key = None\<rparr>"

definition demo_old_env :: old_env where
  "demo_old_env = \<lparr>oe_now = 0, oe_rand = (1, zeros 32), oe_array = nuls 65,
     oe_secure_strcmp = (\<lambda>a b. if a = b then 0 else 1), oe_encrypt = (\<lambda>_ _. None), oe_b64 = (\<lambda>_. [])\<rparr>"

definition demo_old_turn :: old_turn where
  "demo_old_turn = \<lparr>ot_fd = -1, ot_selected = 0, ot_reads = [], ot_activity_now = 0, ot_now = 0, ot_env = demo_old_env\<rparr>"

definition demo_old_connection :: old_connection where
  "demo_old_connection = \<lparr>ok_fd = 9, ok_addr = zero_addr, ok_ssl = 5, ok_ssl_accept = 1, ok_connect_now = 1,
     ok_activity_now = 1, ok_window_now = 1\<rparr>"

definition one_account :: "unit sqlite" where
  "one_account = \<lparr>sq_prepare = (\<lambda>_ _. True),
     sq_step = (\<lambda>_ q _. (if q = SQL_OLD_TOKEN then Row [Sql_text (replicate 64 CHR ''a'')] else Done, ())),
     sq_exec = (\<lambda>_ _. (True, ()))\<rparr>"

section \<open>Only locking can deadlock\<close>

lemma poke_fault: "poke buf i c = Inl e \<Longrightarrow> e = Buffer_overflow"
  by (auto simp: poke_def split: if_splits)

lemma poke_all_fault: "poke_all buf i cs = Inl e \<Longrightarrow> e = Buffer_overflow"
  by (induction cs arbitrary: buf i) (auto split: sum.splits dest: poke_fault)

lemma token_loop_fault: "token_loop buf i bs = Inl e \<Longrightarrow> e = Buffer_overflow"
  by (induction bs arbitrary: buf i) (auto split: sum.splits dest: poke_all_fault)

lemma token_v2_fault: "generate_secure_token_v2 rnd buf len = Inl e \<Longrightarrow> e = Buffer_overflow"
  by (auto simp: generate_secure_token_v2_def split: sum.splits if_splits dest: token_loop_fault poke_fault)

lemma sanitize_loop_fault: "sanitize_loop buf i j \<noteq> Inl Self_deadlock"
  by (induction buf i j rule: sanitize_loop.induct) (subst sanitize_loop.simps, auto simp: Let_def)

lemma sanitize_fault: "sanitize_input buf \<noteq> Inl Self_deadlock"
  by (simp add: sanitize_input_def sanitize_loop_fault)

lemma read_loop_fault: "read_loop rs buf n k \<noteq> Some (Inl Self_deadlock)"
  by (induction rs buf n k rule: read_loop.induct) (auto split: read_result.splits if_splits simp: Let_def)

lemma read_fault: "ssl_safe_read f s rs buf n \<noteq> Some (Inl Self_deadlock)"
  by (auto simp: ssl_safe_read_def read_loop_fault split: option.splits sum.splits dest: poke_fault)


lemma run_statement_srv [simp]: "ow_srv (run_statement E q vs w) = ow_srv w"
  by (simp add: run_statement_def)

lemma update_ip_limit_srv [simp]: "ow_srv (update_ip_limit E ip b w) = ow_srv w"
  by (simp add: update_ip_limit_def)

lemma check_ip_limit_srv [simp]: "ow_srv (snd (check_ip_limit E ip w)) = ow_srv w"
  by (simp add: check_ip_limit_def split: prod.splits)

lemma add_peer_v2_locked [simp]: "locked (snd (add_peer_to_network_v2 i now w)) = locked w"
  by (simp add: add_peer_to_network_v2_def Let_def)

lemma broadcast_v2_safe [mutex_intros]: "\<not> locked w \<Longrightarrow> mutex_safe (broadcast_message_v2 E s m w)"
  unfolding broadcast_message_v2_def by (rule mutex_safe_with_mutex) simp_all

lemma private_v2_safe [mutex_intros]: "\<not> locked w \<Longrightarrow> mutex_safe (send_private_message_v2 E s t m w)"
  unfolding send_private_message_v2_def by (auto intro!: mutex_intros split: option.split)

lemma establish_safe [mutex_intros]: "\<not> locked w \<Longrightarrow> mutex_safe (establish_p2p_connection E r a i j w)"
  by (auto simp: establish_p2p_connection_def Let_def split: sum.splits dest!: token_v2_fault)

lemma encrypt_v2_safe [mutex_intros]: "\<not> locked w \<Longrightarrow> mutex_safe (encrypt_message_for_user_v2 env t m w)"
  unfolding encrypt_message_for_user_v2_def by (auto intro!: mutex_intros)

lemma old_register_safe: "\<not> locked w \<Longrightarrow> mutex_safe (old_register E env i line w)"
  by (auto simp: old_register_def Let_def split: list.split sum.splits prod.splits bool.splits
      dest!: token_v2_fault)

lemma old_accept_login_safe: "\<not> locked w \<Longrightarrow> mutex_safe (old_accept_login E env i nick token w)"
  unfolding old_accept_login_def Let_def by (rule mutex_safe_and_then) (auto intro!: mutex_intros)

lemma old_login_safe: "\<not> locked w \<Longrightarrow> mutex_safe (old_login E env i line w)"
  by (auto simp: old_login_def Let_def old_accept_login_safe
      split: list.split option.split prod.split step_result.split)

lemma old_online_safe: "\<not> locked w \<Longrightarrow> mutex_safe (old_online i w)"
  unfolding old_online_def by (auto intro!: mutex_intros)

lemma old_private_safe: "\<not> locked w \<Longrightarrow> mutex_safe (old_private E i line w)"
  by (auto simp: old_private_def intro!: mutex_intros split: list.split)

lemma old_encrypted_safe: "\<not> locked w \<Longrightarrow> mutex_safe (old_encrypted env i line w)"
  by (auto simp: old_encrypted_def intro!: mutex_intros split: list.split option.split)

lemma old_p2p_connect_safe: "\<not> locked w \<Longrightarrow> mutex_safe (old_p2p_connect E env i line w)"
  by (auto simp: old_p2p_connect_def intro!: mutex_intros split: list.split option.split)

interpretation commands: mutex_user "old_command E i" for E i
proof unfold_locales
  fix w :: "'a old_world" and c :: "old_env \<times> string"
  assume "\<not> locked w"
  then show "mutex_safe (old_command E i c w)"
    by (cases c) (simp add: old_command_def old_register_safe old_login_safe old_online_safe old_private_safe
      old_encrypted_safe old_p2p_connect_safe broadcast_v2_safe)
qed

lemma mutex_safe_apfst [simp]: "mutex_safe (map_sum id (apfst f) r) = mutex_safe r"
  by (auto simp: mutex_safe_def split: sum.splits)

lemma session_start_safe:
  assumes "\<not> locked w"
  shows "mutex_safe (old_session_start E se now i w)"
proof -
  obtain ok w1 where c: "check_ip_limit E (client_ip_v2 i w) w = (ok, w1)" by fastforce
  then have "\<not> locked w1"
    using assms check_ip_limit_srv [of E "client_ip_v2 i w" w] by (metis snd_conv)
  with assms c show ?thesis
    by (auto simp: old_session_start_def Let_def disconnects.safe split: prod.split)
qed

lemma session_end_safe: "\<not> locked w \<Longrightarrow> mutex_safe (old_session_end E i w)"
  unfolding old_session_end_def by (rule mutex_safe_and_then) (auto intro!: mutex_intros disconnects.safe)

lemma session_turn_safe: "\<not> locked w \<Longrightarrow> old_session_turn E i t b w = Some r \<Longrightarrow> mutex_safe r"
  by (auto simp: old_session_turn_def Let_def commands.safe read_fault sanitize_fault
      split: if_splits option.splits sum.splits prod.splits)

lemma session_loop_safe: "\<not> locked w \<Longrightarrow> old_session_loop E i ts b w = Some r \<Longrightarrow> mutex_safe r"
proof (induction ts arbitrary: b w)
  case (Cons t ts)
  from Cons.prems(2) obtain r' where t: "old_session_turn E i t b w = Some r'"
    by (auto split: option.splits)
  from session_turn_safe [OF Cons.prems(1) t] Cons t show ?case
    by (auto split: sum.splits prod.splits bool.splits)
qed simp

lemma accept_client_safe: "\<not> locked w \<Longrightarrow> mutex_safe (accept_client k w)"
  unfolding accept_client_def by (auto intro!: mutex_intros split: option.splits)

text \<open>
  Serving clients keeps the mutex of the earlier server in order: a thread that accepts a
  connection, or that runs a whole session whatever the client sends, and starts with the mutex free,
  never waits for itself, and whenever it returns the mutex is free again.
\<close>

theorem old_handlers_keep_mutex:
  assumes "\<not> locked w"
  shows "mutex_safe (accept_client k w) \<and>
    (client_handler E se now ts buffer i w = Some r \<longrightarrow> mutex_safe r)"
proof (intro conjI impI)
  show "mutex_safe (accept_client k w)" using assms by (rule accept_client_safe)
  assume r: "client_handler E se now ts buffer i w = Some r"
  show "mutex_safe r"
    using r session_start_safe [OF assms, of E se now i]
    by (auto simp: client_handler_def session_end_safe
        split: sum.splits prod.splits bool.splits option.splits dest!: session_loop_safe [rotated])
qed

theorem old_handlers_keep_mutex_witness:
  "mutex_safe (accept_client demo_old_connection old_demo) \<and>
   (\<exists>w'. client_handler no_engine demo_old_signal 0 [demo_old_turn] (nuls 8192) 0 old_demo = Some (Inr ((), w')) \<and>
      \<not> locked w')"
proof -
  have "\<not> locked old_demo" by (simp add: old_demo_def)
  note ok = old_handlers_keep_mutex [OF this, of demo_old_connection no_engine demo_old_signal 0 "[demo_old_turn]" "nuls 8192" 0]
  have "\<exists>w'. client_handler no_engine demo_old_signal 0 [demo_old_turn] (nuls 8192) 0 old_demo = Some (Inr ((), w'))"
    by (simp add: client_handler_def old_session_start_def validate_client_identity_def check_ip_limit_def
        no_engine_def update_ip_limit_def run_statement_def init_client_signal_protocol_v2_def demo_old_signal_def
        generate_client_keys_def old_session_turn_def demo_old_turn_def ssl_safe_read_def old_session_end_def
        and_then_def disconnect_client_def with_mutex_def old_demo_def old_slot_def Let_def
        old_set_client_def old_emit_def old_send_def)
  then show ?thesis using ok by (metis mutex_safe_simps(1))
qed

section \<open>Tokens\<close>

lemma token_v2_shape:
  assumes "fst rnd \<noteq> 0" "length (snd rnd) = 32" "length buffer = 65"
  shows "generate_secure_token_v2 rnd buffer 65 = Inr (True, concat (map hex2 (snd rnd)) @ [NUL])"
proof -
  have "length (concat (map hex2 (snd rnd))) = 64"
    using assms(2) by (simp add: length_concat_const [where k = 2])
  moreover have "token_loop buffer 0 (snd rnd) = Inr (concat (map hex2 (snd rnd)) @ [NUL])"
    using token_loop_ok [of "snd rnd" 0 buffer] assms by (cases "snd rnd") auto
  ultimately show ?thesis
    using assms by (simp add: generate_secure_token_v2_def TOKEN_LENGTH_def poke_def list_update_append)
qed

lemma hex_is_cstr: "is_cstr (concat (map hex2 bs))"
  by (induction bs) (auto simp: is_cstr_def dest: hex2_class)

text \<open>
  In the earlier server the token fits: 32 random bytes fill the 65 cells that registration
  passes exactly, as 64 hex digits and the NUL, so the array is never left.
\<close>

theorem old_token_fits:
  assumes "fst rnd \<noteq> 0" "length (snd rnd) = 32" "length buffer = 65"
  shows "\<exists>buf. generate_secure_token_v2 rnd buffer (TOKEN_LENGTH + 1) = Inr (True, buf) \<and> length buf = 65 \<and>
    cstr buf = concat (map hex2 (snd rnd)) \<and> length (cstr buf) = TOKEN_LENGTH"
  using token_v2_shape [OF assms] assms(2) hex_is_cstr [of "snd rnd"]
  by (simp add: TOKEN_LENGTH_def length_concat_const [where k = 2])

theorem old_token_fits_witness:
  "\<exists>buf. generate_secure_token_v2 (1, zeros 32) (nuls 65) (TOKEN_LENGTH + 1) = Inr (True, buf) \<and> length (cstr buf) = 64"
  using old_token_fits [of "(1, zeros 32)" "nuls 65"] by (auto simp: TOKEN_LENGTH_def)

section \<open>Logging in\<close>

lemma sscanf_login_token:
  assumes "sscanf fmt_old_login line = [nick, token]"
  shows "length token \<le> 63"
proof -
  obtain t where "sscanf [Ws, Word_field (Some 31), Ws, Word_field (Some 63)] t = [nick, token]"
    using assms unfolding fmt_old_login_def by (rule sscanf_lits_fields)
  then show ?thesis
    by (auto simp: Let_def upto_def split: if_splits)
qed

lemma old_login_refused:
  assumes "compares_exactly env" and "tokens_complete E"
  shows "\<exists>w'. old_login E env i line w = Inr ((), w') \<and> ow_srv w' = ow_srv w"
proof (cases "\<exists>nick token. sscanf fmt_old_login line = [nick, token]")
  case True
  then obtain nick token where s: "sscanf fmt_old_login line = [nick, token]" by blast
  obtain r d where st: "sq_step E (ow_db w) SQL_OLD_TOKEN [Sql_text nick] = (r, d)" by fastforce
  have "oe_secure_strcmp env t token \<noteq> 0" if "r = Row cols" "column_text (column cols 0) = Some t" for cols t
    using assms st that sscanf_login_token [OF s]
    by (fastforce simp: TOKEN_LENGTH_def compares_exactly_def tokens_complete_def)
  with s st show ?thesis
    by (auto simp: old_login_def Let_def split: step_result.split option.split)
qed (auto simp: old_login_def split: list.split)

text \<open>
  Nobody can log in to the earlier server: the token that was handed out has 64 characters, the
  login line is read with room for 63, and a comparison that takes only equal strings for equal
  refuses. Whatever a client that is not logged in sends, nobody is logged in by it, and the branch
  after a successful login, which finalizes a statement twice, is never entered.
\<close>

theorem old_login_impossible:
  assumes "compares_exactly env" and "tokens_complete E"
    and "\<not> oc_authorized (old_client w i)"
  shows "case old_command E i (env, line) w of
      Inl e \<Rightarrow> e = Buffer_overflow | Inr (_, w') \<Rightarrow> os_clients (ow_srv w') = os_clients (ow_srv w)"
proof -
  obtain w1 where "old_login E env i line w = Inr ((), w1)" "ow_srv w1 = ow_srv w"
    using old_login_refused [OF assms(1,2)] by blast
  moreover have "case old_register E env i line w of
      Inl e \<Rightarrow> e = Buffer_overflow | Inr (_, w') \<Rightarrow> ow_srv w' = ow_srv w"
    by (auto simp: old_register_def Let_def split: list.split sum.split prod.split bool.split dest: token_v2_fault)
  ultimately show ?thesis
    using assms(3) by (auto simp: old_command_def split: sum.splits)
qed

theorem old_login_impossible_witness:
  "case old_command one_account 0 (demo_old_env, ''/login bob '' @ replicate 64 CHR ''a'') old_demo of
     Inl e \<Rightarrow> e = Buffer_overflow | Inr (_, w') \<Rightarrow> os_clients (ow_srv w') = os_clients (ow_srv old_demo)"
  by (rule old_login_impossible)
    (auto simp: compares_exactly_def tokens_complete_def demo_old_env_def one_account_def column_def TOKEN_LENGTH_def old_demo_def old_slot_def split: if_splits)

end
