(* ===== verification/Old_Crypto.thy ===== *)
theory Old_Crypto
  imports Old_Server_State Signal_Protocol
begin

text \<open>
  The cryptographic wrappers of the earlier server \<^verbatim>\<open>src/src/trash/server2.c\<close>: the callbacks given
  to libsignal (random bytes, HMAC over the EVP_MAC interface, AES-CBC, the stores) and the two one-shot
  encryptions with their caller. As for the current server, each library call is an answer given as an
  argument, and what is acquired and released is recorded in order.
\<close>

section \<open>HMAC\<close>

datatype mac_resource = Mac | Mac_ctx | Wrapper | Digest_array | Result_buffer

datatype mac_event = Acquire mac_resource | Release mac_resource

fun held :: "mac_resource \<Rightarrow> mac_event list \<Rightarrow> int" where
  "held r [] = 0"
| "held r (e # es) = (if e = Acquire r then 1 else if e = Release r then -1 else 0) + held r es"

text \<open>The struct behind the context pointer; of its EVP_MAC context, the key and the bytes taken in so far.\<close>

record hmac_ctx_wrapper =
  hw_key :: "byte list"
  hw_data :: "byte list"

text \<open>Whether each call gives its object or answers non-zero; \<open>mc_final\<close> is the MAC of a key and data.\<close>

record mac_calls =
  mc_fetch :: bool
  mc_ctx_new :: bool
  mc_init :: bool
  mc_malloc :: bool
  mc_digest :: bool
  mc_final :: "byte list \<Rightarrow> byte list \<Rightarrow> byte list option"
  mc_buffer :: bool

definition crypto_random_v2 :: "int \<Rightarrow> int" where
  "crypto_random_v2 rand_ret = (if rand_ret \<noteq> 1 then SG_ERR_UNKNOWN else 0)"

definition crypto_hmac_sha256_init_v2 ::
  "mac_calls \<Rightarrow> byte list \<Rightarrow> int \<times> hmac_ctx_wrapper option \<times> mac_event list" where
  "crypto_hmac_sha256_init_v2 P key =
     (if \<not> mc_fetch P then (SG_ERR_NOMEM, None, [])
      else if \<not> mc_ctx_new P then (SG_ERR_NOMEM, None, [Acquire Mac, Release Mac])
      else let undone = [Acquire Mac, Acquire Mac_ctx, Release Mac_ctx, Release Mac] in
      if \<not> mc_init P then (SG_ERR_UNKNOWN, None, undone)
      else if \<not> mc_malloc P then (SG_ERR_NOMEM, None, undone)
      else (0, Some \<lparr>hw_key = key, hw_data = []\<rparr>, [Acquire Mac, Acquire Mac_ctx, Acquire Wrapper]))"

definition crypto_hmac_sha256_update_v2 :: "bool \<Rightarrow> byte list \<Rightarrow> hmac_ctx_wrapper \<Rightarrow> int \<times> hmac_ctx_wrapper" where
  "crypto_hmac_sha256_update_v2 ok data h =
     (if \<not> ok then (SG_ERR_UNKNOWN, h) else (0, h\<lparr>hw_data := hw_data h @ data\<rparr>))"

definition crypto_hmac_sha256_final_v2 ::
  "mac_calls \<Rightarrow> hmac_ctx_wrapper \<Rightarrow> int \<times> byte list option \<times> mac_event list" where
  "crypto_hmac_sha256_final_v2 P h =
     (if \<not> mc_digest P then (SG_ERR_NOMEM, None, [Release Wrapper])
      else case mc_final P (hw_key h) (hw_data h) of
        None \<Rightarrow> (SG_ERR_UNKNOWN, None, [Acquire Digest_array, Release Digest_array, Release Wrapper])
      | Some md \<Rightarrow>
          if \<not> mc_buffer P
          then (SG_ERR_NOMEM, None, [Acquire Digest_array, Release Digest_array, Release Wrapper])
          else (0, Some md, [Acquire Digest_array, Acquire Result_buffer, Release Digest_array,
                  Release Mac_ctx, Release Mac, Release Wrapper]))"

definition crypto_hmac_sha256_cleanup_v2 :: "mac_event list" where
  "crypto_hmac_sha256_cleanup_v2 = []"

section \<open>One-shot encryption\<close>

text \<open>The nonce comes from the caller here; \<open>ev_nonce\<close> of the answers is not used.\<close>

definition crypto_encrypt_aes_gcm_v2 ::
  "evp \<Rightarrow> byte list \<Rightarrow> byte list \<Rightarrow> byte list \<Rightarrow> int \<times> (byte list \<times> byte list) option \<times> evp_event list" where
  "crypto_encrypt_aes_gcm_v2 P pt key iv =
     (let err = (-1, None, [Ctx_new, Ctx_free]) in
      if \<not> ev_new P then (-1, None, [])
      else if \<not> ev_init P then err
      else if \<not> ev_set_ivlen P then err
      else if \<not> ev_init_key P then err
      else case ev_update P key (take 12 iv) pt of
        None \<Rightarrow> err
      | Some ct1 \<Rightarrow>
          (case ev_final P key (take 12 iv) pt of
             None \<Rightarrow> err
           | Some ct2 \<Rightarrow>
               (case ev_tag P key (take 12 iv) pt of
                  None \<Rightarrow> err
                | Some tag \<Rightarrow>
                    (int (length ct1 + length ct2), Some (ct1 @ ct2, take 16 tag), [Ctx_new, Ctx_free]))))"

text \<open>
  \<open>iv_len\<close> is the length of the initialisation vector that \<^verbatim>\<open>EVP_chacha20()\<close> reads through the
  pointer it is given.
\<close>

definition crypto_encrypt_chacha20_v2 ::
  "nat \<Rightarrow> evp \<Rightarrow> byte list \<Rightarrow> byte list \<Rightarrow> byte list \<Rightarrow> fault + int \<times> byte list option \<times> evp_event list" where
  "crypto_encrypt_chacha20_v2 iv_len P pt key nonce =
     (let err = Inr (-1, None, [Ctx_new, Ctx_free]) in
      if \<not> ev_new P then Inr (-1, None, [])
      else if length nonce < iv_len then Inl Out_of_bounds_read
      else if \<not> ev_init_key P then err
      else case ev_update P key (take iv_len nonce) pt of
        None \<Rightarrow> err
      | Some ct1 \<Rightarrow>
          (case ev_final P key (take iv_len nonce) pt of
             None \<Rightarrow> err
           | Some ct2 \<Rightarrow> Inr (int (length ct1 + length ct2), Some (ct1 @ ct2), [Ctx_new, Ctx_free])))"

text \<open>
  \<open>encrypt_message_multi_algo\<close>: the array for the ciphertext has 64 bytes more than the plaintext, the
  nonce 12 bytes; nonce and tag are local to the function.
\<close>

definition multi_algo_result ::
  "nat \<Rightarrow> int \<times> byte list option \<times> evp_event list \<Rightarrow> fault + int \<times> byte list option \<times> evp_event list" where
  "multi_algo_result room r =
     (case r of (result, ct, ev) \<Rightarrow>
        if room < length (case ct of None \<Rightarrow> [] | Some bs \<Rightarrow> bs) then Inl Buffer_overflow
        else if result > 0 then Inr (result, ct, Buffer_alloc # ev)
        else Inr (-1, None, Buffer_alloc # ev @ [Buffer_free]))"

definition encrypt_message_multi_algo ::
  "nat \<Rightarrow> evp \<Rightarrow> bool \<Rightarrow> byte list \<Rightarrow> client_t \<Rightarrow> string \<Rightarrow> int \<Rightarrow> fault + int \<times> byte list option \<times> evp_event list" where
  "encrypt_message_multi_algo iv_len P malloc_ok iv c plaintext algo_type =
     (let pt = map byte_of plaintext; room = length plaintext + 64 in
      if \<not> malloc_ok then Inr (-1, None, [])
      else if algo_type = 0 then
        multi_algo_result room (apsnd (apfst (map_option fst)) (crypto_encrypt_aes_gcm_v2 P pt (oc_session_key c) iv))
      else if algo_type = 1 then
        (case crypto_encrypt_chacha20_v2 iv_len P pt (oc_chacha_key c) iv of
           Inl e \<Rightarrow> Inl e
         | Inr r \<Rightarrow> multi_algo_result room r)
      else Inr (-1, None, [Buffer_alloc, Buffer_free]))"

section \<open>The callbacks given to libsignal\<close>

text \<open>Unlike the current server, a key of neither 16 nor 32 bytes is refused.\<close>

definition crypto_encrypt_v2 ::
  "cbc_calls \<Rightarrow> byte list \<Rightarrow> byte list \<Rightarrow> byte list \<Rightarrow> fault + int \<times> byte list option \<times> evp_event list" where
  "crypto_encrypt_v2 P key iv plaintext =
     (if \<not> cb_new P then Inr (SG_ERR_NOMEM, None, [])
      else if length key \<noteq> 16 \<and> length key \<noteq> 32 then Inr (SG_ERR_UNKNOWN, None, [Ctx_new, Ctx_free])
      else let cipher = (if length key = 16 then Aes_128_cbc else Aes_256_cbc) in
      if length iv < 16 then Inl Out_of_bounds_read
      else if \<not> cb_init P cipher key iv then Inr (SG_ERR_UNKNOWN, None, [Ctx_new, Ctx_free])
      else let out_len = length plaintext + cb_block P cipher in
      if \<not> cb_alloc1 P then Inr (SG_ERR_NOMEM, None, [Ctx_new, Ctx_free])
      else case cb_update P cipher key iv plaintext of
        None \<Rightarrow> Inr (SG_ERR_UNKNOWN, None, [Ctx_new, Buffer_alloc, Buffer_free, Ctx_free])
      | Some o1 \<Rightarrow>
          if out_len < length o1 then Inl Buffer_overflow
          else case cb_final P cipher key iv plaintext of
            None \<Rightarrow> Inr (SG_ERR_UNKNOWN, None, [Ctx_new, Buffer_alloc, Buffer_free, Ctx_free])
          | Some o2 \<Rightarrow>
              if out_len < length o1 + length o2 then Inl Buffer_overflow
              else if \<not> cb_alloc2 P
              then Inr (SG_ERR_NOMEM, None, [Ctx_new, Buffer_alloc, Buffer_free, Ctx_free])
              else Inr (0, Some (o1 @ o2), [Ctx_new, Buffer_alloc, Buffer_alloc, Buffer_free, Ctx_free]))"

definition crypto_decrypt_v2 ::
  "cbc_calls \<Rightarrow> byte list \<Rightarrow> byte list \<Rightarrow> byte list \<Rightarrow> fault + int \<times> byte list option \<times> evp_event list" where
  "crypto_decrypt_v2 P key iv ciphertext =
     (if \<not> cb_new P then Inr (SG_ERR_NOMEM, None, [])
      else if length key \<noteq> 16 \<and> length key \<noteq> 32 then Inr (SG_ERR_UNKNOWN, None, [Ctx_new, Ctx_free])
      else let cipher = (if length key = 16 then Aes_128_cbc else Aes_256_cbc) in
      if length iv < 16 then Inl Out_of_bounds_read
      else if \<not> cb_init P cipher key iv then Inr (SG_ERR_UNKNOWN, None, [Ctx_new, Ctx_free])
      else let out_len = length ciphertext in
      if \<not> cb_alloc1 P then Inr (SG_ERR_NOMEM, None, [Ctx_new, Ctx_free])
      else case cb_update P cipher key iv ciphertext of
        None \<Rightarrow> Inr (SG_ERR_UNKNOWN, None, [Ctx_new, Buffer_alloc, Buffer_free, Ctx_free])
      | Some o1 \<Rightarrow>
          if out_len < length o1 then Inl Buffer_overflow
          else case cb_final P cipher key iv ciphertext of
            None \<Rightarrow> Inr (SG_ERR_UNKNOWN, None, [Ctx_new, Buffer_alloc, Buffer_free, Ctx_free])
          | Some o2 \<Rightarrow>
              if out_len < length o1 + length o2 then Inl Buffer_overflow
              else if \<not> cb_alloc2 P
              then Inr (SG_ERR_NOMEM, None, [Ctx_new, Buffer_alloc, Buffer_free, Ctx_free])
              else Inr (0, Some (o1 @ o2), [Ctx_new, Buffer_alloc, Buffer_alloc, Buffer_free, Ctx_free]))"

definition setup_signal_crypto_provider_v2 :: "(provider_slot \<times> wrapper) list" where
  "setup_signal_crypto_provider_v2 =
    [(Random, W_random), (Hmac_init, W_hmac_init), (Hmac_update, W_hmac_update), (Hmac_final, W_hmac_final),
     (Hmac_cleanup, W_hmac_cleanup), (Encrypt, W_encrypt), (Decrypt, W_decrypt)]"

text \<open>The identity of the server is a constant pair of byte patterns; the two allocations are arguments.\<close>

definition identity_key_store_get_identity_key_pair ::
  "bool \<Rightarrow> bool \<Rightarrow> int \<times> (byte list \<times> byte list) option \<times> evp_event list" where
  "identity_key_store_get_identity_key_pair pub priv =
     (if \<not> pub \<or> \<not> priv
      then (SG_ERR_NOMEM, None,
            replicate (of_bool pub + of_bool priv) Buffer_alloc @ replicate (of_bool pub + of_bool priv) Buffer_free)
      else (0, Some (replicate 32 0xAA, replicate 32 0xBB), [Buffer_alloc, Buffer_alloc]))"

datatype store_call =
    Get_local_registration_id | Save_identity | Is_trusted_identity
  | Load_session | Get_sub_device_sessions | Store_session | Contains_session | Delete_session
  | Delete_all_sessions
  | Load_pre_key | Store_pre_key | Contains_pre_key | Remove_pre_key
  | Load_signed_pre_key | Store_signed_pre_key | Contains_signed_pre_key | Remove_signed_pre_key

text \<open>What the store callbacks return; none of them writes its output but the one for the registration id.\<close>

definition store_callback_v2 :: "store_call \<Rightarrow> int \<times> uint32 option" where
  "store_callback_v2 call =
     (case call of
        Get_local_registration_id \<Rightarrow> (0, Some 1)
      | Is_trusted_identity \<Rightarrow> (1, None)
      | _ \<Rightarrow> (0, None))"

text \<open>
  \<open>signal_protocol_init\<close>: \<open>ctx\<close> is the context that \<^verbatim>\<open>signal_context_create\<close> gave when it answered 0,
  \<open>keys\<close> whether a key pair could be generated and what the pointer to it holds.
\<close>

definition signal_protocol_init ::
  "nat option \<Rightarrow> bool \<times> bool \<Rightarrow> server_state_t \<Rightarrow> bool \<times> server_state_t \<times> signal_event list" where
  "signal_protocol_init ctx keys s =
     (case ctx of
        None \<Rightarrow> (False, s, [])
      | Some c \<Rightarrow>
          if \<not> fst keys then (False, s\<lparr>os_global_ctx := None\<rparr>, [Context_new c, Provider_set, Context_free c])
          else (True, s\<lparr>os_global_ctx := Some c\<rparr>,
                [Context_new c, Provider_set] @ (if snd keys then [Key_pair_new, Key_pair_unref] else [])))"

section \<open>What the properties speak of\<close>

text \<open>One MAC as libsignal computes it: start, take in the pieces until one fails, finish, clean up.\<close>

fun hmac_updates :: "(bool \<times> byte list) list \<Rightarrow> hmac_ctx_wrapper \<Rightarrow> int \<times> hmac_ctx_wrapper" where
  "hmac_updates [] h = (0, h)"
| "hmac_updates ((ok, data) # us) h =
     (let (r, h') = crypto_hmac_sha256_update_v2 ok data h in if r \<noteq> 0 then (r, h') else hmac_updates us h')"

definition hmac_session ::
  "mac_calls \<Rightarrow> byte list \<Rightarrow> (bool \<times> byte list) list \<Rightarrow> int \<times> byte list option \<times> mac_event list" where
  "hmac_session P key us =
     (case crypto_hmac_sha256_init_v2 P key of
        (r, None, ev) \<Rightarrow> (r, None, ev)
      | (r, Some h, ev) \<Rightarrow>
          let (r1, h1) = hmac_updates us h in
          if r1 \<noteq> 0 then (r1, None, ev @ crypto_hmac_sha256_cleanup_v2)
          else let (r2, md, ev2) = crypto_hmac_sha256_final_v2 P h1
               in (r2, md, ev @ ev2 @ crypto_hmac_sha256_cleanup_v2))"

definition mac_starts :: "mac_calls \<Rightarrow> bool" where
  "mac_starts P = (mc_fetch P \<and> mc_ctx_new P \<and> mc_init P \<and> mc_malloc P)"

text \<open>A stream cipher as GCM and ChaCha20 are: output as long as the input, nothing more at the end.\<close>

definition stream_cipher :: "evp \<Rightarrow> bool" where
  "stream_cipher P = (\<forall>k v p. (\<exists>ct. ev_update P k v p = Some ct \<and> length ct = length p) \<and> ev_final P k v p = Some [])"

definition demo_evp :: evp where
  "demo_evp = \<lparr>ev_new = True, ev_init = True, ev_set_ivlen = True, ev_nonce = [], ev_init_key = True,
     ev_update = (\<lambda>k v p. Some p), ev_final = (\<lambda>_ _ _. Some []), ev_tag = (\<lambda>_ _ _. Some (zeros 16))\<rparr>"

section \<open>Lemmas\<close>

lemma held_append [simp]: "held r (es @ fs) = held r es + held r fs"
  by (induction es) auto

lemma hmac_updates_result:
  "hmac_updates us h = (r, h') \<Longrightarrow>
   (r = 0 \<longleftrightarrow> list_all fst us) \<and> (r = 0 \<longrightarrow> h' = h\<lparr>hw_data := hw_data h @ concat (map snd us)\<rparr>)"
proof (induction us arbitrary: h)
  case (Cons u us)
  obtain ok data where u: "u = (ok, data)" by fastforce
  with Cons.prems Cons.IH [of "h\<lparr>hw_data := hw_data h @ data\<rparr>"] show ?case
    by (cases ok) (auto simp: crypto_hmac_sha256_update_v2_def)
qed simp

lemma final_v2_result:
  "crypto_hmac_sha256_final_v2 P h = (r, md, ev) \<Longrightarrow>
   md = (if r = 0 then mc_final P (hw_key h) (hw_data h) else None) \<and> (r = 0 \<longrightarrow> md \<noteq> None) \<and>
   held Mac ev = - of_bool (r = 0) \<and> held Mac_ctx ev = - of_bool (r = 0) \<and>
   held Wrapper ev = -1 \<and> held Digest_array ev = 0 \<and> held Result_buffer ev = of_bool (r = 0)"
  by (cases "mc_final P (hw_key h) (hw_data h)") (auto simp: crypto_hmac_sha256_final_v2_def split: if_splits dest!: sym [of "Some _"])

section \<open>Properties\<close>

text \<open>
  The HMAC callbacks of the earlier server are right when they succeed and leak when they fail late: a
  session that returns 0 gives the MAC of the key and of all the pieces put together, however they were
  split, and keeps nothing but the result; but once the session has started, every failure leaves the MAC
  and its context allocated, because the last callback frees only the wrapper that points to them and the
  clean-up callback is empty.
\<close>

theorem hmac_session_outcome:
  "case hmac_session P key us of (r, md, ev) \<Rightarrow>
     md = (if r = 0 then mc_final P key (concat (map snd us)) else None) \<and> (md \<noteq> None \<longleftrightarrow> r = 0) \<and>
     held Mac ev = (if mac_starts P \<and> r \<noteq> 0 then 1 else 0) \<and>
     held Mac_ctx ev = (if mac_starts P \<and> r \<noteq> 0 then 1 else 0) \<and>
     held Wrapper ev = (if mac_starts P \<and> \<not> list_all fst us then 1 else 0) \<and>
     held Digest_array ev = 0 \<and> held Result_buffer ev = of_bool (r = 0)"
proof (cases "mac_starts P")
  case False
  then show ?thesis
    by (auto simp: hmac_session_def crypto_hmac_sha256_init_v2_def mac_starts_def Let_def)
next
  case True
  obtain r1 h1 where u: "hmac_updates us \<lparr>hw_key = key, hw_data = []\<rparr> = (r1, h1)" by fastforce
  obtain r2 md ev2 where f: "crypto_hmac_sha256_final_v2 P h1 = (r2, md, ev2)" by (metis prod_cases3)
  have "hmac_session P key us =
      (if r1 \<noteq> 0 then (r1, None, [Acquire Mac, Acquire Mac_ctx, Acquire Wrapper])
       else (r2, md, [Acquire Mac, Acquire Mac_ctx, Acquire Wrapper] @ ev2))"
    using True by (simp add: hmac_session_def crypto_hmac_sha256_init_v2_def mac_starts_def
        crypto_hmac_sha256_cleanup_v2_def u f)
  then show ?thesis
    using True hmac_updates_result [OF u] final_v2_result [OF f] by (cases "r1 = 0") auto
qed

text \<open>
  The AES-CBC callbacks of the two servers agree where both accept the key: with a key of 16 or 32 bytes the earlier
  callback returns what the current one returns, releases the same objects and faults in the same cases; any other key
  the earlier one refuses, releasing its context, where the current one goes on with AES-128 and, for a key of less
  than 16 bytes, reads past its end.
\<close>

theorem cbc_callbacks_agree:
  "crypto_encrypt_v2 P key iv pt =
     (if cb_new P \<and> length key \<notin> {16, 32} then Inr (SG_ERR_UNKNOWN, None, [Ctx_new, Ctx_free])
      else crypto_encrypt P key iv pt) \<and>
   crypto_decrypt_v2 P key iv ct =
     (if cb_new P \<and> length key \<notin> {16, 32} then Inr (SG_ERR_UNKNOWN, None, [Ctx_new, Ctx_free])
      else crypto_decrypt P key iv ct) \<and>
   (cb_new P \<and> length key < 16 \<longrightarrow>
      crypto_encrypt P key iv pt = Inl Out_of_bounds_read \<and> crypto_decrypt P key iv ct = Inl Out_of_bounds_read)"
proof (intro conjI impI)
  show "crypto_encrypt_v2 P key iv pt =
     (if cb_new P \<and> length key \<notin> {16, 32} then Inr (SG_ERR_UNKNOWN, None, [Ctx_new, Ctx_free])
      else crypto_encrypt P key iv pt)"
    by (auto simp: crypto_encrypt_v2_def crypto_encrypt_def select_cipher_def Let_def split: option.splits)
  show "crypto_decrypt_v2 P key iv ct =
     (if cb_new P \<and> length key \<notin> {16, 32} then Inr (SG_ERR_UNKNOWN, None, [Ctx_new, Ctx_free])
      else crypto_decrypt P key iv ct)"
    by (auto simp: crypto_decrypt_v2_def crypto_decrypt_def select_cipher_def Let_def split: option.splits)
qed (auto simp: crypto_encrypt_def crypto_decrypt_def select_cipher_def Let_def)

theorem cbc_callbacks_agree_witness:
  "crypto_encrypt_v2 mark_enc (zeros 24) (zeros 16) [1, 2, 3] = Inr (SG_ERR_UNKNOWN, None, [Ctx_new, Ctx_free]) \<and>
   crypto_encrypt_v2 mark_enc (zeros 32) (zeros 16) [1, 2, 3] = crypto_encrypt mark_enc (zeros 32) (zeros 16) [1, 2, 3] \<and>
   crypto_encrypt mark_enc [7] (zeros 16) [1, 2, 3] = Inl Out_of_bounds_read"
  using cbc_callbacks_agree [of mark_enc "zeros 24" "zeros 16" "[1, 2, 3]" "[]"]
    cbc_callbacks_agree [of mark_enc "zeros 32" "zeros 16" "[1, 2, 3]" "[]"]
    cbc_callbacks_agree [of mark_enc "[7]" "zeros 16" "[1, 2, 3]" "[]"]
  by (simp add: mark_enc_def)

text \<open>
  \<open>encrypt_message_multi_algo\<close> on a nonce of 12 bytes: AES-GCM never overruns its array, gives a
  ciphertext as long as the message or returns -1 with the array freed (always for an empty message);
  ChaCha20, which reads an initialisation vector of 16 bytes, reads past the end of the nonce; any other
  algorithm number returns -1 with the array freed.
\<close>

theorem multi_algo_outcomes:
  assumes "stream_cipher P" "length iv = 12" "ev_new P" "algo \<noteq> 0" "algo \<noteq> 1"
  shows "(\<exists>r ct ev. encrypt_message_multi_algo 16 P True iv c m 0 = Inr (r, ct, ev) \<and>
      live_contexts ev = 0 \<and> live_buffers ev = of_bool (r > 0) \<and>
      (if r > 0 then r = int (length m) \<and> map_option length ct = Some (length m) else r = -1 \<and> ct = None) \<and>
      (m = [] \<longrightarrow> r = -1)) \<and>
    encrypt_message_multi_algo 16 P True iv c m 1 = Inl Out_of_bounds_read \<and>
    encrypt_message_multi_algo 16 P True iv c m algo = Inr (-1, None, [Buffer_alloc, Buffer_free])"
proof (intro conjI)
  show "encrypt_message_multi_algo 16 P True iv c m 1 = Inl Out_of_bounds_read"
    "encrypt_message_multi_algo 16 P True iv c m algo = Inr (-1, None, [Buffer_alloc, Buffer_free])"
    using assms by (simp_all add: encrypt_message_multi_algo_def crypto_encrypt_chacha20_v2_def)
  let ?pt = "map byte_of m"
  obtain ct where ct: "ev_update P (oc_session_key c) iv ?pt = Some ct" "length ct = length m"
    "ev_final P (oc_session_key c) iv ?pt = Some []"
    using assms(1) unfolding stream_cipher_def by (metis length_map)
  show "\<exists>r ct ev. encrypt_message_multi_algo 16 P True iv c m 0 = Inr (r, ct, ev) \<and>
      live_contexts ev = 0 \<and> live_buffers ev = of_bool (r > 0) \<and>
      (if r > 0 then r = int (length m) \<and> map_option length ct = Some (length m) else r = -1 \<and> ct = None) \<and>
      (m = [] \<longrightarrow> r = -1)"
    using ct assms(2)
    by (cases "ev_tag P (oc_session_key c) iv ?pt")
       (auto simp: encrypt_message_multi_algo_def multi_algo_result_def crypto_encrypt_aes_gcm_v2_def Let_def)
qed

theorem multi_algo_outcomes_witness:
  "encrypt_message_multi_algo 16 demo_evp True (zeros 12) old_slot ''hi'' 1 = Inl Out_of_bounds_read \<and>
   encrypt_message_multi_algo 16 demo_evp True (zeros 12) old_slot ''hi'' 2 = Inr (-1, None, [Buffer_alloc, Buffer_free])"
  using multi_algo_outcomes [of demo_evp "zeros 12" 2 old_slot "''hi''"]
  by (simp add: stream_cipher_def demo_evp_def)

end
