(* ===== verification/Old_Lifecycle.thy ===== *)
theory Old_Lifecycle
  imports Old_Server Old_Crypto Server_Lifecycle
begin

text \<open>
  The life of the earlier server \<^verbatim>\<open>src/src/trash/server2.c\<close> as a process: opening the database, the
  start-up of \<open>start_mesh_server\<close> with every way it can fail, its main loop, the monitor thread with its
  database check, stopping and cleaning up. What the other threads do between two rounds of the main loop
  is a function of the round; creating the monitor thread and destroying the mutex leave no trace.
\<close>

section \<open>The database\<close>

definition old_settings :: "string list" where
  "old_settings =
    [''PRAGMA journal_mode=WAL;'', ''PRAGMA synchronous=NORMAL;'', ''PRAGMA cache_size=10000;'',
     ''PRAGMA temp_store=MEMORY;'', ''PRAGMA mmap_size=268435456;'', ''PRAGMA secure_delete=ON;'']"

definition old_schema :: "string list" where
  "old_schema =
    [''CREATE TABLE IF NOT EXISTS users (id INTEGER PRIMARY KEY AUTOINCREMENT, nick TEXT UNIQUE NOT NULL, token TEXT UNIQUE NOT NULL, registration_id INTEGER, ip_address TEXT, created_at DATETIME DEFAULT CURRENT_TIMESTAMP, last_login DATETIME NULL)'',
     ''CREATE TABLE IF NOT EXISTS messages (id INTEGER PRIMARY KEY AUTOINCREMENT, from_user TEXT NOT NULL, to_user TEXT, message_text TEXT NOT NULL, encrypted INTEGER DEFAULT 0, created_at DATETIME DEFAULT CURRENT_TIMESTAMP)'',
     ''CREATE TABLE IF NOT EXISTS ip_limits (id INTEGER PRIMARY KEY AUTOINCREMENT, ip_address TEXT NOT NULL, connection_count INTEGER DEFAULT 0, last_attempt DATETIME DEFAULT CURRENT_TIMESTAMP)'',
     ''CREATE TABLE IF NOT EXISTS signal_sessions (id INTEGER PRIMARY KEY AUTOINCREMENT, user_nick TEXT NOT NULL, device_id INTEGER, record BLOB, created_at DATETIME DEFAULT CURRENT_TIMESTAMP)'',
     ''CREATE TABLE IF NOT EXISTS signal_pre_keys (id INTEGER PRIMARY KEY AUTOINCREMENT, user_nick TEXT NOT NULL, pre_key_id INTEGER, record BLOB, created_at DATETIME DEFAULT CURRENT_TIMESTAMP)'',
     ''CREATE TABLE IF NOT EXISTS signal_signed_pre_keys (id INTEGER PRIMARY KEY AUTOINCREMENT, user_nick TEXT NOT NULL, signed_pre_key_id INTEGER, record BLOB, created_at DATETIME DEFAULT CURRENT_TIMESTAMP)'',
     ''CREATE TABLE IF NOT EXISTS signal_identity_keys (id INTEGER PRIMARY KEY AUTOINCREMENT, user_nick TEXT NOT NULL, name TEXT NOT NULL, key_data BLOB, created_at DATETIME DEFAULT CURRENT_TIMESTAMP)'',
     ''CREATE TABLE IF NOT EXISTS p2p_peers (id INTEGER PRIMARY KEY AUTOINCREMENT, peer_id TEXT UNIQUE NOT NULL, public_key TEXT, ip_address TEXT, port INTEGER, last_seen DATETIME DEFAULT CURRENT_TIMESTAMP)'',
     ''CREATE TABLE IF NOT EXISTS p2p_connections (id INTEGER PRIMARY KEY AUTOINCREMENT, peer1_id TEXT NOT NULL, peer2_id TEXT NOT NULL, connection_key TEXT, established_at DATETIME DEFAULT CURRENT_TIMESTAMP)'']"

definition old_indexes :: "string list" where
  "old_indexes =
    [''CREATE INDEX IF NOT EXISTS idx_users_nick ON users(nick)'',
     ''CREATE INDEX IF NOT EXISTS idx_users_token ON users(token)'',
     ''CREATE INDEX IF NOT EXISTS idx_messages_from ON messages(from_user)'',
     ''CREATE INDEX IF NOT EXISTS idx_messages_to ON messages(to_user)'',
     ''CREATE INDEX IF NOT EXISTS idx_messages_created ON messages(created_at)'',
     ''CREATE INDEX IF NOT EXISTS idx_ip_limits_ip ON ip_limits(ip_address)'',
     ''CREATE INDEX IF NOT EXISTS idx_signal_sessions_user ON signal_sessions(user_nick)'',
     ''CREATE INDEX IF NOT EXISTS idx_signal_pre_keys_user ON signal_pre_keys(user_nick)'',
     ''CREATE INDEX IF NOT EXISTS idx_signal_signed_pre_keys_user ON signal_signed_pre_keys(user_nick)'',
     ''CREATE INDEX IF NOT EXISTS idx_signal_identity_keys_user ON signal_identity_keys(user_nick)'',
     ''CREATE INDEX IF NOT EXISTS idx_p2p_peers_id ON p2p_peers(peer_id)'',
     ''CREATE INDEX IF NOT EXISTS idx_p2p_connections_peer ON p2p_connections(peer1_id, peer2_id)'']"

text \<open>
  \<open>opened\<close>: the handle and whether \<^verbatim>\<open>sqlite3_open\<close> answered \<^verbatim>\<open>SQLITE_OK\<close>. The settings
  are sent before the answer is looked at; on a connection that did not open they change nothing. A failing
  table or index is only reported, as in \<open>exec_settings\<close>.
\<close>

definition init_database_v2 :: "'db sqlite \<Rightarrow> nat \<times> bool \<Rightarrow> 'db old_world \<Rightarrow> bool \<times> 'db old_world" where
  "init_database_v2 E opened w =
     (let w1 = w\<lparr>ow_srv := (ow_srv w)\<lparr>os_db := Some (fst opened)\<rparr>\<rparr> in
      if \<not> snd opened then (False, w1)
      else (True, old_set_db (exec_settings E (old_settings @ old_schema @ old_indexes) (ow_db w1)) w1))"

section \<open>Start-up\<close>

text \<open>\<^verbatim>\<open>memset(&server, 0, sizeof(server))\<close>; the Signal context is a variable of its own.\<close>

definition cleared_server :: "nat option \<Rightarrow> server_state_t" where
  "cleared_server global_ctx = \<lparr>os_clients = [], os_max_clients = 0, os_locked = False, os_ssl_ctx = None, os_db = None,
     os_running = False, os_config = \<lparr>og_db_path = nuls 256, og_max_connections_per_ip = 0, og_enable_ratelimit = 0,
       og_enable_tor_proxy = 0, og_enable_ip_spoofing = 0, og_enable_obfuscation = 0, og_encryption_mode = 0\<rparr>,
     os_epoll_fd = 0, os_p2p = \<lparr>on_peers = [], on_peer_count = 0, on_max_peers = 0, on_dht_port = 0,
       on_is_super_node = 0\<rparr>, os_aes_ctx = None, os_chacha_ctx = None, os_global_ctx = global_ctx\<rparr>"

text \<open>\<open>None\<close>: \<^verbatim>\<open>exit(1)\<close>. The settings are the ones the current server has.\<close>

definition setup_ssl_context_v2 :: "nat option \<Rightarrow> 'db old_world \<Rightarrow> (tls_settings \<times> 'db old_world) option" where
  "setup_ssl_context_v2 ctx w =
     (case ctx of None \<Rightarrow> None
      | Some h \<Rightarrow> Some (secure_tls, w\<lparr>ow_srv := (ow_srv w)\<lparr>os_ssl_ctx := Some h\<rparr>\<rparr>))"

definition setup_epoll :: "int \<Rightarrow> 'db old_world \<Rightarrow> int \<times> 'db old_world" where
  "setup_epoll fd w = (if fd = -1 then -1 else 0, w\<lparr>ow_srv := (ow_srv w)\<lparr>os_epoll_fd := fd\<rparr>\<rparr>)"

record mesh_env =
  me_mutex :: bool
  me_calloc :: bool
  me_ssl_ctx :: "nat option"
  me_signal_ctx :: "nat option"
  me_signal_keys :: "bool \<times> bool"
  me_db :: "nat \<times> bool"
  me_socket :: int
  me_bind :: int
  me_listen :: int
  me_epoll :: int
  me_epoll_ctl :: int

datatype 'db mesh_result = Mesh_exit int | Mesh_returns int "'db old_world" | Mesh_stuck fault | Mesh_running

text \<open>A failing start: close what is given, \<open>cleanup_resources()\<close>, return 1.\<close>

definition abort_start :: "event list \<Rightarrow> 'db old_world \<Rightarrow> 'db mesh_result" where
  "abort_start es w =
     (case cleanup_resources (old_emit es w) of Inl e \<Rightarrow> Mesh_stuck e | Inr w' \<Rightarrow> Mesh_returns 1 w')"

text \<open>The state up to the allocation of the clients, and with them.\<close>

definition mesh_init :: "'db old_world \<Rightarrow> 'db old_world" where
  "mesh_init w = w\<lparr>ow_srv := (cleared_server (os_global_ctx (ow_srv w)))
     \<lparr>os_running := True, os_max_clients := MAX_CLIENTS, os_config := load_config, os_p2p := init_p2p_network_v2\<rparr>\<rparr>"

definition mesh_clients :: "'db old_world \<Rightarrow> 'db old_world" where
  "mesh_clients w = w\<lparr>ow_srv := (ow_srv w)\<lparr>os_clients := replicate MAX_CLIENTS old_slot\<rparr>\<rparr>"

definition mesh_listen :: "mesh_env \<Rightarrow> 'db old_world \<Rightarrow> 'db mesh_result + int \<times> 'db old_world" where
  "mesh_listen env w =
     (let fd = me_socket env in
      if fd < 0 then Inl (abort_start [] w)
      else if me_bind env < 0 then Inl (abort_start [Close_fd fd] w)
      else if me_listen env < 0 then Inl (abort_start [Close_fd fd] w)
      else let (r, w1) = setup_epoll (me_epoll env) w in
      if r = -1 then Inl (abort_start [Close_fd fd] w1)
      else if me_epoll_ctl env = -1 then Inl (abort_start [Close_fd fd] w1)
      else Inr (fd, w1))"

definition mesh_setup :: "'db sqlite \<Rightarrow> mesh_env \<Rightarrow> 'db old_world \<Rightarrow> 'db mesh_result + int \<times> 'db old_world" where
  "mesh_setup E env w =
     (let w1 = mesh_init w in
      if \<not> me_mutex env then Inl (Mesh_returns 1 (w\<lparr>ow_srv := (ow_srv w1)\<lparr>os_p2p := os_p2p (cleared_server None)\<rparr>\<rparr>))
      else if \<not> me_calloc env then Inl (Mesh_returns 1 w1)
      else case setup_ssl_context_v2 (me_ssl_ctx env) (mesh_clients w1) of
        None \<Rightarrow> Inl (Mesh_exit 1)
      | Some (_, w2) \<Rightarrow>
          let (ok, s3, _) = signal_protocol_init (me_signal_ctx env) (me_signal_keys env) (ow_srv w2);
              w3 = w2\<lparr>ow_srv := s3\<rparr> in
          if \<not> ok then Inl (abort_start [] w3)
          else let (ok', w4) = init_database_v2 E (me_db env) w3 in
          if \<not> ok' then Inl (abort_start [] w4)
          else mesh_listen env w4)"

section \<open>Running and stopping\<close>

definition stop_mesh_server :: "'db old_world \<Rightarrow> 'db old_world" where
  "stop_mesh_server w = w\<lparr>ow_srv := (ow_srv w)\<lparr>os_running := False\<rparr>\<rparr>"

definition is_server_running :: "'db old_world \<Rightarrow> bool" where
  "is_server_running w = os_running (ow_srv w)"

text \<open>A round: what other threads did meanwhile, then what \<^verbatim>\<open>epoll_wait\<close> answers.\<close>

datatype wait_result = Interrupted | Wait_failed | Ready "(int \<times> old_connection) list"

record 'db mesh_round =
  mr_others :: "'db old_world \<Rightarrow> 'db old_world"
  mr_wait :: wait_result

fun accept_ready :: "int \<Rightarrow> (int \<times> old_connection) list \<Rightarrow> 'db old_world \<Rightarrow> fault + unit \<times> 'db old_world" where
  "accept_ready server_fd [] w = Inr ((), w)"
| "accept_ready server_fd ((fd, k) # es) w =
     (if fd = server_fd then and_then (accept_client k w) (\<lambda>(_, w'). accept_ready server_fd es w')
      else accept_ready server_fd es w)"

fun mesh_loop :: "int \<Rightarrow> 'db mesh_round list \<Rightarrow> 'db old_world \<Rightarrow> (fault + 'db old_world) option" where
  "mesh_loop server_fd [] w = (if is_server_running w then None else Some (Inr w))"
| "mesh_loop server_fd (r # rs) w =
     (if \<not> is_server_running w then Some (Inr w)
      else let w1 = mr_others r w in
      case mr_wait r of
        Interrupted \<Rightarrow> mesh_loop server_fd rs w1
      | Wait_failed \<Rightarrow> Some (Inr w1)
      | Ready es \<Rightarrow>
          (case accept_ready server_fd es w1 of Inl e \<Rightarrow> Some (Inl e) | Inr (_, w2) \<Rightarrow> mesh_loop server_fd rs w2))"

definition start_mesh_server :: "'db sqlite \<Rightarrow> mesh_env \<Rightarrow> 'db mesh_round list \<Rightarrow> 'db old_world \<Rightarrow> 'db mesh_result" where
  "start_mesh_server E env rounds w =
     (case mesh_setup E env w of
        Inl r \<Rightarrow> r
      | Inr (fd, w1) \<Rightarrow>
          (case mesh_loop fd rounds w1 of
             None \<Rightarrow> Mesh_running
           | Some (Inl e) \<Rightarrow> Mesh_stuck e
           | Some (Inr w2) \<Rightarrow>
               (case cleanup_resources (old_emit [Close_fd fd] w2) of
                  Inl e \<Rightarrow> Mesh_stuck e
                | Inr w3 \<Rightarrow> Mesh_returns 0 w3)))"

section \<open>The monitor thread\<close>

definition SQL_ALIVE :: string where
  "SQL_ALIVE = ''SELECT 1''"

text \<open>One round after its sleep; \<open>opened\<close> is what \<^verbatim>\<open>sqlite3_open\<close> answers if it is called.\<close>

definition monitor_round :: "'db sqlite \<Rightarrow> time_t \<Rightarrow> nat \<times> bool \<Rightarrow> 'db old_world \<Rightarrow> fault + 'db old_world" where
  "monitor_round E now opened w =
     and_then (monitor_sweep now w) (\<lambda>(_, w1).
       Inr (case os_db (ow_srv w1) of
              None \<Rightarrow> w1
            | Some h \<Rightarrow>
                if \<not> sq_prepare E (ow_db w1) SQL_ALIVE
                then snd (init_database_v2 E opened (old_emit [Db_close h] w1)) else w1))"

fun monitor_thread :: "'db sqlite \<Rightarrow> (('db old_world \<Rightarrow> 'db old_world) \<times> time_t \<times> nat \<times> bool) list \<Rightarrow>
    'db old_world \<Rightarrow> (fault + 'db old_world) option" where
  "monitor_thread E [] w = (if is_server_running w then None else Some (Inr w))"
| "monitor_thread E ((others, now, opened) # rs) w =
     (if \<not> is_server_running w then Some (Inr w)
      else case monitor_round E now opened (others w) of
        Inl e \<Rightarrow> Some (Inl e)
      | Inr w' \<Rightarrow> monitor_thread E rs w')"

section \<open>What the properties speak of\<close>

definition some_open :: "'db old_world \<Rightarrow> bool" where
  "some_open w = list_ex (\<lambda>c. oc_fd c \<ge> 0) (take (os_max_clients (ow_srv w)) (os_clients (ow_srv w)))"

text \<open>The mutex is free and the array of clients is there.\<close>

definition at_rest :: "'db old_world \<Rightarrow> bool" where
  "at_rest w = (\<not> locked w \<and> length (os_clients (ow_srv w)) = MAX_CLIENTS \<and> os_max_clients (ow_srv w) = MAX_CLIENTS)"

definition orderly :: "'db mesh_round \<Rightarrow> bool" where
  "orderly r = (\<forall>w. at_rest w \<longrightarrow> at_rest (mr_others r w))"

text \<open>The part of start-up that fails before \<open>setup_epoll\<close>, after the TLS context was made.\<close>

definition fails_early :: "mesh_env \<Rightarrow> bool" where
  "fails_early env = (me_signal_ctx env = None \<or> \<not> fst (me_signal_keys env) \<or> \<not> snd (me_db env) \<or>
     me_socket env < 0 \<or> me_bind env < 0 \<or> me_listen env < 0)"

definition fails_late :: "mesh_env \<Rightarrow> bool" where
  "fails_late env = (me_epoll env = -1 \<or> me_epoll_ctl env = -1)"

definition new_events :: "'db old_world \<Rightarrow> 'db old_world \<Rightarrow> event list" where
  "new_events w w' = drop (length (ow_trace w)) (ow_trace w')"

definition demo_mesh_env :: mesh_env where
  "demo_mesh_env = \<lparr>me_mutex = True, me_calloc = True, me_ssl_ctx = Some 1, me_signal_ctx = Some 2,
     me_signal_keys = (True, True), me_db = (3, True), me_socket = 5, me_bind = 0, me_listen = 0, me_epoll = 6,
     me_epoll_ctl = 0\<rparr>"

text \<open>The server after start-up as far as it got: the TLS context, free slots, and the epoll descriptor.\<close>

definition started :: "nat \<Rightarrow> int \<Rightarrow> 'db old_world \<Rightarrow> 'db old_world \<Rightarrow> bool" where
  "started h epoll w v = (os_clients (ow_srv v) = replicate MAX_CLIENTS old_slot \<and>
     os_max_clients (ow_srv v) = MAX_CLIENTS \<and> \<not> locked v \<and> is_server_running v \<and>
     os_ssl_ctx (ow_srv v) = Some h \<and> os_epoll_fd (ow_srv v) = epoll \<and> ow_trace v = ow_trace w)"

text \<open>A client connects, then the server is stopped.\<close>

definition demo_rounds :: "unit mesh_round list" where
  "demo_rounds = [\<lparr>mr_others = id, mr_wait = Ready [(5, demo_old_connection)]\<rparr>,
     \<lparr>mr_others = stop_mesh_server, mr_wait = Interrupted\<rparr>]"

section \<open>Lemmas\<close>

lemma cleanup_at_rest:
  assumes "at_rest w"
  shows "cleanup_resources w =
    (if some_open w then Inl Self_deadlock
     else Inr (old_emit (old_shutdown_events ((ow_srv w)\<lparr>os_running := False\<rparr>))
       (w\<lparr>ow_srv := (ow_srv w)\<lparr>os_running := False, os_clients := [], os_global_ctx := None\<rparr>\<rparr>)))"
  using assms with_mutex_sweep [of "w\<lparr>ow_srv := (ow_srv w)\<lparr>os_running := False\<rparr>\<rparr>" "\<lambda>_. True"]
  by (simp add: cleanup_resources_def and_then_def at_rest_def some_open_def)

lemma accept_at_rest:
  assumes "at_rest w" "accept_client k w = Inr (r, w')"
  shows "at_rest w' \<and> is_server_running w' = is_server_running w"
  using assms
  by (auto simp: accept_client_def and_then_def with_mutex_def at_rest_def is_server_running_def old_set_client_def
      set_lock_def split: if_splits option.splits)

lemma accept_returns: "\<not> locked w \<Longrightarrow> \<exists>r w'. accept_client k w = Inr (r, w')"
  by (auto simp: accept_client_def and_then_def with_mutex_def split: option.splits)

lemma accept_ready_at_rest:
  "at_rest w \<Longrightarrow> \<exists>w'. accept_ready fd es w = Inr ((), w') \<and> at_rest w' \<and> is_server_running w' = is_server_running w"
proof (induction fd es w rule: accept_ready.induct)
  case (2 server_fd fd k es w)
  then have "\<not> locked w" by (simp add: at_rest_def)
  then obtain r w1 where a: "accept_client k w = Inr (r, w1)" using accept_returns by blast
  with 2 accept_at_rest [OF _ a] show ?case by (auto simp: and_then_def)
qed simp

lemma mesh_loop_ends:
  "list_ex (\<lambda>r. mr_others r = stop_mesh_server) rounds \<Longrightarrow> list_all orderly rounds \<Longrightarrow> at_rest w \<Longrightarrow>
   \<exists>w'. mesh_loop fd rounds w = Some (Inr w') \<and> at_rest w'"
proof (induction rounds arbitrary: w)
  case (Cons r rs)
  let ?w = "mr_others r w"
  have rest: "at_rest ?w" using Cons.prems by (simp add: orderly_def)
  have step: "\<exists>w'. mesh_loop fd rs v = Some (Inr w') \<and> at_rest w'"
    if v: "at_rest v" "is_server_running v = is_server_running ?w" for v
  proof (cases "mr_others r = stop_mesh_server")
    case True
    then have "\<not> is_server_running v" using v(2) by (simp add: is_server_running_def stop_mesh_server_def)
    then show ?thesis using v(1) by (cases rs) simp_all
  next
    case False
    with Cons v(1) show ?thesis by simp
  qed
  show ?case
  proof (cases "mr_wait r")
    case (Ready es)
    with accept_ready_at_rest [OF rest, of fd es] step Cons.prems show ?thesis by auto
  qed (use rest step Cons.prems in auto)
qed simp

lemma signal_init_ok:
  "signal_protocol_init ctx keys s = (ok, s', ev) \<Longrightarrow>
   (ok \<longleftrightarrow> ctx \<noteq> None \<and> fst keys) \<and> s' = s\<lparr>os_global_ctx := os_global_ctx s'\<rparr>"
  by (auto simp: signal_protocol_init_def split: option.splits if_splits)

lemma init_database_v2_ok:
  "init_database_v2 E opened w = (ok, w') \<Longrightarrow>
   ok = snd opened \<and> ow_srv w' = (ow_srv w)\<lparr>os_db := Some (fst opened)\<rparr> \<and> ow_trace w' = ow_trace w"
  by (auto simp: init_database_v2_def Let_def old_set_db_def split: if_splits)

lemma started_at_rest: "started h epoll w v \<Longrightarrow> at_rest v \<and> \<not> some_open v \<and> is_server_running v"
  by (auto simp: started_def at_rest_def some_open_def list_ex_iff old_slot_def)

lemma abort_started:
  assumes "started h epoll w v"
  shows "\<exists>w'. abort_start es v = Mesh_returns 1 w' \<and> \<not> is_server_running w' \<and>
    new_events w w' = es @ old_shutdown_events ((ow_srv v)\<lparr>os_running := False\<rparr>) \<and>
    {Ssl_ctx_free h} \<union> (if 0 \<le> epoll then {Close_fd epoll} else {}) \<subseteq> set (new_events w w')"
proof -
  have rest: "at_rest (old_emit es v)" "\<not> some_open (old_emit es v)"
    using started_at_rest [OF assms] by (auto simp: at_rest_def some_open_def)
  show ?thesis
    using assms rest(2) unfolding abort_start_def cleanup_at_rest [OF rest(1)]
    by (auto simp: started_def old_emit_def new_events_def is_server_running_def old_shutdown_events_def)
qed

lemma mesh_listen_outcome:
  assumes "started h 0 w v"
  shows "if me_socket env < 0 \<or> me_bind env < 0 \<or> me_listen env < 0
    then \<exists>es. mesh_listen env v = Inl (abort_start es v)
    else \<exists>v'. started h (me_epoll env) w v' \<and> mesh_listen env v =
      (if fails_late env then Inl (abort_start [Close_fd (me_socket env)] v') else Inr (me_socket env, v'))"
proof -
  have "started h (me_epoll env) w (snd (setup_epoll (me_epoll env) v))"
    using assms by (simp add: started_def setup_epoll_def is_server_running_def)
  then show ?thesis by (auto simp: mesh_listen_def fails_late_def setup_epoll_def Let_def)
qed

lemma mesh_setup_outcome:
  assumes "me_mutex env" "me_calloc env" "me_ssl_ctx env = Some h"
  shows "if fails_early env then \<exists>es v. started h 0 w v \<and> mesh_setup E env w = Inl (abort_start es v)
    else \<exists>v. started h (me_epoll env) w v \<and> mesh_setup E env w =
      (if fails_late env then Inl (abort_start [Close_fd (me_socket env)] v) else Inr (me_socket env, v))"
proof -
  define w2 where "w2 = (mesh_clients (mesh_init w))\<lparr>ow_srv := (ow_srv (mesh_clients (mesh_init w)))\<lparr>os_ssl_ctx := Some h\<rparr>\<rparr>"
  obtain ok s3 ev where sig: "signal_protocol_init (me_signal_ctx env) (me_signal_keys env) (ow_srv w2) = (ok, s3, ev)"
    by (metis prod_cases3)
  obtain ok' w4 where db: "init_database_v2 E (me_db env) (w2\<lparr>ow_srv := s3\<rparr>) = (ok', w4)" by fastforce
  have s3: "s3 = (ow_srv w2)\<lparr>os_global_ctx := os_global_ctx s3\<rparr>" using signal_init_ok [OF sig] by simp
  have v3: "started h 0 w (w2\<lparr>ow_srv := s3\<rparr>)"
    by (subst s3) (simp add: started_def w2_def mesh_clients_def mesh_init_def cleared_server_def is_server_running_def)
  then have v4: "started h 0 w w4"
    using init_database_v2_ok [OF db] by (simp add: started_def is_server_running_def)
  have "mesh_setup E env w = (if \<not> ok then Inl (abort_start [] (w2\<lparr>ow_srv := s3\<rparr>))
      else if \<not> ok' then Inl (abort_start [] w4) else mesh_listen env w4)"
    using assms sig db by (simp add: mesh_setup_def setup_ssl_context_v2_def w2_def Let_def)
  then show ?thesis
    using v3 v4 mesh_listen_outcome [OF v4, of env] signal_init_ok [OF sig] init_database_v2_ok [OF db]
    by (auto simp: fails_early_def split: if_splits)
qed

lemma demo_rounds_open:
  assumes "started h e w w1" "mesh_loop 5 demo_rounds w1 = Some (Inr w2)"
  shows "some_open w2"
proof -
  have cs: "os_clients (ow_srv w1) = old_slot # replicate 999 old_slot" "os_max_clients (ow_srv w1) = Suc 999"
    "\<not> locked w1" "is_server_running w1" "oc_fd old_slot = -1"
    using assms(1) replicate_Suc [of 999 old_slot] by (simp_all add: started_def MAX_CLIENTS_def old_slot_def)
  have "old_fresh demo_old_connection old_slot \<in> set (os_clients (ow_srv w2))"
    "length (os_clients (ow_srv w2)) \<le> os_max_clients (ow_srv w2)"
    using assms(2) cs
    by (auto simp: demo_rounds_def accept_client_def demo_old_connection_def with_mutex_def and_then_def
        stop_mesh_server_def is_server_running_def old_set_client_def set_lock_def old_emit_def del: replicate.simps)
  moreover have "0 \<le> oc_fd (old_fresh demo_old_connection old_slot)"
    by (simp add: old_fresh_def demo_old_connection_def)
  ultimately show ?thesis by (auto simp: some_open_def list_ex_iff)
qed

section \<open>Properties\<close>

text \<open>
  A start that fails after its allocations returns 1, never waits for itself, leaves the server marked as
  stopped and gives the TLS context back; but when it fails before the epoll descriptor exists, the clean-up
  closes descriptor 0, because the cleared struct holds 0 where the code takes -1 for unset.
\<close>

theorem failed_start_outcome:
  assumes "me_mutex env" "me_calloc env" "me_ssl_ctx env = Some h" "fails_early env \<or> fails_late env"
  shows "\<exists>w'. start_mesh_server E env rounds w = Mesh_returns 1 w' \<and> \<not> is_server_running w' \<and>
    Ssl_ctx_free h \<in> set (new_events w w') \<and> (fails_early env \<longrightarrow> Close_fd 0 \<in> set (new_events w w'))"
proof (cases "fails_early env")
  case True
  then obtain es v where v: "started h 0 w v" "mesh_setup E env w = Inl (abort_start es v)"
    using mesh_setup_outcome [OF assms(1-3), of w E] by auto
  from abort_started [OF v(1), of es] v(2) show ?thesis by (auto simp: start_mesh_server_def)
next
  case False
  then obtain v where v: "started h (me_epoll env) w v" "mesh_setup E env w = Inl (abort_start [Close_fd (me_socket env)] v)"
    using mesh_setup_outcome [OF assms(1-3), of w E] assms(4) by auto
  from abort_started [OF v(1), of "[Close_fd (me_socket env)]"] v(2) False show ?thesis
    by (auto simp: start_mesh_server_def)
qed

theorem failed_start_outcome_witness:
  "\<exists>w'. start_mesh_server no_engine (demo_mesh_env\<lparr>me_bind := -1\<rparr>) [] old_demo = Mesh_returns 1 w' \<and>
    Close_fd 0 \<in> set (new_events old_demo w')"
  using failed_start_outcome [of "demo_mesh_env\<lparr>me_bind := -1\<rparr>" 1 no_engine "[]" old_demo]
  by (auto simp: demo_mesh_env_def fails_early_def)

text \<open>
  C37. Stopping the earlier server: once it listens, a call of \<open>stop_mesh_server\<close> by another thread ends the main
  loop after whatever else happened, as long as the other threads give the mutex back. The function then
  returns 0 when no client is connected, and waits for itself for ever when one is, holding the mutex.
\<close>

theorem stopping_mesh_server:
  assumes "me_mutex env" "me_calloc env" "me_ssl_ctx env = Some h" "\<not> fails_early env" "\<not> fails_late env"
    "list_ex (\<lambda>r. mr_others r = stop_mesh_server) rounds" "list_all orderly rounds"
  shows "\<exists>w1 w2. mesh_setup E env w = Inr (me_socket env, w1) \<and>
    mesh_loop (me_socket env) rounds w1 = Some (Inr w2) \<and>
    (if some_open w2 then start_mesh_server E env rounds w = Mesh_stuck Self_deadlock
     else \<exists>w3. start_mesh_server E env rounds w = Mesh_returns 0 w3 \<and> \<not> is_server_running w3 \<and>
       ow_trace w3 = ow_trace w2 @ Close_fd (me_socket env) # old_shutdown_events ((ow_srv w2)\<lparr>os_running := False\<rparr>))"
proof -
  obtain w1 where w1: "started h (me_epoll env) w w1" "mesh_setup E env w = Inr (me_socket env, w1)"
    using mesh_setup_outcome [OF assms(1-3), of w E] assms(4,5) by auto
  then obtain w2 where w2: "mesh_loop (me_socket env) rounds w1 = Some (Inr w2)" "at_rest w2"
    using mesh_loop_ends [OF assms(6,7)] started_at_rest by blast
  then have "at_rest (old_emit [Close_fd (me_socket env)] w2)" by (simp add: at_rest_def)
  from cleanup_at_rest [OF this] show ?thesis
    using w1(2) w2(1) by (auto simp: start_mesh_server_def some_open_def old_emit_def is_server_running_def)
qed

theorem stopping_mesh_server_witness:
  "start_mesh_server no_engine demo_mesh_env demo_rounds old_demo = Mesh_stuck Self_deadlock"
proof -
  have env: "me_mutex demo_mesh_env" "me_calloc demo_mesh_env" "me_ssl_ctx demo_mesh_env = Some 1"
    "\<not> fails_early demo_mesh_env" "\<not> fails_late demo_mesh_env" "me_socket demo_mesh_env = 5"
    by (simp_all add: demo_mesh_env_def fails_early_def fails_late_def)
  have "list_ex (\<lambda>r. mr_others r = stop_mesh_server) demo_rounds" "list_all orderly demo_rounds"
    by (simp_all add: demo_rounds_def orderly_def at_rest_def stop_mesh_server_def)
  from stopping_mesh_server [OF env(1-5) this, of no_engine old_demo] obtain w1 w2 where
    w: "mesh_setup no_engine demo_mesh_env old_demo = Inr (5, w1)" "mesh_loop 5 demo_rounds w1 = Some (Inr w2)"
      "some_open w2 \<Longrightarrow> start_mesh_server no_engine demo_mesh_env demo_rounds old_demo = Mesh_stuck Self_deadlock"
    unfolding env(6) by (auto split: if_splits)
  have "started 1 (me_epoll demo_mesh_env) old_demo w1"
    using mesh_setup_outcome [OF env(1-3), of old_demo no_engine] env(4,5) w(1) by auto
  from w(3) [OF demo_rounds_open [OF this w(2)]] show ?thesis .
qed

end
