(* ===== verification/Old_Shapes.thy ===== *)
theory Old_Shapes
  imports Old_Server
begin

text \<open>
  What the handlers of the earlier server keep. The interface \<open>world_predicate\<close> is that of a predicate on
  the world which depends on the client array and the running flag only and survives the update of a slot
  that keeps its arrays; every call of a handler keeps such a predicate. It is interpreted for the types
  of the slots in the sense of the C declarations (every fixed array keeps its size, and the strings keep the
  NUL in their last cell) and for the frame of the server (the running flag, the number of slots). The interface
  \<open>keeper\<close> is that of a call that keeps such a predicate.
\<close>

section \<open>Shapes\<close>

definition slot_shape :: "client_t \<Rightarrow> bool" where
  "slot_shape c = (length (oc_nick c) = 32 \<and> oc_nick c ! 31 = NUL \<and> length (oc_token c) = 65 \<and> oc_token c ! 64 = NUL \<and>
     length (oc_session_key c) = 32 \<and> length (oc_chacha_key c) = 32 \<and> length (oc_twofish_key c) = 32 \<and>
     length (oc_peer_id c) = 64 \<and> oc_peer_id c ! 63 = NUL \<and> length (oc_public_key c) = 256 \<and>
     oc_public_key c ! 255 = NUL \<and> length (oc_shared_secret c) = 32)"

definition slots_ok :: "'db old_world \<Rightarrow> bool" where
  "slots_ok w = list_all slot_shape (os_clients (ow_srv w))"

definition standing :: "bool \<Rightarrow> nat \<Rightarrow> nat \<Rightarrow> 'db old_world \<Rightarrow> bool" where
  "standing running m n w = (os_running (ow_srv w) = running \<and> os_max_clients (ow_srv w) = m \<and>
     length (os_clients (ow_srv w)) = n)"

definition kept :: "('db old_world \<Rightarrow> bool) \<Rightarrow> fault + 'a \<times> 'db old_world \<Rightarrow> bool" where
  "kept P r = (case r of Inl e \<Rightarrow> True | Inr (x, w) \<Rightarrow> P w)"

text \<open>What the library gives for the keys of a client: 32 random bytes each.\<close>

definition keys_ok :: "old_signal_env \<Rightarrow> bool" where
  "keys_ok se = (length (oi_chacha se) = 32 \<and> length (oi_twofish se) = 32)"

section \<open>Composition\<close>

named_theorems kept_intros \<open>composition of calls that keep a predicate on the world\<close>

lemma kept_simps [simp]: "kept P (Inr (x, w)) = P w" "kept P (Inl e)"
  by (simp_all add: kept_def)

lemma kept_apfst [simp]: "kept P (map_sum id (apfst f) r) = kept P r"
  by (auto simp: kept_def split: sum.splits)

lemma kept_and_then [kept_intros]:
  "kept P r \<Longrightarrow> (\<And>x w'. P w' \<Longrightarrow> kept P (f (x, w'))) \<Longrightarrow> kept P (and_then r f)"
  by (cases r) (auto simp: and_then_def)

lemma old_set_client_twice: "old_set_client i c' (old_set_client i c w) = old_set_client i c' w"
  by (simp add: old_set_client_def)

section \<open>Shapes of slots\<close>

lemma shape_frame [simp]:
  "slot_shape (c\<lparr>oc_store := h\<rparr>) = slot_shape c" "slot_shape (c\<lparr>oc_reg_id := r\<rparr>) = slot_shape c"
  "slot_shape (c\<lparr>oc_rate_limit := l\<rparr>) = slot_shape c" "slot_shape (c\<lparr>oc_last_activity := t\<rparr>) = slot_shape c"
  by (simp_all add: slot_shape_def)

lemma shape_released: "slot_shape c \<Longrightarrow> slot_shape (old_released c)"
  by (simp add: slot_shape_def old_released_def)

lemma shape_fresh: "slot_shape c \<Longrightarrow> slot_shape (old_fresh k c)"
  by (simp add: slot_shape_def old_fresh_def)

lemma length_strcpy_s [simp]: "length (strcpy_s dst src) = length dst"
  by (simp add: strcpy_s_def)

lemma strcpy_s_last: "dst \<noteq> [] \<Longrightarrow> strcpy_s dst src ! (length dst - 1) = NUL"
  by (simp add: strcpy_s_def)

lemma shape_login:
  assumes "slot_shape c"
  shows "slot_shape (c\<lparr>oc_nick := strcpy_s (oc_nick c) n, oc_token := strcpy_s (oc_token c) t, oc_authorized := True\<rparr>)"
proof -
  have "oc_nick c \<noteq> []" "oc_token c \<noteq> []" using assms by (auto simp: slot_shape_def)
  then show ?thesis
    using assms strcpy_s_last [of "oc_nick c" n] strcpy_s_last [of "oc_token c" t] by (simp add: slot_shape_def)
qed

lemma old_snprintf_shape: "length buf = 64 \<Longrightarrow> buf ! 63 = NUL \<Longrightarrow> length (old_snprintf buf s) = 64 \<and> old_snprintf buf s ! 63 = NUL"
  by (auto simp: old_snprintf_def snprintf_def Let_def nth_append nth_Cons' min_def)

lemma shape_peer_id: "slot_shape c \<Longrightarrow> slot_shape (c\<lparr>oc_peer_id := old_snprintf (oc_peer_id c) s\<rparr>)"
  using old_snprintf_shape [of "oc_peer_id c" s] by (simp add: slot_shape_def)

lemma shape_keys: "keys_ok se \<Longrightarrow> slot_shape c \<Longrightarrow> slot_shape (generate_client_keys se c)"
  by (auto simp: keys_ok_def slot_shape_def generate_client_keys_def Let_def nth_append split: option.split)

lemma shape_signal:
  "init_client_signal_protocol_v2 se c = (ok, c', ev) \<Longrightarrow> keys_ok se \<Longrightarrow> slot_shape c \<Longrightarrow> slot_shape c'"
  by (auto simp: init_client_signal_protocol_v2_def shape_keys split: option.splits if_splits)

lemma shape_rate_limit: "check_rate_limit_cfg cfg now c = (ok, c') \<Longrightarrow> slot_shape c' = slot_shape c"
  by (auto simp: check_rate_limit_cfg_def split: if_splits prod.splits)

section \<open>What every call keeps\<close>

locale world_predicate =
  fixes P :: "'db old_world \<Rightarrow> bool"
  assumes frame: "os_clients (ow_srv w') = os_clients (ow_srv w) \<Longrightarrow> os_max_clients (ow_srv w') = os_max_clients (ow_srv w) \<Longrightarrow>
      os_running (ow_srv w') = os_running (ow_srv w) \<Longrightarrow> P w' = P w"
    and update: "P w \<Longrightarrow> (slot_shape (old_client w i) \<Longrightarrow> slot_shape c) \<Longrightarrow> P (old_set_client i c w)"
begin

lemma frames [simp]:
  "P (old_emit es w) = P w" "P (old_set_db d w) = P w" "P (old_send i m w) = P w" "P (set_lock b w) = P w"
  "P (run_statement E q vs w) = P w" "P (update_ip_limit E ip b w) = P w" "P (snd (check_ip_limit E ip w)) = P w"
  "P (snd (add_peer_to_network_v2 i now w)) = P w"
  by (rule frame; simp add: set_lock_def add_peer_to_network_v2_def Let_def)+

lemma kept_with_mutex [kept_intros]:
  "P w \<Longrightarrow> (\<And>w'. P w' \<Longrightarrow> kept P (f w')) \<Longrightarrow> kept P (with_mutex f w)"
proof -
  assume w: "P w" and f: "\<And>w'. P w' \<Longrightarrow> kept P (f w')"
  have "kept P (f (set_lock True w))" using w f by simp
  then show ?thesis by (cases "f (set_lock True w)") (auto simp: with_mutex_def)
qed

lemma disconnect_keeps: "P w \<Longrightarrow> kept P (disconnect_client i w)"
  by (auto simp: disconnect_client_def intro!: kept_with_mutex update shape_released)

lemma find_keeps [kept_intros]: "P w \<Longrightarrow> kept P (find_client_by_nick_v2 nick w)"
  unfolding find_client_by_nick_v2_def by (rule kept_with_mutex) simp_all

lemma broadcast_keeps [kept_intros]: "P w \<Longrightarrow> kept P (broadcast_message_v2 E s m w)"
  unfolding broadcast_message_v2_def by (rule kept_with_mutex) simp_all

lemma private_keeps [kept_intros]: "P w \<Longrightarrow> kept P (send_private_message_v2 E s t m w)"
  unfolding send_private_message_v2_def by (auto intro!: kept_intros split: option.split)

lemma establish_keeps [kept_intros]: "P w \<Longrightarrow> kept P (establish_p2p_connection E r a i j w)"
  by (auto simp: establish_p2p_connection_def Let_def split: sum.split)

lemma encrypt_keeps [kept_intros]: "P w \<Longrightarrow> kept P (encrypt_message_for_user_v2 env t m w)"
  unfolding encrypt_message_for_user_v2_def by (auto intro!: kept_intros)

lemma register_keeps: "P w \<Longrightarrow> kept P (old_register E env i line w)"
  by (auto simp: old_register_def Let_def split: list.split sum.split prod.split bool.split)

lemma accept_login_keeps: "P w \<Longrightarrow> kept P (old_accept_login E env i nick token w)"
  unfolding old_accept_login_def Let_def
  by (rule kept_and_then) (auto intro!: kept_intros update shape_login)

lemma login_keeps: "P w \<Longrightarrow> kept P (old_login E env i line w)"
  by (auto simp: old_login_def Let_def accept_login_keeps split: list.split option.split prod.split step_result.split)

lemma others_keep:
  "P w \<Longrightarrow> kept P (old_online i w)" "P w \<Longrightarrow> kept P (old_private E i line w)"
  "P w \<Longrightarrow> kept P (old_encrypted env i line w)" "P w \<Longrightarrow> kept P (old_p2p_connect E env i line w)"
  by (auto simp: old_online_def old_private_def old_encrypted_def old_p2p_connect_def
      intro!: kept_intros split: list.split option.split)

lemma command_keeps: "P w \<Longrightarrow> kept P (old_command E i c w)"
  by (cases c) (simp add: old_command_def register_keeps login_keeps others_keep broadcast_keeps)

lemma session_start_keeps:
  assumes "P w" "keys_ok se"
  shows "kept P (old_session_start E se now i w)"
proof -
  obtain ok w1 where ip: "check_ip_limit E (client_ip_v2 i w) w = (ok, w1)" by fastforce
  then have w1: "P w1" using assms(1) frames(7) by (metis snd_conv)
  let ?w2 = "update_ip_limit E (client_ip_v2 i w) True w1"
  obtain ready c ev where sig: "init_client_signal_protocol_v2 se (old_client ?w2 i) = (ready, c, ev)"
    by (metis prod_cases3)
  have c: "slot_shape c" if "slot_shape (old_client ?w2 i)"
    using shape_signal [OF sig assms(2) that] .
  then have w3: "P (old_set_client i c (old_emit ev ?w2))"
    using w1 by (auto intro!: update)
  have w4: "P (old_set_client i (c\<lparr>oc_peer_id := old_snprintf (oc_peer_id c) s\<rparr>) (old_set_client i c (old_emit ev ?w2)))" for s
    unfolding old_set_client_twice using w1 c by (auto intro!: update shape_peer_id)
  show ?thesis
    using assms(1) w1 w3 w4 ip sig by (auto simp: old_session_start_def Let_def disconnect_keeps)
qed

lemma session_end_keeps: "P w \<Longrightarrow> kept P (old_session_end E i w)"
  unfolding old_session_end_def by (rule kept_and_then) (auto intro!: kept_intros disconnect_keeps)

lemma session_turn_keeps: "P w \<Longrightarrow> old_session_turn E i t b w = Some r \<Longrightarrow> kept P r"
proof -
  assume w: "P w" and r: "old_session_turn E i t b w = Some r"
  obtain ok c where lim: "check_rate_limit_cfg (os_config (ow_srv w)) (ot_now t)
      ((old_client w i)\<lparr>oc_last_activity := ot_activity_now t\<rparr>) = (ok, c)" by fastforce
  have "P (old_set_client i c w)"
    by (rule update [OF w]) (use shape_rate_limit [OF lim] in simp)
  then show "kept P r"
    using w r lim by (auto simp: old_session_turn_def Let_def command_keeps
        split: if_splits option.splits sum.splits prod.splits)
qed

lemma session_loop_keeps: "P w \<Longrightarrow> old_session_loop E i ts b w = Some r \<Longrightarrow> kept P r"
proof (induction ts arbitrary: b w)
  case (Cons t ts)
  from Cons.prems(2) obtain r' where t: "old_session_turn E i t b w = Some r'" by (auto split: option.splits)
  from session_turn_keeps [OF Cons.prems(1) t] Cons t show ?case
    by (auto split: sum.splits prod.splits bool.splits)
qed simp

lemma handler_keeps:
  assumes "P w" "keys_ok se" "client_handler E se now ts buffer i w = Some r"
  shows "kept P r"
  using assms(3) session_start_keeps [OF assms(1,2), of E now i]
  by (auto simp: client_handler_def session_end_keeps
      split: sum.splits prod.splits bool.splits option.splits dest!: session_loop_keeps [rotated])

lemma accept_keeps: "P w \<Longrightarrow> kept P (accept_client k w)"
  unfolding accept_client_def
  by (auto intro!: kept_intros update shape_fresh split: option.split)

lemma sweep_keeps: "P w \<Longrightarrow> kept P (sweep_loop stale n i w)"
  by (induction n arbitrary: i w) (auto intro!: kept_and_then disconnect_keeps)

lemma monitor_sweep_keeps: "P w \<Longrightarrow> kept P (monitor_sweep now w)"
  unfolding monitor_sweep_def by (rule kept_with_mutex) (simp_all add: sweep_keeps)

end

locale keeper = world_predicate P for P :: "'db old_world \<Rightarrow> bool" +
  fixes run :: "'c \<Rightarrow> 'db old_world \<Rightarrow> fault + unit \<times> 'db old_world"
  assumes keeps: "P w \<Longrightarrow> kept P (run c w)"
begin

lemma sequence_keeps: "P w \<Longrightarrow> kept P (run_all run cs w)"
  by (induction cs arbitrary: w) (auto intro!: kept_and_then keeps)

end

section \<open>The two predicates\<close>

lemma slots_ok_update:
  "slots_ok w \<Longrightarrow> (slot_shape (old_client w i) \<Longrightarrow> slot_shape c) \<Longrightarrow> slots_ok (old_set_client i c w)"
proof (cases "i < length (os_clients (ow_srv w))")
  case True
  assume "slots_ok w" "slot_shape (old_client w i) \<Longrightarrow> slot_shape c"
  moreover from this True have "slot_shape c" by (simp add: slots_ok_def list_all_length)
  ultimately show ?thesis
    by (auto simp: slots_ok_def list_all_iff dest: set_update_subset_insert [THEN subsetD])
qed (simp add: slots_ok_def list_update_beyond)

interpretation shapes: world_predicate slots_ok
  by unfold_locales (simp add: slots_ok_def, rule slots_ok_update)

interpretation stands: world_predicate "standing b m n" for b m n
  by unfold_locales (simp_all add: standing_def old_set_client_def)

interpretation disconnects_keep: keeper slots_ok disconnect_client
  by unfold_locales (rule shapes.disconnect_keeps)

interpretation commands_keep: keeper slots_ok "old_command E i" for E i
  by unfold_locales (rule shapes.command_keeps)

section \<open>Properties\<close>

text \<open>
  C29. Every slot of the earlier server keeps the type its struct declares: a connection that is accepted and a
  session from its start to its end, whatever the client sends and the library answers, leave every array of
  every slot at its declared size and every string with a NUL in its last cell.
\<close>

theorem old_slots_keep_shape:
  assumes "slots_ok w" "keys_ok se"
  shows "kept slots_ok (accept_client k w) \<and> (client_handler E se now ts buffer i w = Some r \<longrightarrow> kept slots_ok r)"
  using shapes.accept_keeps [OF assms(1)] shapes.handler_keeps [OF assms] by blast

theorem old_slots_keep_shape_witness:
  "\<exists>w'. accept_client demo_old_connection old_demo = Inr (None, w') \<and> slots_ok w'"
proof -
  have shape: "slot_shape old_slot" "slots_ok old_demo" "keys_ok demo_old_signal"
    by (simp_all add: slot_shape_def slots_ok_def old_demo_def old_slot_def keys_ok_def demo_old_signal_def)
  have "\<exists>w'. accept_client demo_old_connection old_demo = Inr (None, w')"
    by (simp add: accept_client_def with_mutex_def and_then_def old_demo_def demo_old_connection_def)
  then show ?thesis
    using old_slots_keep_shape [OF shape(2,3), of demo_old_connection no_engine 0 "[]" "[]" 0 "Inr ((), old_demo)"] by auto
qed

end
