(* ===== verification/Fair_Runs.thy ===== *)
theory Fair_Runs
  imports Mesh_Prelude
begin

text \<open>
  Infinite runs of a labelled step relation and progress under weak fairness: threads that go on for ever are
  functions from moments to states, a run may pause, and a set of labels (the steps of one thread) is treated
  fairly when it is again and again either disabled or taken.
\<close>

definition execution :: "('l \<Rightarrow> 's \<Rightarrow> 's \<Rightarrow> bool) \<Rightarrow> (nat \<Rightarrow> 's) \<Rightarrow> bool" where
  "execution step run = (\<forall>n. run (Suc n) = run n \<or> (\<exists>l. step l (run n) (run (Suc n))))"

definition can_step :: "('l \<Rightarrow> 's \<Rightarrow> 's \<Rightarrow> bool) \<Rightarrow> 'l set \<Rightarrow> 's \<Rightarrow> bool" where
  "can_step step A s = (\<exists>l \<in> A. \<exists>s'. step l s s')"

definition fair :: "('l \<Rightarrow> 's \<Rightarrow> 's \<Rightarrow> bool) \<Rightarrow> 'l set \<Rightarrow> (nat \<Rightarrow> 's) \<Rightarrow> bool" where
  "fair step A run = (\<forall>n. \<exists>m\<ge>n. \<not> can_step step A (run m) \<or> (\<exists>l \<in> A. step l (run m) (run (Suc m))))"

lemma execution_invariant:
  assumes "execution step run" "P (run n)" "\<And>l s s'. P s \<Longrightarrow> step l s s' \<Longrightarrow> P s'" "n \<le> m"
  shows "P (run m)"
  using assms(4)
proof (induction m rule: dec_induct)
  case (step k)
  with assms(1,3) show ?case unfolding execution_def by metis
qed (rule assms(2))

lemma execution_unless:
  assumes "execution step run" "P (run n)" "\<And>l s s'. P s \<Longrightarrow> step l s s' \<Longrightarrow> P s' \<or> Q s'" "n \<le> m"
  shows "P (run m) \<or> (\<exists>k. n < k \<and> k \<le> m \<and> Q (run k))"
  using assms(4)
proof (induction m rule: dec_induct)
  case (step k)
  from step.IH show ?case
  proof
    assume "P (run k)"
    then have "P (run (Suc k)) \<or> Q (run (Suc k))" using assms(1,3) unfolding execution_def by metis
    then show ?thesis using step.hyps(1) by (meson le_imp_less_Suc order_refl)
  qed (meson le_Suc_eq)
qed (simp add: assms(2))

lemma can_stepI: "step l s s' \<Longrightarrow> l \<in> A \<Longrightarrow> can_step step A s"
  unfolding can_step_def by blast

text \<open>
  Progress by a helpful thread: a predicate that every step keeps or turns into the goal, while the steps of one
  fairly treated thread are possible and always reach the goal.
\<close>

lemma helpful_progress:
  assumes run: "execution step run" "fair step A run" "P (run n)"
    and steps: "\<And>l s s'. P s \<Longrightarrow> step l s s' \<Longrightarrow> (P s' \<and> l \<notin> A) \<or> Q s'"
    and possible: "\<And>s. P s \<Longrightarrow> can_step step A s"
  shows "\<exists>m. Q (run m)"
proof (rule ccontr)
  assume no: "\<not> ?thesis"
  have P: "P (run m)" if "n \<le> m" for m
    using execution_unless [where step = step and P = P and Q = Q, OF run(1,3) _ that] steps no by blast
  obtain m where m: "n \<le> m" "\<not> can_step step A (run m) \<or> (\<exists>l \<in> A. step l (run m) (run (Suc m)))"
    using run(2) unfolding fair_def by blast
  with P [OF m(1)] possible steps have "Q (run (Suc m))" by blast
  with no show False by blast
qed

text \<open>Steps with labels of a set, one after the other.\<close>

inductive steps_in :: "('l \<Rightarrow> 's \<Rightarrow> 's \<Rightarrow> bool) \<Rightarrow> 'l set \<Rightarrow> 's \<Rightarrow> 's \<Rightarrow> bool" for step L where
  stay: "steps_in step L s s"
| move: "steps_in step L s t \<Longrightarrow> l \<in> L \<Longrightarrow> step l t u \<Longrightarrow> steps_in step L s u"

lemma steps_in_keep:
  assumes "steps_in step L s t" "P s" "\<And>l s s'. P s \<Longrightarrow> l \<in> L \<Longrightarrow> step l s s' \<Longrightarrow> P s'"
  shows "P t"
  using assms by (induction) auto

text \<open>A finite run that ends where nothing is possible any more is a fair execution once it pauses there for ever.\<close>

definition pausing :: "'s list \<Rightarrow> nat \<Rightarrow> 's" where
  "pausing ss n = (if n < length ss then ss ! n else last ss)"

lemma pausing_execution:
  assumes "ss \<noteq> []" "successively (\<lambda>s s'. \<exists>l. step l s s') ss"
    "\<And>l s'. \<not> step l (last ss) s'"
  shows "execution step (pausing ss)" "fair step A (pausing ss)"
proof -
  show "execution step (pausing ss)"
    unfolding execution_def pausing_def
  proof
    fix n
    consider "Suc n < length ss" | "Suc n = length ss" | "length ss < Suc n" by linarith
    then show "(if Suc n < length ss then ss ! Suc n else last ss) = (if n < length ss then ss ! n else last ss) \<or>
      (\<exists>l. step l (if n < length ss then ss ! n else last ss) (if Suc n < length ss then ss ! Suc n else last ss))"
    proof cases
      case 1 then show ?thesis using assms(2) by (simp add: successively_conv_nth)
    next
      case 2 then show ?thesis using assms(1) by (metis diff_Suc_1 last_conv_nth lessI less_irrefl)
    qed simp
  qed
  show "fair step A (pausing ss)"
    unfolding fair_def can_step_def pausing_def using assms(3) by (metis add.commute le_add1 not_add_less1)
qed

end
