(* ===== verification/Mesh_Wrapper.thy ===== *)
theory Mesh_Wrapper
  imports Old_Lifecycle Old_Shapes Fair_Runs
begin

text \<open>
  The programs around the earlier server: the class \<open>MeshServer\<close> (\<^verbatim>\<open>src/src/MeshServer.hpp\<close>), which runs
  \<open>start_mesh_server\<close> in a thread of its own, the C++ program that uses it (\<^verbatim>\<open>src/src/trash/main.cpp\<close>) and the
  C program (\<^verbatim>\<open>src/src/main_c.c\<close>). The C++ program is a step relation: its main thread, the server thread, the
  calls of client handlers and of the monitor, and signals interleave, one call per step. Setting up the server is
  one step: it does not look at the running flag after setting it, so that a stop which comes in between
  has the effect of one that comes right after.
\<close>

section \<open>The process\<close>

datatype server_thread = Unborn | Serving int | Ended int | Blocked fault

datatype main_pc = Begin | Polling | Stopping | Joining | Returned int | Exited int

text \<open>\<open>mp_thread\<close>: \<open>None\<close> while \<^verbatim>\<open>server_thread\<close> is not joinable.\<close>

record 'db mesh_process =
  mp_started :: bool
  mp_thread :: "server_thread option"
  mp_shutdown :: bool
  mp_main :: main_pc
  mp_world :: "'db old_world"

definition process_init :: "'db old_world \<Rightarrow> 'db mesh_process" where
  "process_init w = \<lparr>mp_started = False, mp_thread = None, mp_shutdown = False, mp_main = Begin, mp_world = w\<rparr>"

fun over :: "main_pc \<Rightarrow> bool" where
  "over (Returned c) = True"
| "over (Exited c) = True"
| "over _ = False"

section \<open>The class\<close>

definition MeshServer_isRunning :: "'db mesh_process \<Rightarrow> bool" where
  "MeshServer_isRunning p = is_server_running (mp_world p)"

text \<open>
  \<open>start\<close>: the exceptions are values; \<open>spawned\<close> says whether \<^verbatim>\<open>std::thread\<close> could create its thread, and if
  not it throws with \<open>started\<close> set already.
\<close>

definition MeshServer_start :: "bool \<Rightarrow> 'db mesh_process \<Rightarrow> string \<times> 'db mesh_process + 'db mesh_process" where
  "MeshServer_start spawned p =
     (if mp_started p then Inl (''Server already started'', p)
      else if MeshServer_isRunning p then Inl (''Server is already running (externally)'', p)
      else if \<not> spawned then Inl (''system_error'', p\<lparr>mp_started := True\<rparr>)
      else Inr (p\<lparr>mp_started := True, mp_thread := Some Unborn\<rparr>))"

text \<open>\<open>stop\<close> up to the join, and the join with what follows; \<open>None\<close>: it waits.\<close>

definition MeshServer_stop :: "'db mesh_process \<Rightarrow> 'db mesh_process" where
  "MeshServer_stop p = (if \<not> mp_started p then p else p\<lparr>mp_world := stop_mesh_server (mp_world p)\<rparr>)"

definition MeshServer_join :: "'db mesh_process \<Rightarrow> 'db mesh_process option" where
  "MeshServer_join p =
     (if \<not> mp_started p then Some p
      else case mp_thread p of
        None \<Rightarrow> Some (p\<lparr>mp_started := False\<rparr>)
      | Some (Ended c) \<Rightarrow> Some (p\<lparr>mp_thread := None, mp_started := False\<rparr>)
      | Some _ \<Rightarrow> None)"

text \<open>
  The destructor calls \<open>stop\<close>. It runs when \<open>start\<close> threw, where no thread exists, and again after the
  \<open>stop\<close> of the main program.
\<close>

definition MeshServer_destroy :: "'db mesh_process \<Rightarrow> 'db mesh_process option" where
  "MeshServer_destroy p = MeshServer_join (MeshServer_stop p)"

section \<open>The C++ program\<close>

definition signal_handler_cpp :: "'db mesh_process \<Rightarrow> 'db mesh_process" where
  "signal_handler_cpp p = p\<lparr>mp_shutdown := True\<rparr>"

text \<open>A step of \<open>main\<close>; in \<open>Polling\<close> it tests the loop condition and sleeps.\<close>

definition main_step :: "bool \<Rightarrow> 'db mesh_process \<Rightarrow> 'db mesh_process option" where
  "main_step spawned p =
     (case mp_main p of
        Begin \<Rightarrow>
          (case MeshServer_start spawned p of
             Inl (_, p') \<Rightarrow> map_option (\<lambda>p''. p''\<lparr>mp_main := Returned 1\<rparr>) (MeshServer_destroy p')
           | Inr p' \<Rightarrow> Some (p'\<lparr>mp_main := Polling\<rparr>))
      | Polling \<Rightarrow>
          Some (if \<not> mp_shutdown p \<and> MeshServer_isRunning p then p else p\<lparr>mp_main := Stopping\<rparr>)
      | Stopping \<Rightarrow> Some ((MeshServer_stop p)\<lparr>mp_main := Joining\<rparr>)
      | Joining \<Rightarrow>
          (case MeshServer_join p of
             None \<Rightarrow> None
           | Some p' \<Rightarrow> map_option (\<lambda>p''. p''\<lparr>mp_main := Returned 0\<rparr>) (MeshServer_destroy p'))
      | _ \<Rightarrow> None)"

text \<open>
  A step of the thread in \<open>start_mesh_server\<close>: all of the set-up, then one round of the main loop, with the
  clean-up after the last. Its result is only printed. \<^verbatim>\<open>exit\<close> in the set-up ends the process.
\<close>

definition server_finish :: "int \<Rightarrow> 'db mesh_process \<Rightarrow> 'db mesh_process" where
  "server_finish fd p =
     (case cleanup_resources (old_emit [Close_fd fd] (mp_world p)) of
        Inl e \<Rightarrow> p\<lparr>mp_thread := Some (Blocked e)\<rparr>
      | Inr w \<Rightarrow> p\<lparr>mp_thread := Some (Ended 0), mp_world := w\<rparr>)"

definition server_begin :: "'db sqlite \<Rightarrow> mesh_env \<Rightarrow> 'db mesh_process \<Rightarrow> 'db mesh_process" where
  "server_begin E env p =
     (case mesh_setup E env (mp_world p) of
        Inr (fd, w) \<Rightarrow> p\<lparr>mp_thread := Some (Serving fd), mp_world := w\<rparr>
      | Inl (Mesh_exit c) \<Rightarrow> p\<lparr>mp_main := Exited c\<rparr>
      | Inl (Mesh_returns c w) \<Rightarrow> p\<lparr>mp_thread := Some (Ended c), mp_world := w\<rparr>
      | Inl (Mesh_stuck e) \<Rightarrow> p\<lparr>mp_thread := Some (Blocked e)\<rparr>
      | Inl Mesh_running \<Rightarrow> p)"

definition server_round :: "wait_result \<Rightarrow> int \<Rightarrow> 'db mesh_process \<Rightarrow> 'db mesh_process" where
  "server_round r fd p =
     (if \<not> is_server_running (mp_world p) then server_finish fd p
      else case r of
        Interrupted \<Rightarrow> p
      | Wait_failed \<Rightarrow> server_finish fd p
      | Ready es \<Rightarrow>
          (case accept_ready fd es (mp_world p) of
             Inl e \<Rightarrow> p\<lparr>mp_thread := Some (Blocked e)\<rparr>
           | Inr (_, w) \<Rightarrow> p\<lparr>mp_world := w\<rparr>))"

definition mesh_server_step :: "'db sqlite \<Rightarrow> mesh_env \<Rightarrow> wait_result \<Rightarrow> 'db mesh_process \<Rightarrow> 'db mesh_process option" where
  "mesh_server_step E env r p =
     (case mp_thread p of
        Some Unborn \<Rightarrow> Some (server_begin E env p)
      | Some (Serving fd) \<Rightarrow> Some (server_round r fd p)
      | _ \<Rightarrow> None)"

text \<open>
  The other threads: the parts of \<open>client_handler\<close> on a slot of the array and a round of the monitor. A monitor
  that waits for itself keeps the mutex for ever.
\<close>

inductive handler_call :: "'db sqlite \<Rightarrow> 'db old_world \<Rightarrow> 'db old_world \<Rightarrow> bool" for E where
  starts: "old_session_start E se now i w = Inr (b, w') \<Longrightarrow> keys_ok se \<Longrightarrow> i < length (os_clients (ow_srv w)) \<Longrightarrow>
    handler_call E w w'"
| serves: "old_session_turn E i t buffer w = Some (Inr (x, w')) \<Longrightarrow> i < length (os_clients (ow_srv w)) \<Longrightarrow> handler_call E w w'"
| leaves: "old_session_end E i w = Inr (u, w') \<Longrightarrow> i < length (os_clients (ow_srv w)) \<Longrightarrow> handler_call E w w'"
| monitors: "monitor_round E now opened w = Inr w' \<Longrightarrow> handler_call E w w'"
| deadlocks: "monitor_round E now opened w = Inl Self_deadlock \<Longrightarrow> handler_call E w (set_lock True w)"

datatype actor = Main_thread bool | Server_thread wait_result | Handlers | Signal

inductive mesh_step :: "'db sqlite \<Rightarrow> mesh_env \<Rightarrow> actor \<Rightarrow> 'db mesh_process \<Rightarrow> 'db mesh_process \<Rightarrow> bool" for E env where
  main: "main_step spawned p = Some p' \<Longrightarrow> \<not> over (mp_main p) \<Longrightarrow> mesh_step E env (Main_thread spawned) p p'"
| serve: "mesh_server_step E env r p = Some p' \<Longrightarrow> \<not> over (mp_main p) \<Longrightarrow> mesh_step E env (Server_thread r) p p'"
| handle: "handler_call E (mp_world p) w \<Longrightarrow> \<not> over (mp_main p) \<Longrightarrow> mesh_step E env Handlers p (p\<lparr>mp_world := w\<rparr>)"
| signal: "\<not> over (mp_main p) \<Longrightarrow> mesh_step E env Signal p (signal_handler_cpp p)"

inductive_simps mesh_step_simps [simp]:
  "mesh_step E env (Main_thread b) p p'" "mesh_step E env (Server_thread r) p p'"
  "mesh_step E env Handlers p p'" "mesh_step E env Signal p p'"

section \<open>The C program\<close>

text \<open>\<open>sigs\<close>: the signals that arrive while the server runs. Nothing reads the variable the handler sets.\<close>

definition signal_handler_c :: "int \<Rightarrow> bool \<Rightarrow> bool" where
  "signal_handler_c sig shutdown_requested = True"

definition main_c :: "'db sqlite \<Rightarrow> mesh_env \<Rightarrow> int list \<Rightarrow> 'db mesh_round list \<Rightarrow> 'db old_world \<Rightarrow> 'db mesh_result \<times> bool" where
  "main_c E env sigs rounds w = (start_mesh_server E env rounds w, fold signal_handler_c sigs False)"

section \<open>What the properties speak of\<close>

text \<open>A start of the server that succeeds.\<close>

definition start_succeeds :: "mesh_env \<Rightarrow> bool" where
  "start_succeeds env = (me_mutex env \<and> me_calloc env \<and> me_ssl_ctx env \<noteq> None \<and> \<not> fails_early env \<and> \<not> fails_late env)"

text \<open>The flags of the class agree with the thread and with where the main program is.\<close>

definition process_ok :: "'db mesh_process \<Rightarrow> bool" where
  "process_ok p = (mp_started p = (mp_thread p \<noteq> None) \<and>
     (case mp_main p of
        Begin \<Rightarrow> mp_thread p = None \<and> \<not> MeshServer_isRunning p
      | Returned c \<Rightarrow> mp_thread p = None \<and> (c = 0 \<or> c = 1)
      | _ \<Rightarrow> mp_thread p \<noteq> None))"

text \<open>The states of a stop that came too early: the server runs, and the only one who could stop it waits for it.\<close>

definition stop_lost :: "'db mesh_process \<Rightarrow> bool" where
  "stop_lost p = (mp_main p = Joining \<and> mp_started p \<and>
     (mp_thread p = Some Unborn \<or> (\<exists>fd. mp_thread p = Some (Serving fd)) \<and> MeshServer_isRunning p \<or>
      (\<exists>e. mp_thread p = Some (Blocked e))))"

definition blocked :: "'db mesh_process \<Rightarrow> bool" where
  "blocked p = (\<exists>e. mp_thread p = Some (Blocked e))"

text \<open>The steps of the server thread when nothing else happens.\<close>

fun server_run :: "'db sqlite \<Rightarrow> mesh_env \<Rightarrow> wait_result list \<Rightarrow> 'db mesh_process \<Rightarrow> 'db mesh_process" where
  "server_run E env [] p = p"
| "server_run E env (r # rs) p =
     (if over (mp_main p) then p
      else case mesh_server_step E env r p of None \<Rightarrow> p | Some p' \<Rightarrow> server_run E env rs p')"

definition alone :: "wait_result \<Rightarrow> 'db mesh_round" where
  "alone r = \<lparr>mr_others = id, mr_wait = r\<rparr>"

text \<open>What the thread shows of a result of \<open>start_mesh_server\<close>.\<close>

definition shows_result :: "'db mesh_process \<Rightarrow> 'db mesh_result \<Rightarrow> bool" where
  "shows_result p r = (case r of
     Mesh_exit c \<Rightarrow> mp_main p = Exited c
   | Mesh_returns c w \<Rightarrow> mp_thread p = Some (Ended c) \<and> mp_world p = w
   | Mesh_stuck e \<Rightarrow> mp_thread p = Some (Blocked e)
   | Mesh_running \<Rightarrow> (\<exists>fd. mp_thread p = Some (Serving fd)))"

definition loop_result :: "int \<Rightarrow> (fault + 'db old_world) option \<Rightarrow> 'db mesh_result" where
  "loop_result fd r = (case r of
     None \<Rightarrow> Mesh_running
   | Some (Inl e) \<Rightarrow> Mesh_stuck e
   | Some (Inr w) \<Rightarrow>
       (case cleanup_resources (old_emit [Close_fd fd] w) of Inl e \<Rightarrow> Mesh_stuck e | Inr w' \<Rightarrow> Mesh_returns 0 w'))"

definition halted_world :: "unit old_world" where
  "halted_world = stop_mesh_server old_demo"

text \<open>
  The C program cannot be stopped by a signal.
\<close>

definition quiet_round :: "'db mesh_round \<Rightarrow> bool" where
  "quiet_round r = (mr_wait r \<noteq> Wait_failed \<and> orderly r \<and> (\<forall>w. is_server_running (mr_others r w) = is_server_running w))"

section \<open>Lemmas\<close>

lemma standing_exists: "\<exists>m n. standing (is_server_running w) m n w"
  by (simp add: standing_def is_server_running_def)

lemma monitor_round_stands: "standing b m n w \<Longrightarrow> monitor_round E now opened w = Inr w' \<Longrightarrow> standing b m n w'"
  using stands.monitor_sweep_keeps [of b m n w now]
  by (auto simp: monitor_round_def and_then_def kept_def init_database_v2_def standing_def Let_def old_set_db_def
      split: sum.splits prod.splits option.splits if_splits)

lemma handler_call_stands: "handler_call E w w' \<Longrightarrow> standing b m n w \<Longrightarrow> standing b m n w'"
proof (induction rule: handler_call.induct)
  case (starts se now i w b' w')
  then show ?case using stands.session_start_keeps [OF starts(4,2), of E now i] by simp
next
  case (serves i t buffer w x w')
  then show ?case using stands.session_turn_keeps [OF serves(3,1)] by simp
next
  case (leaves i w u w')
  then show ?case using stands.session_end_keeps [OF leaves(3), of E i] by simp
next
  case (monitors now opened w w')
  then show ?case by (blast intro: monitor_round_stands)
next
  case (deadlocks now opened w)
  then show ?case by (simp add: standing_def set_lock_def)
qed

lemma handler_call_running: "handler_call E w w' \<Longrightarrow> is_server_running w' = is_server_running w"
  using handler_call_stands [of E w w' "is_server_running w"] standing_exists [of w]
  by (auto simp: standing_def is_server_running_def)

lemma accept_ready_running: "accept_ready fd es w = Inr (u, w') \<Longrightarrow> is_server_running w' = is_server_running w"
proof (induction fd es w rule: accept_ready.induct)
  case (2 server_fd fd k es w)
  have "is_server_running w1 = is_server_running w" if "accept_client k w = Inr (r, w1)" for r w1
    using stands.accept_keeps [of "is_server_running w" "os_max_clients (ow_srv w)" "length (os_clients (ow_srv w))" w k] that
    by (auto simp: standing_def is_server_running_def)
  with 2 show ?case by (auto simp: and_then_def split: if_splits sum.splits)
qed simp

lemma setup_running: 
  assumes "start_succeeds env"
  shows "\<exists>w1. mesh_setup E env w = Inr (me_socket env, w1) \<and> is_server_running w1 \<and> at_rest w1"
proof -
  obtain h where h: "me_ssl_ctx env = Some h" using assms by (auto simp: start_succeeds_def)
  then show ?thesis
    using mesh_setup_outcome [of env h w E] assms by (auto simp: start_succeeds_def dest: started_at_rest)
qed

lemma server_finish_parts:
  "mp_main (server_finish fd p) = mp_main p" "mp_started (server_finish fd p) = mp_started p"
  "mp_shutdown (server_finish fd p) = mp_shutdown p"
  "\<exists>t. mp_thread (server_finish fd p) = Some t \<and> (t = Ended 0 \<or> (\<exists>e. t = Blocked e))"
  by (auto simp: server_finish_def split: sum.splits)

lemma server_round_parts:
  "mp_main (server_round r fd p) = mp_main p" "mp_started (server_round r fd p) = mp_started p"
  "mp_shutdown (server_round r fd p) = mp_shutdown p"
  by (auto simp: server_round_def server_finish_parts split: wait_result.splits sum.splits prod.splits)

lemma server_begin_parts:
  "mp_started (server_begin E env p) = mp_started p"
  "mp_shutdown (server_begin E env p) = mp_shutdown p"
  by (auto simp: server_begin_def split: mesh_result.splits sum.splits prod.splits)

lemma server_round_thread:
  "mp_thread p = Some (Serving fd) \<Longrightarrow> \<exists>t. mp_thread (server_round r fd p) = Some t \<and> t \<noteq> Unborn"
  using server_finish_parts(4) [of fd p]
  by (auto simp: server_round_def split: wait_result.splits sum.splits prod.splits)

lemma mesh_setup_result: "mesh_setup E env w \<noteq> Inl Mesh_running"
  by (auto simp: mesh_setup_def mesh_listen_def abort_start_def Let_def split: option.splits sum.splits prod.splits if_splits)

lemma server_begin_thread:
  "mp_thread p = Some Unborn \<Longrightarrow> \<exists>t. mp_thread (server_begin E env p) = Some t \<and>
     (if t = Unborn then \<exists>c. mp_main (server_begin E env p) = Exited c else mp_main (server_begin E env p) = mp_main p)"
  using mesh_setup_result [of E env "mp_world p"]
  by (auto simp: server_begin_def split: mesh_result.splits sum.splits prod.splits)

lemma mesh_server_step_cases:
  assumes "mesh_server_step E env r p = Some p'"
  obtains "mp_thread p = Some Unborn" "p' = server_begin E env p"
  | fd where "mp_thread p = Some (Serving fd)" "p' = server_round r fd p"
  using assms by (auto simp: mesh_server_step_def split: option.splits server_thread.splits)

lemma process_ok_init: "\<not> is_server_running w \<Longrightarrow> process_ok (process_init w)"
  by (simp add: process_ok_def process_init_def MeshServer_isRunning_def)

lemmas main_defs = main_step_def MeshServer_start_def MeshServer_destroy_def MeshServer_join_def MeshServer_stop_def

lemma process_ok_step: "process_ok p \<Longrightarrow> mesh_step E env l p p' \<Longrightarrow> process_ok p'"
proof (induction l)
  case (Main_thread b)
  then show ?case
    by (auto simp: process_ok_def main_defs MeshServer_isRunning_def stop_mesh_server_def is_server_running_def
        split: main_pc.splits if_splits option.splits server_thread.splits)
next
  case (Server_thread r)
  then have "mesh_server_step E env r p = Some p'" "\<not> over (mp_main p)" by simp_all
  then show ?case
  proof (cases rule: mesh_server_step_cases)
    case 1
    with Server_thread server_begin_thread [of p E env] server_begin_parts [of E env p] show ?thesis
      by (auto simp: process_ok_def split: main_pc.splits if_splits)
  next
    case (2 fd)
    with Server_thread server_round_thread [of p fd r] server_round_parts [of r fd p] show ?thesis
      by (auto simp: process_ok_def split: main_pc.splits)
  qed
next
  case Handlers
  then show ?case using handler_call_running
    by (fastforce simp: process_ok_def MeshServer_isRunning_def split: main_pc.splits)
next
  case Signal
  then show ?case by (auto simp: process_ok_def signal_handler_cpp_def MeshServer_isRunning_def split: main_pc.splits)
qed

lemma stop_lost_step:
  assumes "start_succeeds env" "stop_lost p" "l \<noteq> Server_thread Wait_failed" "mesh_step E env l p p'"
  shows "stop_lost p'"
  using assms(4)
proof cases
  case (main spawned)
  then show ?thesis using assms(2) by (auto simp: stop_lost_def main_defs)
next
  case (serve r)
  from serve(2) show ?thesis
  proof (cases rule: mesh_server_step_cases)
    case 1
    with assms setup_running [OF assms(1), of E "mp_world p"] show ?thesis
      by (auto simp: stop_lost_def server_begin_def MeshServer_isRunning_def)
  next
    case (2 fd)
    with assms serve(1) show ?thesis
      by (auto simp: stop_lost_def server_round_def MeshServer_isRunning_def accept_ready_running split: wait_result.splits sum.splits)
  qed
next
  case (handle w)
  then show ?thesis using assms(2) handler_call_running by (fastforce simp: stop_lost_def MeshServer_isRunning_def)
next
  case signal
  then show ?thesis using assms(2) by (auto simp: stop_lost_def signal_handler_cpp_def MeshServer_isRunning_def)
qed

lemma server_finish_outcome:
  "(\<exists>e. server_finish fd p = p\<lparr>mp_thread := Some (Blocked e)\<rparr>) \<or> (\<exists>w. server_finish fd p = p\<lparr>mp_thread := Some (Ended 0), mp_world := w\<rparr>)"
  by (auto simp: server_finish_def split: sum.splits)

lemma mesh_step_cases:
  assumes "mesh_step E env l p p'"
  obtains (Main) b where "l = Main_thread b" "main_step b p = Some p'"
  | (Born) r where "l = Server_thread r" "mp_thread p = Some Unborn" "p' = server_begin E env p"
  | (Round) r fd where "l = Server_thread r" "mp_thread p = Some (Serving fd)" "p' = server_round r fd p"
  | (Quiet) "l = Handlers \<or> l = Signal" "mp_main p' = mp_main p" "mp_thread p' = mp_thread p"
      "mp_started p' = mp_started p" "MeshServer_isRunning p' = MeshServer_isRunning p" "mp_shutdown p \<Longrightarrow> mp_shutdown p'"
  using assms
proof cases
  case (serve r)
  from serve(2) show thesis by (cases rule: mesh_server_step_cases) (use serve(1) that in auto)
next
  case (handle w)
  then show thesis using that(4) handler_call_running by (fastforce simp: MeshServer_isRunning_def)
qed (use that in \<open>auto simp: signal_handler_cpp_def MeshServer_isRunning_def\<close>)

lemma alone_simps [simp]: "mr_others (alone r) = id" "mr_wait (alone r) = r"
  by (simp_all add: alone_def)

lemma server_run_halted:
  "(\<exists>c. mp_thread p = Some (Ended c)) \<or> blocked p \<or> over (mp_main p) \<Longrightarrow> server_run E env rs p = p"
  by (cases rs) (auto simp: mesh_server_step_def blocked_def)

lemma server_finish_shows: "shows_result (server_finish fd p) (loop_result fd (Some (Inr (mp_world p))))"
  by (auto simp: server_finish_def shows_result_def loop_result_def split: sum.splits)

lemma server_run_finish: "server_run E env rs (server_finish fd p) = server_finish fd p"
  by (rule server_run_halted) (use server_finish_parts(4) [of fd p] in \<open>auto simp: blocked_def\<close>)

lemma server_run_loop:
  "mp_thread p = Some (Serving fd) \<Longrightarrow> \<not> over (mp_main p) \<Longrightarrow>
   shows_result (server_run E env (rs @ [Interrupted]) p) (loop_result fd (mesh_loop fd (map alone rs) (mp_world p)))"
proof (induction rs arbitrary: p)
  case Nil
  then show ?case using server_finish_shows [of fd p]
    by (auto simp: mesh_server_step_def server_round_def) (simp add: shows_result_def loop_result_def)
next
  case (Cons r rs)
  show ?case
  proof (cases "is_server_running (mp_world p) \<and> (\<exists>es. r = Ready es)")
    case True
    then obtain es where es: "is_server_running (mp_world p)" "r = Ready es" by blast
    show ?thesis
    proof (cases "accept_ready fd es (mp_world p)")
      case (Inl e)
      with es Cons.prems server_run_halted [of "p\<lparr>mp_thread := Some (Blocked e)\<rparr>"] show ?thesis
        by (simp add: mesh_server_step_def server_round_def shows_result_def loop_result_def blocked_def)
    next
      case (Inr x)
      with es Cons.prems Cons.IH [of "p\<lparr>mp_world := snd x\<rparr>"] show ?thesis
        by (cases x) (simp add: mesh_server_step_def server_round_def)
    qed
  next
    case False
    then show ?thesis using Cons server_finish_shows [of fd p]
      by (cases r) (auto simp: mesh_server_step_def server_round_def server_run_finish)
  qed
qed

lemma server_run_start:
  assumes "mp_thread p = Some Unborn" "\<not> over (mp_main p)"
  shows "shows_result (server_run E env (r # rs @ [Interrupted]) p) (start_mesh_server E env (map alone rs) (mp_world p))"
proof (cases "mesh_setup E env (mp_world p)")
  case (Inr x)
  then obtain fd w where x: "mesh_setup E env (mp_world p) = Inr (fd, w)" by (cases x) auto
  then have "start_mesh_server E env (map alone rs) (mp_world p) = loop_result fd (mesh_loop fd (map alone rs) w)"
    by (simp add: start_mesh_server_def loop_result_def)
  then show ?thesis
    using server_run_loop [of "p\<lparr>mp_thread := Some (Serving fd), mp_world := w\<rparr>" fd E env rs] assms x
    by (simp add: mesh_server_step_def server_begin_def)
next
  case (Inl y)
  then have "start_mesh_server E env (map alone rs) (mp_world p) = y" by (simp add: start_mesh_server_def)
  then show ?thesis
    using Inl assms mesh_setup_result [of E env "mp_world p"]
      server_run_halted [of "server_begin E env p" E env "rs @ [Interrupted]"]
    by (cases y) (simp_all add: mesh_server_step_def server_begin_def shows_result_def blocked_def)
qed

lemma demo_env_starts: "start_succeeds demo_mesh_env" "\<not> is_server_running halted_world"
  by (simp_all add: start_succeeds_def demo_mesh_env_def fails_early_def fails_late_def halted_world_def
      stop_mesh_server_def is_server_running_def)

lemma quiet_loop: "list_all quiet_round rs \<Longrightarrow> at_rest w \<Longrightarrow> is_server_running w \<Longrightarrow> mesh_loop fd rs w = None"
proof (induction rs arbitrary: w)
  case (Cons r rs)
  have r: "at_rest (mr_others r w)" "is_server_running (mr_others r w)" "mr_wait r \<noteq> Wait_failed"
    using Cons.prems by (auto simp: quiet_round_def orderly_def)
  show ?case
  proof (cases "mr_wait r")
    case (Ready es)
    from accept_ready_at_rest [OF r(1), of fd es] r Cons Ready show ?thesis by auto
  qed (use Cons r in auto)
qed simp

section \<open>Properties\<close>

text \<open>
  The thread of the class runs \<open>start_mesh_server\<close>: when nothing else happens, its steps over the answers of
  \<^verbatim>\<open>epoll_wait\<close> end as \<open>start_mesh_server\<close> ends on the same answers, whatever the library answered during
  start-up: with the same result and state, blocked by the same fault, with the process left by \<^verbatim>\<open>exit\<close>, or serving.
\<close>

theorem server_thread_refines_start:
  assumes "mp_thread p = Some Unborn" "\<not> over (mp_main p)"
  shows "shows_result (server_run E env (r # rs @ [Interrupted]) p) (start_mesh_server E env (map alone rs) (mp_world p))"
  using assms by (rule server_run_start)

theorem server_thread_refines_start_witness:
  "shows_result (server_run no_engine (demo_mesh_env\<lparr>me_calloc := False\<rparr>) [Interrupted, Wait_failed, Interrupted]
      ((process_init old_demo)\<lparr>mp_thread := Some Unborn\<rparr>))
    (start_mesh_server no_engine (demo_mesh_env\<lparr>me_calloc := False\<rparr>) [alone Wait_failed] old_demo)"
  using server_thread_refines_start [of "(process_init old_demo)\<lparr>mp_thread := Some Unborn\<rparr>" no_engine
      "demo_mesh_env\<lparr>me_calloc := False\<rparr>" Interrupted "[Wait_failed]"]
  by (simp add: process_init_def)

text \<open>
  The C++ program returns only after its server thread was joined, with the class back in its first state, and its
  exit status is 0 whatever became of the server: a start that failed with 1 is not seen in it.
\<close>

theorem wrapper_exit_status:
  assumes "\<not> is_server_running w" "steps_in (mesh_step E env) (- {Main_thread False}) (process_init w) p"
    and "mp_main p = Returned c"
  shows "c = 0 \<and> mp_thread p = None \<and> \<not> mp_started p"
proof -
  let ?P = "\<lambda>p. process_ok p \<and> (\<forall>c. mp_main p = Returned c \<longrightarrow> c = 0)"
  have "?P (process_init w)" using process_ok_init [OF assms(1)] by (simp add: process_init_def)
  then have "?P p"
  proof (rule steps_in_keep [OF assms(2), where P = ?P])
    fix l and s s' :: "'a mesh_process"
    assume s: "?P s" "l \<in> - {Main_thread False}" "mesh_step E env l s s'"
    have "\<forall>c. mp_main s' = Returned c \<longrightarrow> c = 0" using s(3)
    proof (cases rule: mesh_step_cases)
      case (Main b)
      with s show ?thesis
        by (auto simp: process_ok_def main_defs split: main_pc.splits if_splits option.splits server_thread.splits)
    next
      case (Born r)
      with s server_begin_thread [of s E env] show ?thesis by (auto split: if_splits)
    qed (use s in \<open>auto simp: server_round_parts\<close>)
    with s process_ok_step show "?P s'" by blast
  qed
  with assms(3) show ?thesis by (auto simp: process_ok_def)
qed

theorem wrapper_exit_status_witness:
  "\<exists>p q. steps_in (mesh_step no_engine (demo_mesh_env\<lparr>me_bind := -1\<rparr>)) (- {Main_thread False}) (process_init halted_world) p \<and>
    mp_thread p = Some (Ended 1) \<and>
    steps_in (mesh_step no_engine (demo_mesh_env\<lparr>me_bind := -1\<rparr>)) (- {Main_thread False}) (process_init halted_world) q \<and>
    mp_main q = Returned 0 \<and> mp_thread q = None"
proof -
  let ?env = "demo_mesh_env\<lparr>me_bind := -1\<rparr>" and ?L = "- {Main_thread False}"
  let ?step = "mesh_step no_engine ?env" and ?p0 = "process_init halted_world"
  have env: "me_mutex ?env" "me_calloc ?env" "me_ssl_ctx ?env = Some 1" "fails_early ?env"
    by (simp_all add: demo_mesh_env_def fails_early_def)
  obtain es v where v: "started 1 0 halted_world v" "mesh_setup no_engine ?env halted_world = Inl (abort_start es v)"
    using mesh_setup_outcome [OF env(1-3), of halted_world no_engine] env(4) by auto
  then obtain w1 where w1: "mesh_setup no_engine ?env halted_world = Inl (Mesh_returns 1 w1)" "\<not> is_server_running w1"
    using abort_started [OF v(1), of es] by auto
  define p1 where "p1 = ?p0\<lparr>mp_started := True, mp_thread := Some Unborn, mp_main := Polling\<rparr>"
  define p2 where "p2 = p1\<lparr>mp_thread := Some (Ended 1), mp_world := w1\<rparr>"
  define p3 where "p3 = p2\<lparr>mp_main := Stopping\<rparr>"
  define p4 where "p4 = p3\<lparr>mp_main := Joining, mp_world := stop_mesh_server w1\<rparr>"
  define p5 where "p5 = p4\<lparr>mp_thread := None, mp_started := False, mp_main := Returned 0\<rparr>"
  note ps = p5_def p4_def p3_def p2_def p1_def process_init_def
  have step: "?step (Main_thread True) ?p0 p1" "?step (Server_thread Interrupted) p1 p2" "?step (Main_thread True) p2 p3"
    "?step (Main_thread True) p3 p4" "?step (Main_thread True) p4 p5"
    using demo_env_starts(2) w1 by (simp_all add: ps main_defs MeshServer_isRunning_def mesh_server_step_def server_begin_def)
  note more = steps_in.move [where step = ?step]
  have p2: "steps_in ?step ?L ?p0 p2"
    by (rule more [OF more [OF steps_in.stay _ step(1)] _ step(2)]) simp_all
  have p5: "steps_in ?step ?L ?p0 p5"
    by (rule more [OF more [OF more [OF p2 _ step(3)] _ step(4)] _ step(5)]) simp_all
  have "mp_thread p5 = None" using wrapper_exit_status [OF demo_env_starts(2) p5, of 0] by (simp add: p5_def)
  with p2 p5 show ?thesis by (intro exI [of _ p2] exI [of _ p5]) (simp add: ps)
qed

text \<open>
  C40. A stop before the server thread has run is lost: right after the start the main thread may find the server
  not running yet, leave its loop and call \<open>stop\<close> without any signal. The server thread then sets the running flag
  again and serves, while the only thread that could stop it waits for it: as long as \<^verbatim>\<open>epoll_wait\<close> does not
  fail, no step of any thread and no signal ever lets the program return.
\<close>

theorem early_stop_is_lost:
  assumes "start_succeeds env" "\<not> is_server_running w"
  shows "\<exists>p. steps_in (mesh_step E env) {Main_thread True} (process_init w) p \<and> mp_main p = Joining \<and> \<not> mp_shutdown p \<and>
    (\<exists>p'. steps_in (mesh_step E env) (range Server_thread) p p' \<and> MeshServer_isRunning p') \<and>
    (\<forall>p'. steps_in (mesh_step E env) (- {Server_thread Wait_failed}) p p' \<longrightarrow> mp_main p' = Joining)"
proof -
  define p where "p = (process_init w)\<lparr>mp_started := True, mp_thread := Some Unborn, mp_main := Joining, mp_world := stop_mesh_server w\<rparr>"
  let ?p1 = "(process_init w)\<lparr>mp_started := True, mp_thread := Some Unborn, mp_main := Polling\<rparr>"
  have steps: "main_step True (process_init w) = Some ?p1" "main_step True ?p1 = Some (?p1\<lparr>mp_main := Stopping\<rparr>)"
    "main_step True (?p1\<lparr>mp_main := Stopping\<rparr>) = Some p"
    using assms(2) by (simp_all add: main_defs process_init_def MeshServer_isRunning_def p_def)
  have "steps_in (mesh_step E env) {Main_thread True} (process_init w) p"
    by (rule steps_in.move [OF steps_in.move [OF steps_in.move [OF steps_in.stay]]]) (use steps in \<open>auto simp: process_init_def\<close>)
  moreover obtain w1 where w1: "mesh_setup E env (mp_world p) = Inr (me_socket env, w1)" "is_server_running w1"
    using setup_running [OF assms(1)] by blast
  then have "steps_in (mesh_step E env) (range Server_thread) p (server_begin E env p)" "MeshServer_isRunning (server_begin E env p)"
    by (auto simp: p_def process_init_def mesh_server_step_def server_begin_def MeshServer_isRunning_def
        intro!: steps_in.move [OF steps_in.stay, of "Server_thread Interrupted"])
  moreover have "mp_main p' = Joining" if "steps_in (mesh_step E env) (- {Server_thread Wait_failed}) p p'" for p'
  proof -
    have "stop_lost p" by (simp add: stop_lost_def p_def)
    then have "stop_lost p'"
      by (rule steps_in_keep [OF that, where P = stop_lost]) (use stop_lost_step [OF assms(1)] in blast)
    then show ?thesis by (simp add: stop_lost_def)
  qed
  moreover have "mp_main p = Joining" "\<not> mp_shutdown p" by (simp_all add: p_def process_init_def)
  ultimately show ?thesis by blast
qed

theorem early_stop_is_lost_witness:
  "\<exists>p. mp_main p = Joining \<and> \<not> mp_shutdown p \<and>
    (\<exists>p'. steps_in (mesh_step no_engine demo_mesh_env) (range Server_thread) p p' \<and> MeshServer_isRunning p')"
  using early_stop_is_lost [OF demo_env_starts, of no_engine] by blast

text \<open>
  The C program cannot be stopped by a signal: its handler sets a variable nothing reads. Once the server has
  started, and while \<^verbatim>\<open>epoll_wait\<close> does not fail and the other threads give the mutex back and leave the running
  flag alone, it still runs after any number of rounds and signals.
\<close>

theorem c_program_ignores_signals:
  assumes "start_succeeds env" "list_all quiet_round rounds"
  shows "main_c E env sigs rounds w = (Mesh_running, sigs \<noteq> [])"
proof -
  have "fold signal_handler_c sigs b = (b \<or> sigs \<noteq> [])" for b
    by (induction sigs arbitrary: b) (auto simp: signal_handler_c_def)
  moreover obtain w1 where "mesh_setup E env w = Inr (me_socket env, w1)" "is_server_running w1" "at_rest w1"
    using setup_running [OF assms(1)] by blast
  ultimately show ?thesis using quiet_loop [OF assms(2)] by (simp add: main_c_def start_mesh_server_def)
qed

theorem c_program_ignores_signals_witness:
  "main_c no_engine demo_mesh_env [2, 15] [alone Interrupted, alone (Ready [(5, demo_old_connection)])] old_demo = (Mesh_running, True)"
  using c_program_ignores_signals [OF demo_env_starts(1), of "[alone Interrupted, alone (Ready [(5, demo_old_connection)])]" no_engine "[2, 15]" old_demo]
  by (simp add: quiet_round_def orderly_def)

end
