(* ===== verification/Wrapper_Progress.thy ===== *)
theory Wrapper_Progress
  imports Mesh_Wrapper
begin

text \<open>
  The C++ program around the earlier server comes to an end: the phases it goes through from its start to its
  return, each left by a step of the main thread or of the server thread, and when the server thread can
  block itself. Progress is that of \<^verbatim>\<open>Fair_Runs\<close>.
\<close>

section \<open>What the properties speak of\<close>

definition server_threads :: "actor set" where
  "server_threads = range Server_thread"

definition main_threads :: "actor set" where
  "main_threads = range Main_thread"

text \<open>Where main has begun to stop the server after the thread began, the server no longer runs.\<close>

definition stop_seen :: "'db mesh_process \<Rightarrow> bool" where
  "stop_seen p = (mp_main p = Joining \<and> mp_started p \<and>
     ((\<exists>fd. mp_thread p = Some (Serving fd)) \<and> \<not> MeshServer_isRunning p \<or> (\<exists>c. mp_thread p = Some (Ended c))))"

definition begun :: "'db mesh_process \<Rightarrow> bool" where
  "begun p = (\<exists>t. mp_thread p = Some t \<and> t \<noteq> Unborn)"

text \<open>Main has begun to stop the server before the server thread ran.\<close>

definition too_early :: "'db mesh_process \<Rightarrow> bool" where
  "too_early p = ((mp_main p = Stopping \<or> mp_main p = Joining) \<and> mp_thread p = Some Unborn)"

definition settled :: "'db mesh_process \<Rightarrow> bool" where
  "settled p = (over (mp_main p) \<or> blocked p \<or> too_early p)"

definition phase :: "main_pc \<Rightarrow> 'db mesh_process \<Rightarrow> bool" where
  "phase pc p = (process_ok p \<and> mp_main p = pc \<and> (pc \<noteq> Begin \<longrightarrow> begun p \<and> \<not> blocked p))"

definition fresh_phase :: "'db mesh_process \<Rightarrow> bool" where
  "fresh_phase p = (process_ok p \<and> mp_main p = Polling \<and> mp_thread p = Some Unborn)"

text \<open>The last two phases: the server thread notices the stop, and main joins it.\<close>

definition noticing :: "'db mesh_process \<Rightarrow> bool" where
  "noticing p = (stop_seen p \<and> (\<exists>fd. mp_thread p = Some (Serving fd)))"

definition joinable :: "'db mesh_process \<Rightarrow> bool" where
  "joinable p = (stop_seen p \<and> (\<exists>c. mp_thread p = Some (Ended c)))"

definition sized :: "'db mesh_process \<Rightarrow> bool" where
  "sized p = (\<forall>fd. mp_thread p = Some (Serving fd) \<longrightarrow> (\<exists>b. standing b MAX_CLIENTS MAX_CLIENTS (mp_world p)))"

definition blocking_cause :: "'db mesh_process \<Rightarrow> bool" where
  "blocking_cause p = (locked (mp_world p) \<or> some_open (mp_world p))"

section \<open>Phases\<close>

lemma round_thread:
  assumes "mp_thread p = Some (Serving fd)" "process_ok p" "p' = server_round r fd p"
  shows "mp_main p' = mp_main p \<and> begun p'"
  using assms server_round_thread [of p fd r] server_round_parts [of r fd p] by (auto simp: begun_def)

lemma can_main:
  assumes "process_ok p" "\<not> over (mp_main p)" "mp_main p = Joining \<longrightarrow> (\<exists>c. mp_thread p = Some (Ended c))"
  shows "can_step (mesh_step E env) main_threads p"
proof -
  have "\<exists>p'. main_step True p = Some p'"
    using assms by (cases "mp_main p") (auto simp: main_defs process_ok_def)
  then have "\<exists>p'. mesh_step E env (Main_thread True) p p'" using assms(2) by (blast intro: mesh_step.main)
  then show ?thesis unfolding main_threads_def by (blast intro: can_stepI)
qed

lemma can_serve:
  assumes "mp_thread p = Some Unborn \<or> mp_thread p = Some (Serving fd)" "\<not> over (mp_main p)"
  shows "can_step (mesh_step E env) server_threads p"
proof -
  have "\<exists>p'. mesh_server_step E env Interrupted p = Some p'" using assms(1) by (auto simp: mesh_server_step_def)
  then have "\<exists>p'. mesh_step E env (Server_thread Interrupted) p p'" using assms(2) by (blast intro: mesh_step.serve)
  then show ?thesis unfolding server_threads_def by (blast intro: can_stepI)
qed

lemma begin_step:
  assumes "phase Begin p" "mesh_step E env l p p'"
  shows "(phase Begin p' \<and> l \<notin> main_threads) \<or> fresh_phase p' \<or> settled p'"
proof -
  have ok: "process_ok p'" using assms process_ok_step by (auto simp: phase_def)
  show ?thesis using assms(2)
  proof (cases rule: mesh_step_cases)
    case (Main b)
    with assms ok show ?thesis
      by (auto simp: phase_def fresh_phase_def settled_def main_defs split: if_splits)
  qed (use assms ok in \<open>auto simp: phase_def process_ok_def main_threads_def\<close>)
qed

lemma fresh_step:
  assumes "fresh_phase p" "mesh_step E env l p p'"
  shows "(fresh_phase p' \<and> l \<notin> server_threads) \<or> phase Polling p' \<or> settled p'"
proof -
  have ok: "process_ok p'" using assms process_ok_step by (auto simp: fresh_phase_def)
  show ?thesis using assms(2)
  proof (cases rule: mesh_step_cases)
    case (Main b)
    with assms ok show ?thesis
      by (auto simp: fresh_phase_def settled_def too_early_def main_defs server_threads_def split: if_splits)
  next
    case (Born r)
    with assms ok server_begin_thread [of p E env] show ?thesis
      by (auto simp: fresh_phase_def phase_def settled_def begun_def split: if_splits)
  qed (use assms ok in \<open>auto simp: fresh_phase_def server_threads_def\<close>)
qed

lemma polling_step:
  assumes "phase Polling p" "mesh_step E env l p p'"
  shows "(phase Polling p' \<and> (mp_shutdown p \<longrightarrow> mp_shutdown p' \<and> l \<notin> main_threads)) \<or> phase Stopping p' \<or> settled p'"
proof -
  have ok: "process_ok p'" using assms process_ok_step by (auto simp: phase_def)
  show ?thesis using assms(2)
  proof (cases rule: mesh_step_cases)
    case (Main b)
    with assms ok show ?thesis
      by (auto simp: phase_def begun_def blocked_def main_defs split: if_splits)
  next
    case (Born r)
    with assms show ?thesis by (auto simp: phase_def begun_def)
  next
    case (Round r fd)
    with assms ok round_thread [of p fd p' r] server_round_parts(3) [of r fd p] show ?thesis
      by (auto simp: phase_def settled_def main_threads_def)
  qed (use assms ok in \<open>auto simp: phase_def begun_def blocked_def main_threads_def\<close>)
qed

lemma stopping_step:
  assumes "phase Stopping p" "mesh_step E env l p p'"
  shows "(phase Stopping p' \<and> l \<notin> main_threads) \<or> stop_seen p' \<or> settled p'"
proof -
  have ok: "process_ok p'" using assms process_ok_step by (auto simp: phase_def)
  show ?thesis using assms(2)
  proof (cases rule: mesh_step_cases)
    case (Main b)
    obtain t where "mp_thread p = Some t" "mp_started p" "t \<noteq> Unborn" "\<forall>e. t \<noteq> Blocked e"
      using assms(1) by (auto simp: phase_def process_ok_def begun_def blocked_def)
    with Main assms show ?thesis
      by (cases t) (auto simp: phase_def stop_seen_def main_defs MeshServer_isRunning_def stop_mesh_server_def is_server_running_def)
  next
    case (Born r)
    with assms show ?thesis by (auto simp: phase_def begun_def)
  next
    case (Round r fd)
    with assms ok round_thread [of p fd p' r] show ?thesis by (auto simp: phase_def settled_def main_threads_def)
  qed (use assms ok in \<open>auto simp: phase_def begun_def blocked_def main_threads_def\<close>)
qed

lemma stop_seen_phases: "stop_seen p \<Longrightarrow> noticing p \<or> joinable p"
  by (auto simp: stop_seen_def noticing_def joinable_def)

lemma noticing_step:
  assumes "noticing p" "mesh_step E env l p p'"
  shows "(noticing p' \<and> l \<notin> server_threads) \<or> joinable p' \<or> settled p'"
  using assms(2)
proof (cases rule: mesh_step_cases)
  case (Round r fd)
  with assms server_finish_outcome [of fd p] show ?thesis
    by (auto simp: noticing_def joinable_def settled_def blocked_def stop_seen_def server_round_def MeshServer_isRunning_def)
qed (use assms in \<open>auto simp: noticing_def stop_seen_def main_defs server_threads_def\<close>)

lemma joinable_step:
  assumes "joinable p" "mesh_step E env l p p'"
  shows "(joinable p' \<and> l \<notin> main_threads) \<or> settled p'"
  using assms(2)
  by (cases rule: mesh_step_cases)
    (use assms in \<open>auto simp: joinable_def stop_seen_def settled_def main_defs main_threads_def\<close>)

lemma shutdown_stays: "mesh_step E env l p p' \<Longrightarrow> mp_shutdown p \<Longrightarrow> mp_shutdown p'"
  by (erule mesh_step_cases)
    (auto simp: main_defs server_begin_parts server_round_parts
      split: main_pc.splits if_splits option.splits server_thread.splits)

lemma not_over_phases:
  "phase Begin p \<Longrightarrow> \<not> over (mp_main p)" "fresh_phase p \<Longrightarrow> \<not> over (mp_main p)" "phase Polling p \<Longrightarrow> \<not> over (mp_main p)"
  "phase Stopping p \<Longrightarrow> \<not> over (mp_main p)" "noticing p \<Longrightarrow> \<not> over (mp_main p)" "joinable p \<Longrightarrow> \<not> over (mp_main p)"
  by (auto simp: phase_def fresh_phase_def noticing_def joinable_def stop_seen_def)

lemma can_join: "joinable p \<Longrightarrow> can_step (mesh_step E env) main_threads p"
proof -
  assume p: "joinable p"
  then have "\<exists>p'. main_step True p = Some p'" by (auto simp: joinable_def stop_seen_def main_defs)
  then have "\<exists>p'. mesh_step E env (Main_thread True) p p'" using p not_over_phases by (blast intro: mesh_step.main)
  then show ?thesis unfolding main_threads_def by (blast intro: can_stepI)
qed

lemma can_phases:
  "phase Begin p \<Longrightarrow> can_step (mesh_step E env) main_threads p" "fresh_phase p \<Longrightarrow> can_step (mesh_step E env) server_threads p"
  "phase Polling p \<Longrightarrow> can_step (mesh_step E env) main_threads p" "phase Stopping p \<Longrightarrow> can_step (mesh_step E env) main_threads p"
  "noticing p \<Longrightarrow> can_step (mesh_step E env) server_threads p"
  using can_main [of p E env] can_serve [of p _ E env] not_over_phases [of p]
  by (auto simp: phase_def fresh_phase_def noticing_def)

lemma stop_is_seen:
  assumes run: "execution (mesh_step E env) run" "fair (mesh_step E env) main_threads run"
      "fair (mesh_step E env) server_threads run" and "stop_seen (run n)"
  shows "\<exists>n. settled (run n)"
proof -
  have join: "\<exists>m. settled (run m)" if "joinable (run n)" for n
    by (rule helpful_progress [where P = joinable, OF run(1,2) that]) (erule (1) joinable_step, erule can_join)
  have "\<exists>m. joinable (run m) \<or> settled (run m)" if "noticing (run n)"
    by (rule helpful_progress [where P = noticing, OF run(1,3) that]) (erule (1) noticing_step, erule can_phases)
  with join stop_seen_phases [OF assms(4)] show ?thesis by blast
qed

lemma polling_ends:
  assumes run: "execution (mesh_step E env) run" "fair (mesh_step E env) main_threads run"
    and "phase Polling (run n)" "mp_shutdown (run k)"
  shows "\<exists>m. phase Stopping (run m) \<or> settled (run m)"
proof -
  let ?m = "max n k" and ?Q = "\<lambda>p. phase Stopping p \<or> settled p"
  have "phase Polling (run ?m) \<or> (\<exists>m. n < m \<and> m \<le> ?m \<and> ?Q (run m))"
    by (rule execution_unless [where P = "phase Polling", OF run(1) assms(3)]) (use polling_step in blast, simp)
  moreover have "mp_shutdown (run ?m)"
    by (rule execution_invariant [where P = mp_shutdown, OF run(1) assms(4)]) (use shutdown_stays in blast, simp)
  moreover have "\<exists>m. ?Q (run m)" if "phase Polling (run ?m) \<and> mp_shutdown (run ?m)"
    by (rule helpful_progress [where P = "\<lambda>p. phase Polling p \<and> mp_shutdown p", OF run(1,2) that])
      (use polling_step in blast, use can_phases(3) in blast)
  ultimately show ?thesis by blast
qed

lemma wrapper_progress:
  assumes run: "execution (mesh_step E env) run" "fair (mesh_step E env) main_threads run"
      "fair (mesh_step E env) server_threads run"
    and "phase Begin (run 0)" "mp_shutdown (run k)"
  shows "\<exists>n. settled (run n)"
proof -
  have stopping: "\<exists>n. settled (run n)" if "phase Stopping (run n)" for n
  proof -
    have "\<exists>m. stop_seen (run m) \<or> settled (run m)"
      by (rule helpful_progress [where P = "phase Stopping", OF run(1,2) that]) (erule (1) stopping_step, erule can_phases)
    with stop_is_seen [OF run] show ?thesis by blast
  qed
  have fresh: "\<exists>n. settled (run n)" if "fresh_phase (run n)" for n
  proof -
    have "\<exists>m. phase Polling (run m) \<or> settled (run m)"
      by (rule helpful_progress [where P = fresh_phase, OF run(1,3) that]) (erule (1) fresh_step, erule can_phases)
    with polling_ends [OF run(1,2) _ assms(5)] stopping show ?thesis by blast
  qed
  have "\<exists>m. fresh_phase (run m) \<or> settled (run m)"
    by (rule helpful_progress [where P = "phase Begin", OF run(1,2) assms(4)]) (erule (1) begin_step, erule can_phases)
  with fresh show ?thesis by blast
qed

section \<open>When the server thread blocks\<close>

lemma sized_at_rest: "standing b MAX_CLIENTS MAX_CLIENTS w \<Longrightarrow> \<not> locked w \<Longrightarrow> at_rest w"
  by (simp add: standing_def at_rest_def)

lemma setup_result:
  "case mesh_setup E env w of Inr (fd, w') \<Rightarrow> at_rest w' | Inl (Mesh_stuck e) \<Rightarrow> False | _ \<Rightarrow> True"
proof (cases "me_mutex env \<and> me_calloc env \<and> me_ssl_ctx env \<noteq> None")
  case True
  then obtain h where h: "me_mutex env" "me_calloc env" "me_ssl_ctx env = Some h" by blast
  have abort: "\<exists>w'. abort_start es v = Mesh_returns 1 w'" if "started h e w v" for es e v
    using abort_started [OF that, of es] by blast
  consider e es v where "started h e w v" "mesh_setup E env w = Inl (abort_start es v)"
    | e v where "started h e w v" "mesh_setup E env w = Inr (me_socket env, v)"
    using mesh_setup_outcome [OF h, of w E] by (meson sum.inject)
  then show ?thesis
  proof cases
    case (1 e es v)
    then show ?thesis using abort [of e v es] by auto
  next
    case (2 e v)
    then show ?thesis using started_at_rest by auto
  qed
next
  case False
  then show ?thesis by (auto simp: mesh_setup_def setup_ssl_context_v2_def Let_def split: option.splits)
qed

lemma accept_ready_stands: "standing b m n w \<Longrightarrow> accept_ready fd es w = Inr (u, w') \<Longrightarrow> standing b m n w'"
proof (induction fd es w rule: accept_ready.induct)
  case (2 server_fd fd k es w)
  then show ?case
    using stands.accept_keeps [of b m n w k] by (auto simp: and_then_def kept_def split: if_splits sum.splits)
qed simp

lemma sized_step:
  assumes "sized p" "mesh_step E env l p p'"
  shows "sized p'"
  using assms(2)
proof (cases rule: mesh_step.cases)
  case (main spawned)
  then show ?thesis using assms(1)
    by (auto simp: sized_def main_defs standing_def stop_mesh_server_def
        split: main_pc.splits if_splits option.splits server_thread.splits)
next
  case (serve r)
  from serve(2) show ?thesis
  proof (cases rule: mesh_server_step_cases)
    case 1
    then show ?thesis using setup_result [of E env "mp_world p"]
      by (auto simp: sized_def server_begin_def at_rest_def standing_def split: sum.splits mesh_result.splits prod.splits)
  next
    case (2 fd)
    then show ?thesis using assms(1) accept_ready_stands server_finish_parts(4) [of fd p]
      by (fastforce simp: sized_def server_round_def split: wait_result.splits sum.splits)
  qed
next
  case (handle w)
  then show ?thesis using assms(1) handler_call_stands by (fastforce simp: sized_def)
qed (use assms(1) in \<open>auto simp: sized_def signal_handler_cpp_def\<close>)

lemma blocking_step:
  assumes "sized p" "mesh_step E env l p p'" "blocked p'" "\<not> blocked p"
  shows "blocking_cause p"
proof (rule ccontr)
  assume no: "\<not> blocking_cause p"
  from assms(2) show False
  proof (cases rule: mesh_step_cases)
    case (Main b)
    then show False using assms(3,4)
      by (auto simp: blocked_def main_defs split: main_pc.splits if_splits option.splits server_thread.splits)
  next
    case (Born r)
    then show False using assms(3) setup_result [of E env "mp_world p"]
      by (auto simp: blocked_def server_begin_def split: sum.splits mesh_result.splits prod.splits)
  next
    case (Round r fd)
    then have rest: "at_rest (mp_world p)" using assms(1) no sized_at_rest by (auto simp: sized_def blocking_cause_def)
    then have "at_rest (old_emit [Close_fd fd] (mp_world p))" "\<not> some_open (old_emit [Close_fd fd] (mp_world p))"
      using no by (auto simp: at_rest_def blocking_cause_def some_open_def)
    from this cleanup_at_rest [OF this(1)] have "\<not> blocked (server_finish fd p)"
      by (auto simp: blocked_def server_finish_def)
    moreover have "accept_ready fd es (mp_world p) \<noteq> Inl e" for es e
      using accept_ready_at_rest [OF rest, of fd es] by auto
    ultimately show False using Round assms(3,4)
      by (auto simp: server_round_def blocked_def split: wait_result.splits sum.splits if_splits)
  next
    case Quiet
    then show False using assms(3,4) by (simp add: blocked_def)
  qed
qed

lemma blocked_after_cause:
  assumes "execution (mesh_step E env) run" "sized (run 0)" "\<not> blocked (run 0)" "blocked (run n)"
  shows "\<exists>m<n. blocking_cause (run m)"
  using assms(4)
proof (induction n)
  case (Suc n)
  have "sized (run n)" by (rule execution_invariant [where P = sized, OF assms(1,2)]) (use sized_step in blast, simp)
  with Suc assms(1) show ?case using blocking_step unfolding execution_def by (metis less_SucI lessI)
qed (use assms(3) in simp)

section \<open>Properties\<close>

text \<open>
  C28. Ctrl+C ends the C++ program once the server has begun: in every run of its threads, however they interleave with client
  handlers and the monitor, in which the main thread and the server thread both keep being scheduled, a
  signal arrives and the main thread does not begin to stop before the server thread has run, the program ends.
  The only way out is a server thread that blocks itself in its clean-up or in accepting, and that happens only after a
  moment at which a client was connected or the mutex was held.
\<close>

theorem signal_ends_wrapper:
  assumes run: "execution (mesh_step E env) run" "fair (mesh_step E env) main_threads run"
      "fair (mesh_step E env) server_threads run"
    and start: "run 0 = process_init w" "\<not> is_server_running w"
    and signal: "mp_shutdown (run k)" and begun: "\<forall>n. \<not> too_early (run n)"
  shows "\<exists>n. over (mp_main (run n)) \<or> blocked (run n) \<and> (\<exists>m<n. blocking_cause (run m))"
proof -
  have "process_ok (process_init w)" using process_ok_init [OF start(2)] .
  then have "phase Begin (run 0)" using start(1) by (simp add: phase_def process_init_def)
  from wrapper_progress [OF run this signal] obtain n where n: "settled (run n)" by blast
  moreover have "\<exists>m<n. blocking_cause (run m)" if "blocked (run n)"
    by (rule blocked_after_cause [OF run(1) _ _ that])
      (simp_all add: start(1) process_init_def sized_def blocked_def)
  ultimately show ?thesis using begun by (auto simp: settled_def)
qed

text \<open>A run of the program: start, Ctrl+C, stop, join.\<close>

lemma demo_wrapper_run:
  "\<exists>run. execution (mesh_step no_engine demo_mesh_env) run \<and> fair (mesh_step no_engine demo_mesh_env) main_threads run \<and>
    fair (mesh_step no_engine demo_mesh_env) server_threads run \<and> run 0 = process_init halted_world \<and>
    (\<exists>k. mp_shutdown (run k)) \<and> (\<forall>n. \<not> too_early (run n)) \<and> (\<forall>n. \<not> blocked (run n))"
proof -
  let ?step = "mesh_step no_engine demo_mesh_env"
  have env: "me_mutex demo_mesh_env" "me_calloc demo_mesh_env" "me_ssl_ctx demo_mesh_env = Some 1"
    "\<not> fails_early demo_mesh_env" "\<not> fails_late demo_mesh_env"
    by (simp_all add: demo_mesh_env_def fails_early_def fails_late_def)
  then obtain w1 where w1: "started 1 (me_epoll demo_mesh_env) halted_world w1"
      "mesh_setup no_engine demo_mesh_env halted_world = Inr (me_socket demo_mesh_env, w1)"
    using mesh_setup_outcome [OF env(1-3), of halted_world no_engine] by auto
  let ?fd = "me_socket demo_mesh_env"
  have rest: "at_rest (old_emit [Close_fd ?fd] (stop_mesh_server w1))" "\<not> some_open (old_emit [Close_fd ?fd] (stop_mesh_server w1))"
    using started_at_rest [OF w1(1)] by (auto simp: at_rest_def some_open_def stop_mesh_server_def)
  then obtain w2 where w2: "cleanup_resources (old_emit [Close_fd ?fd] (stop_mesh_server w1)) = Inr w2"
    using cleanup_at_rest [OF rest(1)] by auto
  define p1 where "p1 = (process_init halted_world)\<lparr>mp_started := True, mp_thread := Some Unborn, mp_main := Polling\<rparr>"
  define p2 where "p2 = p1\<lparr>mp_thread := Some (Serving ?fd), mp_world := w1\<rparr>"
  define p3 where "p3 = p2\<lparr>mp_shutdown := True\<rparr>"
  define p4 where "p4 = p3\<lparr>mp_main := Stopping\<rparr>"
  define p5 where "p5 = p4\<lparr>mp_main := Joining, mp_world := stop_mesh_server w1\<rparr>"
  define p6 where "p6 = p5\<lparr>mp_thread := Some (Ended 0), mp_world := w2\<rparr>"
  define p7 where "p7 = p6\<lparr>mp_thread := None, mp_started := False, mp_main := Returned 0\<rparr>"
  note ps = p7_def p6_def p5_def p4_def p3_def p2_def p1_def process_init_def
  have "?step (Main_thread True) (process_init halted_world) p1"
    using demo_env_starts(2) by (simp add: ps main_defs MeshServer_isRunning_def)
  moreover have "?step (Server_thread Interrupted) p1 p2" using w1(2) by (simp add: ps mesh_server_step_def server_begin_def)
  moreover have "?step Signal p2 p3" "?step (Main_thread True) p3 p4" "?step (Main_thread True) p4 p5" "?step (Main_thread True) p6 p7"
    by (simp_all add: ps main_defs signal_handler_cpp_def)
  moreover have "?step (Server_thread Interrupted) p5 p6"
    using w2 by (simp add: ps mesh_server_step_def server_round_def server_finish_def is_server_running_def stop_mesh_server_def)
  ultimately have chain: "successively (\<lambda>s s'. \<exists>l. ?step l s s') [process_init halted_world, p1, p2, p3, p4, p5, p6, p7]"
    by (simp only: successively.simps) blast
  define ss where "ss = [process_init halted_world, p1, p2, p3, p4, p5, p6, p7]"
  have ss: "ss \<noteq> []" "last ss = p7" "pausing ss 0 = process_init halted_world" "pausing ss 3 = p3"
    by (simp_all add: ss_def pausing_def)
  have halt: "\<not> ?step l (last ss) s" for l s by (cases l) (simp_all add: ss(2) p7_def)
  note run = pausing_execution [where step = ?step, OF ss(1) chain [folded ss_def] halt]
  have "pausing ss n \<in> set ss" for n using ss(1) by (simp add: pausing_def)
  moreover have "\<forall>s \<in> set ss. \<not> too_early s \<and> \<not> blocked s"
    unfolding ss_def by (simp add: ps too_early_def blocked_def)
  ultimately have "\<forall>n. \<not> too_early (pausing ss n)" "\<forall>n. \<not> blocked (pausing ss n)" by blast+
  moreover have "mp_shutdown (pausing ss 3)" unfolding ss(4) by (simp add: p3_def)
  ultimately show ?thesis using run(1) run(2) [of main_threads] run(2) [of server_threads] ss(3) by blast
qed

theorem signal_ends_wrapper_witness:
  "\<exists>run. execution (mesh_step no_engine demo_mesh_env) run \<and> run 0 = process_init halted_world \<and>
    (\<exists>n. over (mp_main (run n)))"
proof -
  obtain run k where run: "execution (mesh_step no_engine demo_mesh_env) run" "fair (mesh_step no_engine demo_mesh_env) main_threads run"
    "fair (mesh_step no_engine demo_mesh_env) server_threads run" "run 0 = process_init halted_world"
    "mp_shutdown (run k)" "\<forall>n. \<not> too_early (run n)" "\<forall>n. \<not> blocked (run n)"
    using demo_wrapper_run by blast
  from signal_ends_wrapper [OF run(1-4) demo_env_starts(2) run(5,6)] run show ?thesis by blast
qed

end
