(* ===== verification/Spec2Isabelle.thy ===== *)
theory Spec2Isabelle
  imports Server_System Session_Edges Second_Definitions Chat_Paths P2P_Paths Term_Layout Draft_Session Wrapper_Progress
begin

text \<open>
  A verification development of the mesh messenger: the TLS chat server \<^verbatim>\<open>src/src/server.c\<close>, its
  graphical client \<^verbatim>\<open>src/src/assets\<close>, the peer-to-peer messenger \<^verbatim>\<open>src/p2p_messenger\<close> and the
  earlier server \<^verbatim>\<open>src/src/trash/server2.c\<close>.

  \<^bold>\<open>The program.\<close> The server keeps one static struct (slots for 1000 clients, a peer table, a ring of
  audit records, keys and handles). \<^verbatim>\<open>start_ultra_secure_server\<close> opens the database and the
  listening socket, starts a monitor thread and accepts connections; each accepted connection gets a
  slot and a thread running \<^verbatim>\<open>secure_client_handler\<close>, which reads lines, limits their rate,
  removes unsafe characters and passes them to \<^verbatim>\<open>process_client_command\<close>. Commands register
  and log in accounts in SQLite, and send frames to the slots of other clients. The graphical client writes such
  command lines and reads the frames as JSON, one per line. The peer-to-peer
  messenger keeps tables of users and groups under a mutex, sends encrypted frames over TCP and runs a
  terminal client. The earlier server has the same shape as the server, with a mutex around the client
  array and introductions between peers; a C++ class with a program around it (\<^verbatim>\<open>MeshServer.hpp\<close>,
  \<^verbatim>\<open>trash/main.cpp\<close>) runs it in a thread of its own, and a C program (\<^verbatim>\<open>main_c.c\<close>) calls it directly.

  \<^bold>\<open>How the model corresponds.\<close> A struct is a record with the fields of the source (a prefix per
  struct), a fixed array the list of its cells, a pointer to a library object an optional number. A
  function is a definition of the same name that takes the state (the whole \<open>world\<close>: server struct,
  database, trace of calls to the outside) and returns the new one. Undefined behaviour that the sources
  can reach is a value of type \<open>fault\<close> on the left of a sum. Where a name is defined twice in the sources,
  the second definition has a suffix (\<open>_2\<close>, \<open>_always\<close>, and \<open>_v2\<close> or \<open>old_\<close> for the earlier server).
  What OpenSSL, SQLite, libsignal, the sockets, the clock and the random generator answer are arguments
  (records such as \<open>evp\<close>, \<open>sqlite\<close>, \<open>signal_env\<close>, \<open>cmd_env\<close>, \<open>turn\<close>), with what the code relies on as
  named hypotheses (\<open>user_store\<close>, \<open>json_reader\<close>, \<open>cbc_inverts\<close>, \<open>gcm_pair\<close>, \<open>reads_ok\<close>, \<open>writes_ok\<close>).

  \<^bold>\<open>The theories.\<close>
  \<^item> \<^verbatim>\<open>Mesh_Prelude\<close>, \<^verbatim>\<open>C_Scan\<close>: C types, strings, formatted output and \<^verbatim>\<open>sscanf\<close>.
  \<^item> \<^verbatim>\<open>Secure_Utils\<close>: wiping, comparing, tokens, nicknames, sanitizing. Sanitizing in place is a
    filter; the constant-time comparison decides equality; valid nicknames pass unchanged through
    sanitizing and scanning.
  \<^item> \<^verbatim>\<open>Server_State\<close>: structs, initial state, world, well-formedness.
  \<^item> \<^verbatim>\<open>Sqlite_Engine\<close>, \<^verbatim>\<open>Database\<close>: the SQLite parameter, the locale \<open>user_store\<close> of what
    the schema promises with its interpretation on tables of rows, and the functions over it.
  \<^item> \<^verbatim>\<open>Net_IO\<close>: the read and write loops over TLS deliver lines and data whole.
  \<^item> \<^verbatim>\<open>Evp_Crypto\<close>, \<^verbatim>\<open>Signal_Protocol\<close>: encryption wrappers (round trip, no leaked
    context on any path), Signal stores and client keys.
  \<^item> \<^verbatim>\<open>Audit_Log\<close>, \<^verbatim>\<open>Peer_Network\<close>: the ring of audit records and the peer table.
  \<^item> \<^verbatim>\<open>Messaging\<close>, \<^verbatim>\<open>Commands\<close>: who receives which frame, and every command of a client:
    frame conditions, confinement of clients that are not logged in, every outcome of a registration, register
    then log in.
  \<^item> \<^verbatim>\<open>Rate_Limit\<close>: the locale \<open>window_limiter\<close> and its three interpretations.
  \<^item> \<^verbatim>\<open>Client_Session\<close>, \<^verbatim>\<open>Server_Lifecycle\<close>: a session from start to release of the
    slot; start-up, accepting, monitor, signals, shutdown and \<^verbatim>\<open>main\<close> (locale \<open>slot_pass\<close> for the loops over slots).
  \<^item> \<^verbatim>\<open>Session_Edges\<close>: a session whose connection says nothing or is gone, which ends by the timeout of the loop.
  \<^item> \<^verbatim>\<open>Second_Definitions\<close>: handlers, lookup, read loop and TLS set-up that \<^verbatim>\<open>server.c\<close> repeats word for word at its
    end, translated a second time with loops over indices: a check of the model, as both translations agree.
  \<^item> \<^verbatim>\<open>Server_System\<close>: all threads as the step relation \<open>server_step\<close>, with the invariant of every
    reachable state and the conditions under which a slot has one thread.
  \<^item> \<^verbatim>\<open>Json_Text\<close>, \<^verbatim>\<open>Chat_Client\<close>, \<^verbatim>\<open>Chat_Window\<close>: JSON as the frames use it (locale
    \<open>json_reader\<close> for Qt's parser, interpreted on a reader of flat objects), the client's commands and
    signals, and the window around it. Answers to registration and login, messages and lists of users that fit their
    arrays are read as what they stand for; welcome and error frames are ignored and encrypted ones broken.
  \<^item> \<^verbatim>\<open>Chat_Gui\<close>: the constructors and their connections, and the graphical client as the step relation
    \<open>gui_step\<close> over what the user and the network do, with the invariant of every reachable window.
  \<^item> \<^verbatim>\<open>Chat_Paths\<close>: from a window through the server to the other windows: a public message arrives, the name of a
    sender cannot be forged line by line, and what lines in one piece and overlong messages do.
  \<^item> \<^verbatim>\<open>P2P_Directory\<close>, \<^verbatim>\<open>P2P_Messages\<close>, \<^verbatim>\<open>P2P_Client\<close>, \<^verbatim>\<open>P2P_Receiver\<close>: the
    messenger's tables (locale \<open>name_table\<close>, interpreted for users and for groups), frames, ciphers, history,
    the terminal client, which does not fault as long as characters are typed and libsignal encrypts, its receiver
    thread and its \<^verbatim>\<open>main\<close>.
  \<^item> \<^verbatim>\<open>P2P_Paths\<close>, \<^verbatim>\<open>Term_Layout\<close>: from the keys typed at one messenger to the frame another receives, whom a
    messenger can reach at all, and the windows of both terminal clients.
  \<^item> \<^verbatim>\<open>Draft_Client\<close>, \<^verbatim>\<open>Draft_Session\<close>: the draft \<^verbatim>\<open>client.c\<close> from its line editor, which agrees with
    the messenger's on lines that fit, to its \<^verbatim>\<open>main\<close>, which returns when the library stays inside its arrays,
    and what can be read of the draft \<^verbatim>\<open>p2p_messenger.c\<close>. What both call and the repository declares nowhere is the
    record \<open>draft_lib\<close>.
  \<^item> \<^verbatim>\<open>Old_Server_State\<close>, \<^verbatim>\<open>Old_Utils\<close>, \<^verbatim>\<open>Old_Server\<close>, \<^verbatim>\<open>Old_Shapes\<close>: the handlers of the earlier server and
    its utilities, equal to the current ones;
    the locale \<open>mutex_user\<close> is what they keep and the sweeps break; the locale \<open>world_predicate\<close>, extended by
    \<open>keeper\<close>, is what a predicate needs for every handler to keep it, interpreted for the sizes of the arrays in
    every slot and for the running flag with the number of slots.
  \<^item> \<^verbatim>\<open>Old_Crypto\<close>, \<^verbatim>\<open>Old_Lifecycle\<close>: its cryptographic callbacks, equal to the current ones
    where both accept the key, and its start-up, main loop, monitor thread and shutdown.
  \<^item> \<^verbatim>\<open>Fair_Runs\<close>, \<^verbatim>\<open>Mesh_Wrapper\<close>, \<^verbatim>\<open>Wrapper_Progress\<close>: infinite runs of a labelled step relation with
    fairness and a rule for progress; the programs around the earlier server, the C++ one as the step relation
    \<open>mesh_step\<close> of main thread, server thread, handlers and signals. The server thread implements
    \<open>start_mesh_server\<close> (a check of the two ways to model it); on fair runs a signal ends the program unless a client was connected or a stop came too early.
  \<^item> this theory: a private message from the button of one window to the chat of another, through the server.

  \<^bold>\<open>Loops and bounds.\<close> A loop over an array or a string is a recursion that ends. A loop that waits for
  the outside (reading, writing, serving, typing) recurses over the list of what the outside answers, one
  entry per iteration; a list that runs out gives \<open>None\<close>, the loop has not returned. Theorems that such a
  loop returns state a length that is enough, for instance one call with progress per byte for
  \<open>ssl_safe_write\<close>. Sizes are those of the sources (8192 bytes of line buffer, 1000 slots).

  \<^bold>\<open>Faults found.\<close> Some theorems state what the code does where it does not do what it means to:
  registration overflows the token array, a prefix of a token logs in, all slots look busy at start, a
  timeout lets two threads share a slot, encrypted frames do not reach the graphical client, group frames are
  dropped by their receiver, the messenger cannot be left before somebody connects, and the earlier server
  cannot be stopped while a client is connected and closes standard input when its start fails. Of the programs
  around it, the C++ one can stop the server before it runs and then waits for ever, and reports success when the
  start failed; the C one ignores signals. The window repeats a timeout for ever and keeps the status of a login
  after the connection is lost; the draft client shows the ciphertext it receives. Several lines in one piece are one
  command with newlines in it, and the second line of a message is shown elsewhere as a text of the system; the frame
  of an overlong message loses its end and is not shown; a lost connection is noticed only by the timeout; a
  messenger knows no user but itself, its stores keep no session, and a failed encryption or an arrow key leads
  it into undefined behaviour.

  \<^bold>\<open>Not modelled.\<close> Printing and drawing, and functions of \<^verbatim>\<open>server.c\<close> that only print one line
  (\<^verbatim>\<open>broadcast_p2p_heartbeat\<close>, \<^verbatim>\<open>integrity_self_check\<close>, \<^verbatim>\<open>advanced_anti_memory_dump\<close>) or are never called
  (\<^verbatim>\<open>calculate_code_hash\<close>); \<^verbatim>\<open>db_exec\<close> of the messenger, which reports errors its callers ignore (the statements
  are \<open>network_tables\<close>); interleavings inside one call of a handler; signed overflow of \<^verbatim>\<open>int\<close> counters that the
  bounds of the code exclude (counts are natural numbers where the invariant bounds them); the contents of TLS and
  Signal sessions; texts outside ASCII in the graphical client. \<^verbatim>\<open>p2p_network_init\<close> of the draft
  \<^verbatim>\<open>p2p_messenger.c\<close> passes an ellipsis for the callbacks and is not C; \<^verbatim>\<open>server.h\<close> and
  \<^verbatim>\<open>server_wrapper.h\<close> only declare; \<^verbatim>\<open>trash/test.c\<close> is commented out; the Python tools and the files CMake
  generates are other languages or no logic of the program.
\<close>

section \<open>From one client to another\<close>

text \<open>
  C1. A private message arrives: when a user presses the private send button of a connected window with a valid
  nickname and a text of printable characters that, without the characters the server takes out, has between 1 and 2047
  characters and does not start with a blank, and the server, in whatever pieces the line arrives, reads it in
  a turn of the session of a logged-in user below the rate limit, then the server writes exactly one frame, to
  the client online under that nickname; and the window there, on reading that frame, appends one line to its
  chat that names sender and recipient and shows the text as typed, less the characters the server takes out.
\<close>

theorem private_chat_end_to_end:
  assumes window: "m_socket (m_client a) = ConnectedState" "toEdit a = to" "messageEdit a = msg"
    and texts: "validate_nickname to" "length to \<le> 31" "list_all isprint msg"
      "m = filter (\<lambda>c. \<not> unsafe_char c) msg" "m \<noteq> []" "\<not> isspace (hd m)" "length m \<le> 2047"
    and slot: "s_running (w_srv w)" "i < length (s_clients (w_srv w))" "0 \<le> c_fd (client w i)"
      "c_authorized (client w i)" "cstr (c_nick (client w i)) = from" "validate_nickname from" "length from \<le> 31"
    and turn: "0 \<le> tn_fd t" "0 < tn_selected t" "reads_ok (tn_reads t) 8191" "Read_end \<in> set (tn_reads t)"
      "length buffer = 8192" "fst (limit_request (tn_now t) (c_rate_limit (client w i)))"
      "mw_socket (onPrivateSendClicked now a) = mw_socket a @ [Write (line_chunks (tn_reads t) 8191)]"
    and target: "find_client_by_nick (w_srv w) to = Some j" "json_reader f"
  shows "\<exists>buffer' w' frame. session_turn E i ip t buffer w = Some (Inr (Continue, buffer', w')) \<and>
    w_trace w' = w_trace w @ [Ssl_safe_write (c_ssl (client w j)) frame] \<and>
    chatArea (window_reads f now' frame b) = chatArea b @ [''[PRIVATE from '' @ from @ '' to '' @ to @ ''] '' @ m]"
proof -
  note to = valid_nick_chars [OF texts(1,2)] and sender = valid_nick_chars [OF slot(6,7)]
  have m: "plain m" "is_cstr msg" "msg \<noteq> []" "to \<noteq> []"
    using texts(3-5) to(3) by (auto simp: plain_filter isprint_cstr is_word_def)
  let ?l = "''/msg '' @ to @ CHR '' '' # msg"
  have line: "line_chunks (tn_reads t) 8191 = ?l @ [NL]" "is_cstr ?l"
    "filter (\<lambda>c. \<not> unsafe_char c) ?l = ''/msg '' @ to @ CHR '' '' # m"
    using turn(7) window texts(4) to m private_send_writes [of a now] by (simp_all add: is_cstr_def unsafe_char_def)
  obtain rl where rl: "limit_request (tn_now t) (c_rate_limit (client w i)) = (True, rl)"
    using turn(6) by (cases "limit_request (tn_now t) (c_rate_limit (client w i))") auto
  define c1 where "c1 = (client w i)\<lparr>c_last_activity := tn_activity_now t, c_rate_limit := rl\<rparr>"
  let ?w = "set_client i c1 w"
  have c1: "client ?w i = c1" "c_nick c1 = c_nick (client w i)" "c_authorized c1" "c_ssl (client ?w j) = c_ssl (client w j)"
    using slot by (auto simp: c1_def nth_list_update)
  have find: "find_client_by_nick (w_srv ?w) to = Some j"
    using find_client_set_client [OF slot(2), of c1 to] target(1) by (simp add: c1_def reachable_client_def)
  obtain buffer' where "session_turn E i ip t buffer w =
      Some (map_sum id (\<lambda>w'. (Continue, buffer', w'))
        (process_client_command E (tn_cmd t) i (''/msg '' @ to @ CHR '' '' # m) ip ?w))"
    using session_turn_runs [OF slot(1,3,2) turn(1-5) line _ _ rl] unfolding c1_def by auto
  then have "session_turn E i ip t buffer w =
      Some (Inr (Continue, buffer', send_private_message E from to m ?w))"
    using private_line_runs [of ?w i to m E "tn_cmd t" ip] c1 slot(5) texts(2,5-7) to(3) plain_chars [OF m(1)]
    by simp
  moreover have "w_trace (send_private_message E from to m ?w) =
      w_trace w @ [Ssl_safe_write (c_ssl (client w j)) (json_private from to m)]"
    using private_message_trace [OF slot(7) texts(2,7) find, of E] c1(4) by simp
  ultimately show ?thesis using window_reads_private [OF target(2) sender(5) to(5) m(1) sender(1) to(1)] by blast
qed

theorem private_chat_end_to_end_witness:
  "\<exists>buffer' w' frame. session_turn table_engine 0 ''ip'' (chat_turn [''/msg b'', ''ob hi<!'' @ [NL]]) (nuls 8192) chat_world = Some (Inr (Continue, buffer', w')) \<and>
    w_trace w' = [Ssl_safe_write (Some 6) frame] \<and>
    chatArea (window_reads flat_json ''12:00'' frame demo_window) = [''[PRIVATE from ann to bob] hi!'']"
proof -
  have "\<exists>buffer' w' frame. session_turn table_engine 0 ''ip'' (chat_turn [''/msg b'', ''ob hi<!'' @ [NL]]) (nuls 8192) chat_world = Some (Inr (Continue, buffer', w')) \<and>
    w_trace w' = w_trace chat_world @ [Ssl_safe_write (c_ssl (client chat_world 1)) frame] \<and>
    chatArea (window_reads flat_json ''12:00'' frame demo_window) =
      chatArea demo_window @ [''[PRIVATE from '' @ ''ann'' @ '' to '' @ ''bob'' @ ''] '' @ ''hi!'']"
  proof (rule private_chat_end_to_end [of demo_window _ "''hi<!''"])
    show "find_client_by_nick (w_srv chat_world) ''bob'' = Some 1"
      by (simp add: find_client_by_nick_def chat_world_clients)
    show "json_reader flat_json" by (rule flat.json_reader_axioms)
    show "validate_nickname ''bob''" "validate_nickname ''ann''" by (fact chat_world_users)+
    show "fst (limit_request (tn_now (chat_turn [''/msg b'', ''ob hi<!'' @ [NL]])) (c_rate_limit (client chat_world 0)))"
      by (simp add: chat_turn_def demo_turn_def chat_world_clients one_client_def limiter_defs zero_rate_limit_def zero_client_def)
    show "mw_socket (onPrivateSendClicked ''12:00'' demo_window) =
        mw_socket demo_window @ [Write (line_chunks (tn_reads (chat_turn [''/msg b'', ''ob hi<!'' @ [NL]])) 8191)]"
      by (subst private_send_writes) (simp_all add: chat_turn_def demo_window_def demo_chat_client_def)
  qed (simp_all add: chat_world_clients chat_turn_def demo_turn_def demo_window_def demo_chat_client_def isprint_def
      isspace_def unsafe_char_def)
  then show ?thesis by (simp add: chat_world_clients demo_window_def)
qed

end
